theory Spec2Isabelle
  imports Main "HOL-Library.Word" "HOL-Library.Multiset"
begin

section \<open>JavaScript strings and the JSON codec\<close>

text \<open>
  The composite cursor of \<^verbatim>\<open>providersService.ts\<close> is the text
  \<^verbatim>\<open>JSON.stringify({ cursors: [...] })\<close> and is read back with
  \<^verbatim>\<open>JSON.parse(options?.cursor ?? '{}')\<close>.  A JavaScript string is a finite
  sequence of 16-bit code units, so it is a list of 16-bit words here; \<open>js\<close> turns an
  ASCII literal into such a string.
\<close>

type_synonym jschar = "16 word"
type_synonym jsstring = "jschar list"

definition js :: "string \<Rightarrow> jsstring" where
  "js s = map (\<lambda>c. of_nat (of_char c)) s"

text \<open>
  JSON values.  A number keeps its lexeme: no claim reads a number, and its value would
  be a floating-point one.  An object is the list of its members in the order of the
  text; reading a property takes the last member of that name, as \<^verbatim>\<open>JSON.parse\<close>
  does for a repeated key.
\<close>

datatype json =
    JNull
  | JBool bool
  | JNumber jsstring
  | JString jsstring
  | JArray "json list"
  | JObject "(jsstring \<times> json) list"

definition getProperty :: "(jsstring \<times> json) list \<Rightarrow> jsstring \<Rightarrow> json option" where
  "getProperty members key = map_of (rev members) key"

subsection \<open>\<^verbatim>\<open>JSON.stringify\<close>\<close>

definition isHighSurrogate :: "jschar \<Rightarrow> bool" where
  "isHighSurrogate c = (0xD800 \<le> c \<and> c \<le> 0xDBFF)"

definition isLowSurrogate :: "jschar \<Rightarrow> bool" where
  "isLowSurrogate c = (0xDC00 \<le> c \<and> c \<le> 0xDFFF)"

definition hexDigit :: "nat \<Rightarrow> jschar" where
  "hexDigit d = (if d < 10 then of_nat (48 + d) else of_nat (87 + d))"

definition unicodeEscape :: "jschar \<Rightarrow> jsstring" where
  "unicodeEscape c =
     (let n = unat c
      in [0x5C, 0x75, hexDigit (n div 4096 mod 16), hexDigit (n div 256 mod 16),
          hexDigit (n div 16 mod 16), hexDigit (n mod 16)])"

text \<open>One code unit inside a string literal (the table of QuoteJSONString).\<close>

definition quoteUnit :: "jschar \<Rightarrow> jsstring" where
  "quoteUnit c =
     (if c = 0x08 then [0x5C, 0x62]
      else if c = 0x09 then [0x5C, 0x74]
      else if c = 0x0A then [0x5C, 0x6E]
      else if c = 0x0C then [0x5C, 0x66]
      else if c = 0x0D then [0x5C, 0x72]
      else if c = 0x22 then [0x5C, 0x22]
      else if c = 0x5C then [0x5C, 0x5C]
      else if c < 0x20 \<or> isHighSurrogate c \<or> isLowSurrogate c then unicodeEscape c
      else [c])"

text \<open>A high surrogate followed by a low one is a code point and is copied; a lone
  surrogate is escaped.\<close>

fun quoteUnits :: "jsstring \<Rightarrow> jsstring" where
  "quoteUnits [] = []"
| "quoteUnits [c] = quoteUnit c"
| "quoteUnits (c # d # cs) =
     (if isHighSurrogate c \<and> isLowSurrogate d then c # d # quoteUnits cs
      else quoteUnit c @ quoteUnits (d # cs))"

definition QuoteJSONString :: "jsstring \<Rightarrow> jsstring" where
  "QuoteJSONString s = 0x22 # quoteUnits s @ [0x22]"

fun commaSeparated :: "jsstring list \<Rightarrow> jsstring" where
  "commaSeparated [] = []"
| "commaSeparated [x] = x"
| "commaSeparated (x # y # ys) = x @ 0x2C # commaSeparated (y # ys)"

fun JSON_stringify :: "json \<Rightarrow> jsstring" where
  "JSON_stringify JNull = js ''null''"
| "JSON_stringify (JBool b) = (if b then js ''true'' else js ''false'')"
| "JSON_stringify (JNumber lexeme) = lexeme"
| "JSON_stringify (JString s) = QuoteJSONString s"
| "JSON_stringify (JArray vs) = 0x5B # commaSeparated (map JSON_stringify vs) @ [0x5D]"
| "JSON_stringify (JObject members) =
     0x7B # commaSeparated (map (\<lambda>(k, v). QuoteJSONString k @ 0x3A # JSON_stringify v) members)
       @ [0x7D]"

subsection \<open>\<^verbatim>\<open>JSON.parse\<close>\<close>

definition isWhitespace :: "jschar \<Rightarrow> bool" where
  "isWhitespace c = (c = 0x20 \<or> c = 0x09 \<or> c = 0x0A \<or> c = 0x0D)"

fun skipWhitespace :: "jsstring \<Rightarrow> jsstring" where
  "skipWhitespace [] = []"
| "skipWhitespace (c # cs) = (if isWhitespace c then skipWhitespace cs else c # cs)"

definition isDigit :: "jschar \<Rightarrow> bool" where
  "isDigit c = (0x30 \<le> c \<and> c \<le> 0x39)"

definition hexValue :: "jschar \<Rightarrow> nat option" where
  "hexValue c =
     (if 0x30 \<le> c \<and> c \<le> 0x39 then Some (unat c - 48)
      else if 0x61 \<le> c \<and> c \<le> 0x66 then Some (unat c - 87)
      else if 0x41 \<le> c \<and> c \<le> 0x46 then Some (unat c - 55)
      else None)"

definition unhex4 :: "jschar \<Rightarrow> jschar \<Rightarrow> jschar \<Rightarrow> jschar \<Rightarrow> jschar option" where
  "unhex4 a b c d =
     (case (hexValue a, hexValue b, hexValue c, hexValue d) of
        (Some x, Some y, Some z, Some w) \<Rightarrow> Some (of_nat (x * 4096 + y * 256 + z * 16 + w))
      | _ \<Rightarrow> None)"

text \<open>The code unit of a two-character escape, after the backslash.\<close>

definition simpleEscape :: "jschar \<Rightarrow> jschar option" where
  "simpleEscape e =
     (if e = 0x22 then Some 0x22
      else if e = 0x5C then Some 0x5C
      else if e = 0x2F then Some 0x2F
      else if e = 0x62 then Some 0x08
      else if e = 0x66 then Some 0x0C
      else if e = 0x6E then Some 0x0A
      else if e = 0x72 then Some 0x0D
      else if e = 0x74 then Some 0x09
      else None)"

text \<open>The characters of a string literal after its opening quote: the string read so
  far is \<open>acc\<close>; the result is the string and the text after the closing quote.\<close>

fun parseChars :: "jsstring \<Rightarrow> jsstring \<Rightarrow> (jsstring \<times> jsstring) option" where
  "parseChars [] acc = None"
| "parseChars (c # cs) acc =
     (if c = 0x22 then Some (acc, cs)
      else if c = 0x5C then
        (case cs of
           [] \<Rightarrow> None
         | e # r \<Rightarrow>
             if e = 0x75 then
               (case r of
                  h1 # h2 # h3 # h4 # r' \<Rightarrow>
                    (case unhex4 h1 h2 h3 h4 of
                       None \<Rightarrow> None
                     | Some u \<Rightarrow> parseChars r' (acc @ [u]))
                | _ \<Rightarrow> None)
             else
               (case simpleEscape e of
                  None \<Rightarrow> None
                | Some u \<Rightarrow> parseChars r (acc @ [u])))
      else if c < 0x20 then None
      else parseChars cs (acc @ [c]))"

fun stripPrefix :: "jsstring \<Rightarrow> jsstring \<Rightarrow> jsstring option" where
  "stripPrefix [] cs = Some cs"
| "stripPrefix (p # ps) [] = None"
| "stripPrefix (p # ps) (c # cs) = (if p = c then stripPrefix ps cs else None)"

text \<open>Numbers: \<^verbatim>\<open>-? (0 | [1-9][0-9]*) (. [0-9]+)? ([eE] [+-]? [0-9]+)?\<close>.\<close>

definition lexInt :: "jsstring \<Rightarrow> (jsstring \<times> jsstring) option" where
  "lexInt cs =
     (case cs of
        [] \<Rightarrow> None
      | c # r \<Rightarrow>
          if c = 0x30 then Some ([c], r)
          else if isDigit c then Some (c # takeWhile isDigit r, dropWhile isDigit r)
          else None)"

definition lexDigits :: "jsstring \<Rightarrow> (jsstring \<times> jsstring) option" where
  "lexDigits cs =
     (case cs of
        [] \<Rightarrow> None
      | c # r \<Rightarrow>
          if isDigit c then Some (c # takeWhile isDigit r, dropWhile isDigit r) else None)"

definition lexFraction :: "jsstring \<Rightarrow> (jsstring \<times> jsstring) option" where
  "lexFraction cs =
     (case cs of
        [] \<Rightarrow> Some ([], cs)
      | c # r \<Rightarrow>
          if c = 0x2E then
            (case lexDigits r of None \<Rightarrow> None | Some (ds, r') \<Rightarrow> Some (c # ds, r'))
          else Some ([], cs))"

definition lexExponent :: "jsstring \<Rightarrow> (jsstring \<times> jsstring) option" where
  "lexExponent cs =
     (case cs of
        [] \<Rightarrow> Some ([], cs)
      | c # r \<Rightarrow>
          if c = 0x65 \<or> c = 0x45 then
            (case r of
               [] \<Rightarrow> None
             | s # r' \<Rightarrow>
                 if s = 0x2B \<or> s = 0x2D then
                   (case lexDigits r' of
                      None \<Rightarrow> None
                    | Some (ds, r'') \<Rightarrow> Some (c # s # ds, r''))
                 else
                   (case lexDigits r of
                      None \<Rightarrow> None
                    | Some (ds, r'') \<Rightarrow> Some (c # ds, r'')))
          else Some ([], cs))"

definition lexNumber :: "jsstring \<Rightarrow> (jsstring \<times> jsstring) option" where
  "lexNumber cs =
     (let (sign, r0) = (case cs of [] \<Rightarrow> ([], cs) | c # r \<Rightarrow> if c = 0x2D then ([c], r) else ([], cs))
      in case lexInt r0 of
           None \<Rightarrow> None
         | Some (ip, r1) \<Rightarrow>
             (case lexFraction r1 of
                None \<Rightarrow> None
              | Some (fp, r2) \<Rightarrow>
                  (case lexExponent r2 of
                     None \<Rightarrow> None
                   | Some (ep, r3) \<Rightarrow> Some (sign @ ip @ fp @ ep, r3))))"

text \<open>
  The recursive descent.  The first argument bounds the number of nested calls; every
  call reads at least one character before it calls again, so \<open>JSON_parse\<close> starts it
  with more than the length of the text.  \<open>parseElements\<close> is called after \<^verbatim>\<open>[\<close> or a
  comma and \<open>parseMembers\<close> after \<^verbatim>\<open>{\<close> or a comma, with what was read before in \<open>acc\<close>.
\<close>

fun parseValue :: "nat \<Rightarrow> jsstring \<Rightarrow> (json \<times> jsstring) option"
  and parseElements :: "nat \<Rightarrow> jsstring \<Rightarrow> json list \<Rightarrow> (json \<times> jsstring) option"
  and parseMembers :: "nat \<Rightarrow> jsstring \<Rightarrow> (jsstring \<times> json) list \<Rightarrow> (json \<times> jsstring) option"
where
  "parseValue 0 cs = None"
| "parseValue (Suc n) cs =
     (case skipWhitespace cs of
        [] \<Rightarrow> None
      | c # r \<Rightarrow>
          if c = 0x7B then
            (case skipWhitespace r of
               [] \<Rightarrow> None
             | d # r' \<Rightarrow> if d = 0x7D then Some (JObject [], r') else parseMembers n (d # r') [])
          else if c = 0x5B then
            (case skipWhitespace r of
               [] \<Rightarrow> None
             | d # r' \<Rightarrow> if d = 0x5D then Some (JArray [], r') else parseElements n (d # r') [])
          else if c = 0x22 then
            (case parseChars r [] of None \<Rightarrow> None | Some (s, r') \<Rightarrow> Some (JString s, r'))
          else if c = 0x74 then
            (case stripPrefix (js ''rue'') r of None \<Rightarrow> None | Some r' \<Rightarrow> Some (JBool True, r'))
          else if c = 0x66 then
            (case stripPrefix (js ''alse'') r of None \<Rightarrow> None | Some r' \<Rightarrow> Some (JBool False, r'))
          else if c = 0x6E then
            (case stripPrefix (js ''ull'') r of None \<Rightarrow> None | Some r' \<Rightarrow> Some (JNull, r'))
          else
            (case lexNumber (c # r) of None \<Rightarrow> None | Some (l, r') \<Rightarrow> Some (JNumber l, r')))"
| "parseElements 0 cs acc = None"
| "parseElements (Suc n) cs acc =
     (case parseValue n cs of
        None \<Rightarrow> None
      | Some (v, r) \<Rightarrow>
          (case skipWhitespace r of
             [] \<Rightarrow> None
           | c # r' \<Rightarrow>
               if c = 0x2C then parseElements n r' (acc @ [v])
               else if c = 0x5D then Some (JArray (acc @ [v]), r')
               else None))"
| "parseMembers 0 cs acc = None"
| "parseMembers (Suc n) cs acc =
     (case skipWhitespace cs of
        [] \<Rightarrow> None
      | c # r \<Rightarrow>
          if c \<noteq> 0x22 then None
          else
            (case parseChars r [] of
               None \<Rightarrow> None
             | Some (k, r1) \<Rightarrow>
                 (case skipWhitespace r1 of
                    [] \<Rightarrow> None
                  | d # r2 \<Rightarrow>
                      if d \<noteq> 0x3A then None
                      else
                        (case parseValue n r2 of
                           None \<Rightarrow> None
                         | Some (v, r3) \<Rightarrow>
                             (case skipWhitespace r3 of
                                [] \<Rightarrow> None
                              | e # r4 \<Rightarrow>
                                  if e = 0x2C then parseMembers n r4 (acc @ [(k, v)])
                                  else if e = 0x7D then Some (JObject (acc @ [(k, v)]), r4)
                                  else None)))))"

datatype exn = SyntaxError | TypeError | Rejected jsstring

definition JSON_parse :: "jsstring \<Rightarrow> exn + json" where
  "JSON_parse text =
     (case parseValue (Suc (length text)) text of
        None \<Rightarrow> Inl SyntaxError
      | Some (v, r) \<Rightarrow> if skipWhitespace r = [] then Inr v else Inl SyntaxError)"


section \<open>Data model of \<^verbatim>\<open>providersService.ts\<close>\<close>

text \<open>
  The enums and interfaces are declared in \<^verbatim>\<open>./models\<close>; the service names the
  members below.  Every provider that the service does not single out is an
  \<open>OtherProvider\<close>.
\<close>

datatype ProviderId = GitLab | Bitbucket | AzureDevOps | OtherProvider jsstring

datatype PagingMode = Project | Repo | Repos

datatype PullRequestFilter = PRAuthor | PRAssignee | PRReviewRequested | PRMention

datatype IssueFilter = IssueAuthor | IssueAssignee | IssueMention

text \<open>
  A repository descriptor.  \<^verbatim>\<open>project\<close> is optional, and the service tests
  \<^verbatim>\<open>repo.namespace != null\<close>, so both may be absent.  The record does not keep the
  order of the properties of the JavaScript object.
\<close>

record RepoInput =
  namespace :: "jsstring option"
  name :: jsstring
  project :: "jsstring option"

text \<open>\<^verbatim>\<open>ProviderReposInput\<close>: repository ids or descriptors; \<^verbatim>\<open>isRepoIdsInput\<close> tells
  them apart.\<close>

datatype ProviderReposInput = RepoIds "jsstring list" | RepoInputs "RepoInput list"

definition isRepoIdsInput :: "ProviderReposInput \<Rightarrow> bool" where
  "isRepoIdsInput reposOrRepoIds =
     (case reposOrRepoIds of RepoIds ids \<Rightarrow> True | RepoInputs repos \<Rightarrow> False)"

text \<open>The descriptors of the input, and the properties \<^verbatim>\<open>namespace\<close> and
  \<^verbatim>\<open>project\<close> that the loops over \<^verbatim>\<open>reposOrRepoIds as ProviderRepoInput[]\<close> read:
  an id has neither property.\<close>

definition reposOf :: "ProviderReposInput \<Rightarrow> RepoInput list" where
  "reposOf reposOrRepoIds =
     (case reposOrRepoIds of RepoIds ids \<Rightarrow> [] | RepoInputs repos \<Rightarrow> repos)"

definition namespacesOf :: "ProviderReposInput \<Rightarrow> jsstring option list" where
  "namespacesOf reposOrRepoIds =
     (case reposOrRepoIds of
        RepoIds ids \<Rightarrow> map (\<lambda>i. None) ids
      | RepoInputs repos \<Rightarrow> map namespace repos)"

definition projectsOf :: "ProviderReposInput \<Rightarrow> jsstring option list" where
  "projectsOf reposOrRepoIds =
     (case reposOrRepoIds of
        RepoIds ids \<Rightarrow> map (\<lambda>i. None) ids
      | RepoInputs repos \<Rightarrow> map project repos)"

text \<open>A JavaScript \<^verbatim>\<open>Set\<close>: its elements in insertion order.\<close>

definition setAdd :: "'a list \<Rightarrow> 'a \<Rightarrow> 'a list" where
  "setAdd s x = (if x \<in> set s then s else s @ [x])"

definition setOf :: "'a list \<Rightarrow> 'a list" where
  "setOf xs = foldl setAdd [] xs"

record ProviderAccount =
  account_id :: "jsstring option"
  account_name :: "jsstring option"
  username :: "jsstring option"

text \<open>\<^verbatim>\<open>GetPullRequestsOptions\<close> and \<^verbatim>\<open>GetIssuesOptions\<close>, the latter without
  \<^verbatim>\<open>reviewRequestedLogin\<close>; an absent property is \<open>None\<close>.\<close>

record QueryOptions =
  authorLogin :: "jsstring option"
  assigneeLogins :: "jsstring list option"
  reviewRequestedLogin :: "jsstring option"
  mentionLogin :: "jsstring option"
  queryCursor :: "jsstring option"

text \<open>\<^verbatim>\<open>{ ...options, cursor: c }\<close>, where \<^verbatim>\<open>options\<close> may be undefined.\<close>

definition withCursor :: "QueryOptions option \<Rightarrow> jsstring option \<Rightarrow> QueryOptions" where
  "withCursor options c =
     (case options of
        None \<Rightarrow> \<lparr>authorLogin = None, assigneeLogins = None, reviewRequestedLogin = None,
                  mentionLogin = None, queryCursor = c\<rparr>
      | Some opts \<Rightarrow> opts\<lparr>queryCursor := c\<rparr>)"

record Paging =
  paging_cursor :: "jsstring option"
  paging_more :: bool

record 'a PagedResult =
  page_values :: "'a list"
  paging :: "Paging option"

record PagedRepoInput =
  repo :: RepoInput
  repoCursor :: "jsstring option"

record PagedProjectInput =
  projectNamespace :: "jsstring option"
  projectProject :: "jsstring option"
  projectCursor :: "jsstring option"

subsection \<open>The collaborators\<close>

text \<open>
  Every call that leaves the service is recorded, in the order in which it is made.
\<close>

datatype event =
    GetSession ProviderId jsstring "jsstring list"
  | GetCurrentUser ProviderId
  | GetCurrentUserForInstance ProviderId "jsstring option"
  | GetPullRequestsForRepo ProviderId RepoInput QueryOptions
  | GetPullRequestsForRepos ProviderId ProviderReposInput QueryOptions
  | GetIssuesForRepo ProviderId RepoInput QueryOptions
  | GetIssuesForAzureProject "jsstring option" "jsstring option" QueryOptions
  | GetIssuesForRepos ProviderId ProviderReposInput QueryOptions
  | GetReposForAzureProject jsstring jsstring "jsstring option"

text \<open>
  \<^verbatim>\<open>ProvidersApi\<close> and \<^verbatim>\<open>container.integrationAuthentication\<close> are parameters.  A
  promise settles with \<open>Inl\<close> (rejected) or \<open>Inr\<close>, and a collaborator answers a call
  by its arguments.  The calls of a fan-out run
  concurrently, so each of them also tells when it settles: the first component of its
  answer is its completion time.  The two tables of supported filters stand for the
  registry behind \<^verbatim>\<open>providerSupportsPullRequestFilters\<close> and
  \<^verbatim>\<open>providerSupportsIssueFilters\<close>.
\<close>

record ('p, 'i, 'r, 's) ProvidersApi =
  auth_getSession :: "ProviderId \<Rightarrow> jsstring \<Rightarrow> jsstring list \<Rightarrow> exn + 's option"
  api_getProviderDomain :: "ProviderId \<Rightarrow> jsstring option"
  api_getScopesForProvider :: "ProviderId \<Rightarrow> jsstring list option"
  api_supportedPullRequestFilters :: "ProviderId \<Rightarrow> PullRequestFilter list"
  api_supportedIssueFilters :: "ProviderId \<Rightarrow> IssueFilter list"
  api_getProviderPullRequestsPagingMode :: "ProviderId \<Rightarrow> PagingMode option"
  api_getProviderIssuesPagingMode :: "ProviderId \<Rightarrow> PagingMode option"
  api_getCurrentUser :: "ProviderId \<Rightarrow> exn + ProviderAccount option"
  api_getCurrentUserForInstance :: "ProviderId \<Rightarrow> jsstring option \<Rightarrow> exn + ProviderAccount option"
  api_getPullRequestsForRepo ::
    "ProviderId \<Rightarrow> RepoInput \<Rightarrow> QueryOptions \<Rightarrow> nat \<times> (exn + 'p PagedResult)"
  api_getPullRequestsForRepos ::
    "ProviderId \<Rightarrow> ProviderReposInput \<Rightarrow> QueryOptions \<Rightarrow> exn + 'p PagedResult"
  api_getIssuesForRepo ::
    "ProviderId \<Rightarrow> RepoInput \<Rightarrow> QueryOptions \<Rightarrow> nat \<times> (exn + 'i PagedResult)"
  api_getIssuesForAzureProject ::
    "jsstring option \<Rightarrow> jsstring option \<Rightarrow> QueryOptions \<Rightarrow> nat \<times> (exn + 'i PagedResult)"
  api_getIssuesForRepos ::
    "ProviderId \<Rightarrow> ProviderReposInput \<Rightarrow> QueryOptions \<Rightarrow> exn + 'i PagedResult"
  api_getReposForAzureProject ::
    "jsstring \<Rightarrow> jsstring \<Rightarrow> jsstring option \<Rightarrow> exn + 'r PagedResult"

text \<open>Modelled from the spec: \<^verbatim>\<open>providerSupportsPullRequestFilters\<close> and
  \<^verbatim>\<open>providerSupportsIssueFilters\<close> of \<^verbatim>\<open>providersApi.ts\<close>, which is not among the
  sources: "for each requested filter, look up whether the provider supports it".\<close>

definition providerSupportsPullRequestFilters ::
  "('p, 'i, 'r, 's) ProvidersApi \<Rightarrow> ProviderId \<Rightarrow> PullRequestFilter list \<Rightarrow> bool" where
  "providerSupportsPullRequestFilters api providerId filters =
     list_all (\<lambda>f. f \<in> set (api_supportedPullRequestFilters api providerId)) filters"

definition providerSupportsIssueFilters ::
  "('p, 'i, 'r, 's) ProvidersApi \<Rightarrow> ProviderId \<Rightarrow> IssueFilter list \<Rightarrow> bool" where
  "providerSupportsIssueFilters api providerId filters =
     list_all (\<lambda>f. f \<in> set (api_supportedIssueFilters api providerId)) filters"

text \<open>
  How an operation ends: with a page; with \<^verbatim>\<open>undefined\<close>, for the reason that the
  service logs; or with an exception that leaves the operation (a rejected promise).
  \<open>IllTypedCursor\<close> marks a cursor whose JSON is not of the declared type
  \<^verbatim>\<open>PagedRepoInput[]\<close> or \<^verbatim>\<open>PagedProjectInput[]\<close>: what the service does with it
  is not described here.
\<close>

datatype failure =
    SessionUnavailable
  | UnsupportedInput
  | UnsupportedFilters
  | MultipleOrganizations
  | NoOrganizations
  | CurrentUserFailed exn
  | NoCurrentUser
  | NoUserProperty
  | QueryFailed exn

datatype 'a outcome = Result 'a | NoResult failure | Raised exn | IllTypedCursor


section \<open>The composite cursor\<close>

text \<open>
  \<^verbatim>\<open>JSON.stringify\<close> leaves out a property whose value is undefined; reading a
  property that is not there gives undefined.
\<close>

definition optionalMember :: "jsstring \<Rightarrow> jsstring option \<Rightarrow> (jsstring \<times> json) list" where
  "optionalMember key v = (case v of None \<Rightarrow> [] | Some s \<Rightarrow> [(key, JString s)])"

definition RepoInput_json :: "RepoInput \<Rightarrow> json" where
  "RepoInput_json r =
     JObject (optionalMember (js ''namespace'') (namespace r)
              @ [(js ''name'', JString (name r))]
              @ optionalMember (js ''project'') (project r))"

definition PagedRepoInput_json :: "PagedRepoInput \<Rightarrow> json" where
  "PagedRepoInput_json e =
     JObject ((js ''repo'', RepoInput_json (repo e)) # optionalMember (js ''cursor'') (repoCursor e))"

definition PagedProjectInput_json :: "PagedProjectInput \<Rightarrow> json" where
  "PagedProjectInput_json e =
     JObject (optionalMember (js ''namespace'') (projectNamespace e)
              @ optionalMember (js ''project'') (projectProject e)
              @ optionalMember (js ''cursor'') (projectCursor e))"

text \<open>\<^verbatim>\<open>JSON.stringify(cursor)\<close> for \<^verbatim>\<open>cursor = { cursors: [...] }\<close>.\<close>

definition encodeCursors :: "('e \<Rightarrow> json) \<Rightarrow> 'e list \<Rightarrow> jsstring" where
  "encodeCursors toJson cursors =
     JSON_stringify (JObject [(js ''cursors'', JArray (map toJson cursors))])"

text \<open>
  Reading a parsed value at the declared types.  A property of type \<^verbatim>\<open>string\<close> that
  may be absent is a string or not there; an object has no other members than those of
  its interface.  \<open>None\<close> is a value that is not of the type.
\<close>

definition optionalString :: "(jsstring \<times> json) list \<Rightarrow> jsstring \<Rightarrow> jsstring option option" where
  "optionalString members key =
     (case getProperty members key of
        None \<Rightarrow> Some None
      | Some (JString s) \<Rightarrow> Some (Some s)
      | Some _ \<Rightarrow> None)"

definition onlyKeys :: "jsstring list \<Rightarrow> (jsstring \<times> json) list \<Rightarrow> bool" where
  "onlyKeys keys members = list_all (\<lambda>(k, v). k \<in> set keys) members"

definition RepoInput_of_json :: "json \<Rightarrow> RepoInput option" where
  "RepoInput_of_json v =
     (case v of
        JObject members \<Rightarrow>
          if onlyKeys [js ''namespace'', js ''name'', js ''project''] members then
            (case (optionalString members (js ''namespace''), getProperty members (js ''name''),
                   optionalString members (js ''project'')) of
               (Some ns, Some (JString n), Some p) \<Rightarrow> Some \<lparr>namespace = ns, name = n, project = p\<rparr>
             | _ \<Rightarrow> None)
          else None
      | _ \<Rightarrow> None)"

definition PagedRepoInput_of_json :: "json \<Rightarrow> PagedRepoInput option" where
  "PagedRepoInput_of_json v =
     (case v of
        JObject members \<Rightarrow>
          if onlyKeys [js ''repo'', js ''cursor''] members then
            (case (getProperty members (js ''repo''), optionalString members (js ''cursor'')) of
               (Some rv, Some c) \<Rightarrow>
                 (case RepoInput_of_json rv of
                    None \<Rightarrow> None
                  | Some r \<Rightarrow> Some \<lparr>repo = r, repoCursor = c\<rparr>)
             | _ \<Rightarrow> None)
          else None
      | _ \<Rightarrow> None)"

definition PagedProjectInput_of_json :: "json \<Rightarrow> PagedProjectInput option" where
  "PagedProjectInput_of_json v =
     (case v of
        JObject members \<Rightarrow>
          if onlyKeys [js ''namespace'', js ''project'', js ''cursor''] members then
            (case (optionalString members (js ''namespace''), optionalString members (js ''project''),
                   optionalString members (js ''cursor'')) of
               (Some ns, Some p, Some c) \<Rightarrow>
                 Some \<lparr>projectNamespace = ns, projectProject = p, projectCursor = c\<rparr>
             | _ \<Rightarrow> None)
          else None
      | _ \<Rightarrow> None)"

text \<open>
  Lines 134-135, 254-255 and 334-335:
  \<^verbatim>\<open>const cursorInfo = JSON.parse(options?.cursor ?? '{}');\<close>
  \<^verbatim>\<open>const cursors = cursorInfo.cursors ?? [];\<close>
  \<^verbatim>\<open>JSON.parse\<close> throws a SyntaxError on a text that is not JSON, and reading
  \<^verbatim>\<open>.cursors\<close> of \<^verbatim>\<open>null\<close> throws a TypeError; every other value that is not an
  object with that property has \<^verbatim>\<open>cursors\<close> undefined.
\<close>

datatype 'e decoded = DecodeThrows exn | Cursors "'e list" | IllTyped

definition decodeCursors :: "(json \<Rightarrow> 'e option) \<Rightarrow> jsstring option \<Rightarrow> 'e decoded" where
  "decodeCursors ofJson cursor =
     (case JSON_parse (case cursor of None \<Rightarrow> js ''{}'' | Some c \<Rightarrow> c) of
        Inl ex \<Rightarrow> DecodeThrows ex
      | Inr cursorInfo \<Rightarrow>
          (case cursorInfo of
             JNull \<Rightarrow> DecodeThrows TypeError
           | JObject members \<Rightarrow>
               (case getProperty members (js ''cursors'') of
                  None \<Rightarrow> Cursors []
                | Some JNull \<Rightarrow> Cursors []
                | Some (JArray entries) \<Rightarrow>
                    (case those (map ofJson entries) of
                       None \<Rightarrow> IllTyped
                     | Some cursors \<Rightarrow> Cursors cursors)
                | Some _ \<Rightarrow> IllTyped)
           | _ \<Rightarrow> Cursors []))"

section \<open>The service\<close>

subsection \<open>\<^verbatim>\<open>ensureSession\<close> (lines 26-37)\<close>

definition ensureSession ::
  "('p, 'i, 'r, 's) ProvidersApi \<Rightarrow> ProviderId \<Rightarrow> event list \<times> (exn + bool)" where
  "ensureSession api providerId =
     (let domain = (case api_getProviderDomain api providerId of None \<Rightarrow> [] | Some d \<Rightarrow> d);
          scopes = (case api_getScopesForProvider api providerId of None \<Rightarrow> [] | Some s \<Rightarrow> s)
      in ([GetSession providerId domain scopes],
          case auth_getSession api providerId domain scopes of
            Inl ex \<Rightarrow> Inl ex
          | Inr session \<Rightarrow> Inr (session \<noteq> None)))"

subsection \<open>The fan-out (lines 141-169, 265-301 and 341-369)\<close>

text \<open>
  \<^verbatim>\<open>await Promise.all(inputs.map(async input => { const results = await call(input); ... }))\<close>
  inside \<^verbatim>\<open>try\<close>.  \<^verbatim>\<open>map\<close> starts the callbacks one after the other, so the calls
  are made in the order of \<open>inputs\<close>.  The rest of a callback runs when its call has
  settled: the callbacks continue in the order of the completion times, and two calls
  that settle together continue in the order in which they were made.  A callback whose
  call was rejected rejects \<^verbatim>\<open>Promise.all\<close>; the \<^verbatim>\<open>catch\<close> logs the exception and
  the operation returns \<^verbatim>\<open>undefined\<close>.  Otherwise every callback has appended its
  values to \<^verbatim>\<open>data\<close> and, if its page has \<^verbatim>\<open>paging?.more\<close>, its entry to
  \<^verbatim>\<open>cursor.cursors\<close>.
\<close>

definition completionOrder :: "(nat \<times> 'x) list \<Rightarrow> 'x list" where
  "completionOrder settled = map snd (sort_key fst settled)"

text \<open>\<^verbatim>\<open>results.paging?.more\<close> and \<^verbatim>\<open>results.paging.cursor\<close>.\<close>

definition pageMore :: "'a PagedResult \<Rightarrow> bool" where
  "pageMore results = (case paging results of None \<Rightarrow> False | Some p \<Rightarrow> paging_more p)"

definition pageCursor :: "'a PagedResult \<Rightarrow> jsstring option" where
  "pageCursor results = (case paging results of None \<Rightarrow> None | Some p \<Rightarrow> paging_cursor p)"

fun continueCallbacks ::
  "('e \<Rightarrow> jsstring option \<Rightarrow> 'e) \<Rightarrow> ('e \<times> (exn + 'a PagedResult)) list
   \<Rightarrow> 'a list \<times> bool \<times> 'e list \<Rightarrow> exn + ('a list \<times> bool \<times> 'e list)" where
  "continueCallbacks entry [] state = Inr state"
| "continueCallbacks entry ((input, Inl ex) # rest) state = Inl ex"
| "continueCallbacks entry ((input, Inr results) # rest) (data, hasMore, cursors) =
     continueCallbacks entry rest
       (if pageMore results
        then (data @ page_values results, True, cursors @ [entry input (pageCursor results)])
        else (data @ page_values results, hasMore, cursors))"

definition settled ::
  "('e \<Rightarrow> nat \<times> (exn + 'a PagedResult)) \<Rightarrow> 'e list \<Rightarrow> ('e \<times> (exn + 'a PagedResult)) list" where
  "settled call inputs =
     completionOrder (map (\<lambda>input. (fst (call input), (input, snd (call input)))) inputs)"

definition fanOut ::
  "('e \<Rightarrow> event) \<Rightarrow> ('e \<Rightarrow> nat \<times> (exn + 'a PagedResult)) \<Rightarrow> ('e \<Rightarrow> jsstring option \<Rightarrow> 'e)
   \<Rightarrow> ('e \<Rightarrow> json) \<Rightarrow> 'e list \<Rightarrow> event list \<times> 'a PagedResult outcome" where
  "fanOut call_event call entry toJson inputs =
     (map call_event inputs,
      case continueCallbacks entry (settled call inputs) ([], False, []) of
        Inl ex \<Rightarrow> NoResult (QueryFailed ex)
      | Inr (data, hasMore, cursors) \<Rightarrow>
          Result \<lparr>page_values = data,
                  paging = Some \<lparr>paging_cursor = Some (encodeCursors toJson cursors),
                                 paging_more = hasMore\<rparr>\<rparr>)"

subsection \<open>Input validation (lines 48-56 and 192-200)\<close>

definition unsupportedInput :: "ProviderId \<Rightarrow> ProviderReposInput \<Rightarrow> bool" where
  "unsupportedInput providerId reposOrRepoIds =
     (providerId \<noteq> GitLab \<and>
      (isRepoIdsInput reposOrRepoIds \<or>
       (providerId = AzureDevOps \<and>
        \<not> list_all (\<lambda>r. project r \<noteq> None \<and> namespace r \<noteq> None) (reposOf reposOrRepoIds))))"

subsection \<open>Identity filters of \<^verbatim>\<open>getPullRequestsForRepos\<close> (lines 58-128)\<close>

text \<open>The result is the calls made and either the reason for returning
  \<^verbatim>\<open>undefined\<close> or \<^verbatim>\<open>getPullRequestsOptions\<close>, which stays undefined without
  filters.\<close>

definition currentUser ::
  "event \<Rightarrow> exn + ProviderAccount option \<Rightarrow> event list \<times> (failure + ProviderAccount)" where
  "currentUser call answer =
     ([call],
      case answer of
        Inl ex \<Rightarrow> Inl (CurrentUserFailed ex)
      | Inr None \<Rightarrow> Inl NoCurrentUser
      | Inr (Some userAccount) \<Rightarrow> Inr userAccount)"

text \<open>Lines 120-127.\<close>

definition pullRequestsOptions :: "PullRequestFilter list \<Rightarrow> jsstring \<Rightarrow> QueryOptions" where
  "pullRequestsOptions fs userFilterProperty =
     \<lparr>authorLogin = (if PRAuthor \<in> set fs then Some userFilterProperty else None),
      assigneeLogins = (if PRAssignee \<in> set fs then Some [userFilterProperty] else None),
      reviewRequestedLogin = (if PRReviewRequested \<in> set fs then Some userFilterProperty else None),
      mentionLogin = (if PRMention \<in> set fs then Some userFilterProperty else None),
      queryCursor = None\<rparr>"

definition getPullRequestsOptions ::
  "('p, 'i, 'r, 's) ProvidersApi \<Rightarrow> ProviderId \<Rightarrow> ProviderReposInput
   \<Rightarrow> PullRequestFilter list option \<Rightarrow> event list \<times> (failure + QueryOptions option)" where
  "getPullRequestsOptions api providerId reposOrRepoIds filters =
     (case filters of
        None \<Rightarrow> ([], Inr None)
      | Some fs \<Rightarrow>
          if \<not> providerSupportsPullRequestFilters api providerId fs
          then ([], Inl UnsupportedFilters)
          else
            (case (if providerId = AzureDevOps then
                     (case setOf (namespacesOf reposOrRepoIds) of
                        [] \<Rightarrow> ([], Inl NoOrganizations)
                      | [organization] \<Rightarrow>
                          currentUser (GetCurrentUserForInstance providerId organization)
                            (api_getCurrentUserForInstance api providerId organization)
                      | _ \<Rightarrow> ([], Inl MultipleOrganizations))
                   else currentUser (GetCurrentUser providerId) (api_getCurrentUser api providerId)) of
               (calls, Inl reason) \<Rightarrow> (calls, Inl reason)
             | (calls, Inr userAccount) \<Rightarrow>
                 (case (if providerId = Bitbucket \<or> providerId = AzureDevOps
                        then account_id userAccount else username userAccount) of
                    None \<Rightarrow> (calls, Inl NoUserProperty)
                  | Some userFilterProperty \<Rightarrow>
                      (calls, Inr (Some (pullRequestsOptions fs userFilterProperty))))))"

subsection \<open>\<^verbatim>\<open>getPullRequestsForRepos\<close> (lines 39-181)\<close>

definition pagedRepoInputs :: "PagedRepoInput list \<Rightarrow> ProviderReposInput \<Rightarrow> PagedRepoInput list" where
  "pagedRepoInputs cursors reposOrRepoIds =
     (if length cursors > 0 then cursors
      else map (\<lambda>r. \<lparr>repo = r, repoCursor = None\<rparr>) (reposOf reposOrRepoIds))"

definition repoEntry :: "PagedRepoInput \<Rightarrow> jsstring option \<Rightarrow> PagedRepoInput" where
  "repoEntry repoInput c = \<lparr>repo = repo repoInput, repoCursor = c\<rparr>"

text \<open>The call of one callback (lines 147-150), and its record.\<close>

definition pullRequestsForRepoCall ::
  "('p, 'i, 'r, 's) ProvidersApi \<Rightarrow> ProviderId \<Rightarrow> QueryOptions option \<Rightarrow> PagedRepoInput
   \<Rightarrow> nat \<times> (exn + 'p PagedResult)" where
  "pullRequestsForRepoCall api providerId options repoInput =
     api_getPullRequestsForRepo api providerId (repo repoInput)
       (withCursor options (repoCursor repoInput))"

definition pullRequestsForRepoEvent ::
  "ProviderId \<Rightarrow> QueryOptions option \<Rightarrow> PagedRepoInput \<Rightarrow> event" where
  "pullRequestsForRepoEvent providerId options repoInput =
     GetPullRequestsForRepo providerId (repo repoInput) (withCursor options (repoCursor repoInput))"

definition getPullRequestsForRepos ::
  "('p, 'i, 'r, 's) ProvidersApi \<Rightarrow> ProviderId \<Rightarrow> ProviderReposInput
   \<Rightarrow> PullRequestFilter list option \<Rightarrow> jsstring option \<Rightarrow> event list \<times> 'p PagedResult outcome" where
  "getPullRequestsForRepos api providerId reposOrRepoIds filters cursor =
     (case ensureSession api providerId of
        (t0, Inl ex) \<Rightarrow> (t0, Raised ex)
      | (t0, Inr False) \<Rightarrow> (t0, NoResult SessionUnavailable)
      | (t0, Inr True) \<Rightarrow>
          if unsupportedInput providerId reposOrRepoIds then (t0, NoResult UnsupportedInput)
          else
            (case getPullRequestsOptions api providerId reposOrRepoIds filters of
               (t1, Inl reason) \<Rightarrow> (t0 @ t1, NoResult reason)
             | (t1, Inr options) \<Rightarrow>
                 if api_getProviderPullRequestsPagingMode api providerId = Some Repo
                    \<and> \<not> isRepoIdsInput reposOrRepoIds
                 then
                   (case decodeCursors PagedRepoInput_of_json cursor of
                      DecodeThrows ex \<Rightarrow> (t0 @ t1, Raised ex)
                    | IllTyped \<Rightarrow> (t0 @ t1, IllTypedCursor)
                    | Cursors cursors \<Rightarrow>
                        (case fanOut (pullRequestsForRepoEvent providerId options)
                                (pullRequestsForRepoCall api providerId options)
                                repoEntry PagedRepoInput_json
                                (pagedRepoInputs cursors reposOrRepoIds) of
                           (t2, out) \<Rightarrow> (t0 @ t1 @ t2, out)))
                 else
                   (t0 @ t1 @ [GetPullRequestsForRepos providerId reposOrRepoIds (withCursor options cursor)],
                    case api_getPullRequestsForRepos api providerId reposOrRepoIds
                           (withCursor options cursor) of
                      Inl ex \<Rightarrow> NoResult (QueryFailed ex)
                    | Inr page \<Rightarrow> Result page)))"

subsection \<open>\<^verbatim>\<open>getIssuesForRepos\<close> (lines 183-381)\<close>

definition issuesOptions :: "IssueFilter list \<Rightarrow> jsstring \<Rightarrow> QueryOptions" where
  "issuesOptions fs userFilterProperty =
     \<lparr>authorLogin = (if IssueAuthor \<in> set fs then Some userFilterProperty else None),
      assigneeLogins = (if IssueAssignee \<in> set fs then Some [userFilterProperty] else None),
      reviewRequestedLogin = None,
      mentionLogin = (if IssueMention \<in> set fs then Some userFilterProperty else None),
      queryCursor = None\<rparr>"

text \<open>Lines 221-252, for \<^verbatim>\<open>ProviderId.AzureDevOps\<close>.\<close>

definition getAzureIssuesOptions ::
  "('p, 'i, 'r, 's) ProvidersApi \<Rightarrow> ProviderId \<Rightarrow> jsstring option \<Rightarrow> IssueFilter list option
   \<Rightarrow> event list \<times> (failure + QueryOptions option)" where
  "getAzureIssuesOptions api providerId organization filters =
     (case filters of
        None \<Rightarrow> ([], Inr None)
      | Some fs \<Rightarrow>
          if \<not> providerSupportsIssueFilters api providerId fs then ([], Inl UnsupportedFilters)
          else
            (case currentUser (GetCurrentUserForInstance providerId organization)
                    (api_getCurrentUserForInstance api providerId organization) of
               (calls, Inl reason) \<Rightarrow> (calls, Inl reason)
             | (calls, Inr userAccount) \<Rightarrow>
                 (case account_name userAccount of
                    None \<Rightarrow> (calls, Inl NoUserProperty)
                  | Some userFilterProperty \<Rightarrow>
                      (calls, Inr (Some (issuesOptions fs userFilterProperty))))))"

text \<open>Lines 303-328, for the other providers.\<close>

definition getIssuesOptions ::
  "('p, 'i, 'r, 's) ProvidersApi \<Rightarrow> ProviderId \<Rightarrow> IssueFilter list option
   \<Rightarrow> event list \<times> (failure + QueryOptions option)" where
  "getIssuesOptions api providerId filters =
     (case filters of
        None \<Rightarrow> ([], Inr None)
      | Some fs \<Rightarrow>
          (case currentUser (GetCurrentUser providerId) (api_getCurrentUser api providerId) of
             (calls, Inl reason) \<Rightarrow> (calls, Inl reason)
           | (calls, Inr userAccount) \<Rightarrow>
               (case username userAccount of
                  None \<Rightarrow> (calls, Inl NoUserProperty)
                | Some userFilterProperty \<Rightarrow>
                    (calls, Inr (Some (issuesOptions fs userFilterProperty))))))"

definition pagedProjectInputs ::
  "PagedProjectInput list \<Rightarrow> jsstring option \<Rightarrow> jsstring option list \<Rightarrow> PagedProjectInput list" where
  "pagedProjectInputs cursors organization projects =
     (if length cursors > 0 then cursors
      else map (\<lambda>p. \<lparr>projectNamespace = organization, projectProject = p, projectCursor = None\<rparr>)
             projects)"

definition projectEntry :: "PagedProjectInput \<Rightarrow> jsstring option \<Rightarrow> PagedProjectInput" where
  "projectEntry projectInput c =
     \<lparr>projectNamespace = projectNamespace projectInput,
      projectProject = projectProject projectInput, projectCursor = c\<rparr>"

text \<open>The calls of the callbacks (lines 271-278 and 347-350), and their records.\<close>

definition issuesForAzureProjectCall ::
  "('p, 'i, 'r, 's) ProvidersApi \<Rightarrow> QueryOptions option \<Rightarrow> PagedProjectInput
   \<Rightarrow> nat \<times> (exn + 'i PagedResult)" where
  "issuesForAzureProjectCall api options projectInput =
     api_getIssuesForAzureProject api (projectNamespace projectInput) (projectProject projectInput)
       (withCursor options (projectCursor projectInput))"

definition issuesForAzureProjectEvent :: "QueryOptions option \<Rightarrow> PagedProjectInput \<Rightarrow> event" where
  "issuesForAzureProjectEvent options projectInput =
     GetIssuesForAzureProject (projectNamespace projectInput) (projectProject projectInput)
       (withCursor options (projectCursor projectInput))"

definition issuesForRepoCall ::
  "('p, 'i, 'r, 's) ProvidersApi \<Rightarrow> ProviderId \<Rightarrow> QueryOptions option \<Rightarrow> PagedRepoInput
   \<Rightarrow> nat \<times> (exn + 'i PagedResult)" where
  "issuesForRepoCall api providerId options repoInput =
     api_getIssuesForRepo api providerId (repo repoInput) (withCursor options (repoCursor repoInput))"

definition issuesForRepoEvent ::
  "ProviderId \<Rightarrow> QueryOptions option \<Rightarrow> PagedRepoInput \<Rightarrow> event" where
  "issuesForRepoEvent providerId options repoInput =
     GetIssuesForRepo providerId (repo repoInput) (withCursor options (repoCursor repoInput))"

definition getIssuesForRepos ::
  "('p, 'i, 'r, 's) ProvidersApi \<Rightarrow> ProviderId \<Rightarrow> ProviderReposInput
   \<Rightarrow> IssueFilter list option \<Rightarrow> jsstring option \<Rightarrow> event list \<times> 'i PagedResult outcome" where
  "getIssuesForRepos api providerId reposOrRepoIds filters cursor =
     (case ensureSession api providerId of
        (t0, Inl ex) \<Rightarrow> (t0, Raised ex)
      | (t0, Inr False) \<Rightarrow> (t0, NoResult SessionUnavailable)
      | (t0, Inr True) \<Rightarrow>
          if unsupportedInput providerId reposOrRepoIds then (t0, NoResult UnsupportedInput)
          else if providerId = AzureDevOps then
            (case setOf (namespacesOf reposOrRepoIds) of
               [] \<Rightarrow> (t0, NoResult NoOrganizations)
             | [organization] \<Rightarrow>
                 (case getAzureIssuesOptions api providerId organization filters of
                    (t1, Inl reason) \<Rightarrow> (t0 @ t1, NoResult reason)
                  | (t1, Inr options) \<Rightarrow>
                      (case decodeCursors PagedProjectInput_of_json cursor of
                         DecodeThrows ex \<Rightarrow> (t0 @ t1, Raised ex)
                       | IllTyped \<Rightarrow> (t0 @ t1, IllTypedCursor)
                       | Cursors cursors \<Rightarrow>
                           (case fanOut (issuesForAzureProjectEvent options)
                                   (issuesForAzureProjectCall api options)
                                   projectEntry PagedProjectInput_json
                                   (pagedProjectInputs cursors organization
                                      (setOf (projectsOf reposOrRepoIds))) of
                              (t2, out) \<Rightarrow> (t0 @ t1 @ t2, out))))
             | _ \<Rightarrow> (t0, NoResult MultipleOrganizations))
          else
            (case getIssuesOptions api providerId filters of
               (t1, Inl reason) \<Rightarrow> (t0 @ t1, NoResult reason)
             | (t1, Inr options) \<Rightarrow>
                 if api_getProviderIssuesPagingMode api providerId = Some Repo
                    \<and> \<not> isRepoIdsInput reposOrRepoIds
                 then
                   (case decodeCursors PagedRepoInput_of_json cursor of
                      DecodeThrows ex \<Rightarrow> (t0 @ t1, Raised ex)
                    | IllTyped \<Rightarrow> (t0 @ t1, IllTypedCursor)
                    | Cursors cursors \<Rightarrow>
                        (case fanOut (issuesForRepoEvent providerId options)
                                (issuesForRepoCall api providerId options)
                                repoEntry PagedRepoInput_json
                                (pagedRepoInputs cursors reposOrRepoIds) of
                           (t2, out) \<Rightarrow> (t0 @ t1 @ t2, out)))
                 else
                   (t0 @ t1 @ [GetIssuesForRepos providerId reposOrRepoIds (withCursor options cursor)],
                    case api_getIssuesForRepos api providerId reposOrRepoIds
                           (withCursor options cursor) of
                      Inl ex \<Rightarrow> NoResult (QueryFailed ex)
                    | Inr page \<Rightarrow> Result page)))"

subsection \<open>\<^verbatim>\<open>getReposForAzureProject\<close> (lines 383-395)\<close>

definition getReposForAzureProject ::
  "('p, 'i, 'r, 's) ProvidersApi \<Rightarrow> jsstring \<Rightarrow> jsstring \<Rightarrow> jsstring option
   \<Rightarrow> event list \<times> 'r PagedResult outcome" where
  "getReposForAzureProject api namespace_arg project_arg cursor =
     (case ensureSession api AzureDevOps of
        (t0, Inl ex) \<Rightarrow> (t0, Raised ex)
      | (t0, Inr False) \<Rightarrow> (t0, NoResult SessionUnavailable)
      | (t0, Inr True) \<Rightarrow>
          (t0 @ [GetReposForAzureProject namespace_arg project_arg cursor],
           case api_getReposForAzureProject api namespace_arg project_arg cursor of
             Inl ex \<Rightarrow> NoResult (QueryFailed ex)
           | Inr page \<Rightarrow> Result page))"


section \<open>Notions used in the statements\<close>

subsection \<open>JSON values that the cursor codec writes\<close>

text \<open>A value without numbers, and a bound on the nested calls that parsing its text
  takes.\<close>

fun plain :: "json \<Rightarrow> bool" where
  "plain (JNumber lexeme) = False"
| "plain (JArray vs) = list_all plain vs"
| "plain (JObject members) = list_all (\<lambda>(k, v). plain v) members"
| "plain v = True"

fun fuelFor :: "json \<Rightarrow> nat" where
  "fuelFor (JArray vs) = Suc (length vs + sum_list (map fuelFor vs))"
| "fuelFor (JObject members) = Suc (length members + sum_list (map (\<lambda>(k, v). fuelFor v) members))"
| "fuelFor v = 1"

definition memberText :: "jsstring \<times> json \<Rightarrow> jsstring" where
  "memberText m = QuoteJSONString (fst m) @ 0x3A # JSON_stringify (snd m)"

subsection \<open>The answers of the units\<close>

text \<open>What the call of a unit contributed: its values; whether its page reported
  \<^verbatim>\<open>more = true\<close>; and the cursor that its page returned.  The last two are read off
  the answer of the collaborator as the specification words them ("units whose
  \<^verbatim>\<open>more = true\<close>, paired with that unit's returned cursor"): a page without paging
  information reports nothing more and returns no cursor.\<close>

definition unitValues :: "exn + 'a PagedResult \<Rightarrow> 'a list" where
  "unitValues answer = (case answer of Inl ex \<Rightarrow> [] | Inr results \<Rightarrow> page_values results)"

definition reportedMore :: "exn + 'a PagedResult \<Rightarrow> bool" where
  "reportedMore answer =
     (case answer of
        Inl ex \<Rightarrow> False
      | Inr page \<Rightarrow> (case paging page of None \<Rightarrow> False | Some pg \<Rightarrow> paging_more pg))"

definition returnedCursor :: "exn + 'a PagedResult \<Rightarrow> jsstring option" where
  "returnedCursor answer =
     (case answer of
        Inl ex \<Rightarrow> None
      | Inr page \<Rightarrow> (case paging page of None \<Rightarrow> None | Some pg \<Rightarrow> paging_cursor pg))"

subsection \<open>Reading the record of calls\<close>

text \<open>The options of a paging query, and the answer to an identity call.\<close>

definition queryOptionsOf :: "event \<Rightarrow> QueryOptions option" where
  "queryOptionsOf ev =
     (case ev of
        GetPullRequestsForRepo p r opts \<Rightarrow> Some opts
      | GetPullRequestsForRepos p rs opts \<Rightarrow> Some opts
      | GetIssuesForRepo p r opts \<Rightarrow> Some opts
      | GetIssuesForAzureProject ns pr opts \<Rightarrow> Some opts
      | GetIssuesForRepos p rs opts \<Rightarrow> Some opts
      | _ \<Rightarrow> None)"

definition identityAnswer ::
  "('p, 'i, 'r, 's) ProvidersApi \<Rightarrow> event \<Rightarrow> (exn + ProviderAccount option) option" where
  "identityAnswer api ev =
     (case ev of
        GetCurrentUser p \<Rightarrow> Some (api_getCurrentUser api p)
      | GetCurrentUserForInstance p organization \<Rightarrow>
          Some (api_getCurrentUserForInstance api p organization)
      | _ \<Rightarrow> None)"

definition isIdentityCall :: "event \<Rightarrow> bool" where
  "isIdentityCall ev =
     (case ev of
        GetCurrentUser p \<Rightarrow> True
      | GetCurrentUserForInstance p organization \<Rightarrow> True
      | _ \<Rightarrow> False)"

subsection \<open>Reaching a fan-out\<close>

text \<open>
  The conditions under which an operation arrives at line 134, at line 254 and at line
  334: the session is there, the input is supported, the identity filters were
  translated into \<open>options\<close> (undefined without filters), and the paging is per unit.
\<close>

definition reachesPullRequestsFanOut ::
  "('p, 'i, 'r, 's) ProvidersApi \<Rightarrow> ProviderId \<Rightarrow> ProviderReposInput
   \<Rightarrow> PullRequestFilter list option \<Rightarrow> QueryOptions option \<Rightarrow> bool" where
  "reachesPullRequestsFanOut api providerId reposOrRepoIds filters options =
     (snd (ensureSession api providerId) = Inr True
      \<and> \<not> unsupportedInput providerId reposOrRepoIds
      \<and> snd (getPullRequestsOptions api providerId reposOrRepoIds filters) = Inr options
      \<and> api_getProviderPullRequestsPagingMode api providerId = Some Repo
      \<and> \<not> isRepoIdsInput reposOrRepoIds)"

definition reachesAzureIssuesFanOut ::
  "('p, 'i, 'r, 's) ProvidersApi \<Rightarrow> ProviderId \<Rightarrow> ProviderReposInput
   \<Rightarrow> IssueFilter list option \<Rightarrow> jsstring option \<Rightarrow> QueryOptions option \<Rightarrow> bool" where
  "reachesAzureIssuesFanOut api providerId reposOrRepoIds filters organization options =
     (snd (ensureSession api providerId) = Inr True
      \<and> \<not> unsupportedInput providerId reposOrRepoIds
      \<and> providerId = AzureDevOps
      \<and> setOf (namespacesOf reposOrRepoIds) = [organization]
      \<and> snd (getAzureIssuesOptions api providerId organization filters) = Inr options)"

definition reachesIssuesFanOut ::
  "('p, 'i, 'r, 's) ProvidersApi \<Rightarrow> ProviderId \<Rightarrow> ProviderReposInput
   \<Rightarrow> IssueFilter list option \<Rightarrow> QueryOptions option \<Rightarrow> bool" where
  "reachesIssuesFanOut api providerId reposOrRepoIds filters options =
     (snd (ensureSession api providerId) = Inr True
      \<and> \<not> unsupportedInput providerId reposOrRepoIds
      \<and> providerId \<noteq> AzureDevOps
      \<and> snd (getIssuesOptions api providerId filters) = Inr options
      \<and> api_getProviderIssuesPagingMode api providerId = Some Repo
      \<and> \<not> isRepoIdsInput reposOrRepoIds)"

subsection \<open>Examples\<close>

text \<open>
  Two repositories of two organizations, an account, and collaborators that answer every
  call: the call for \<open>R1\<close> settles at time 2 with two values and more to come, every
  other per-repository call at time 1 with one value and nothing more.  GitLab supports
  no mention filter for issues.  \<open>failingApi\<close> rejects every per-unit call that is not
  for \<open>R1\<close>.  \<open>resumeApi\<close> answers a per-unit query by the cursor that it is sent: for
  \<^verbatim>\<open>c1\<close> a page with more to come and the next cursor \<^verbatim>\<open>n1\<close>, for \<^verbatim>\<open>c2\<close> a page
  with more to come and no cursor, without a cursor a last page that still names a
  cursor, and for any other cursor a rejection.
\<close>

definition github :: ProviderId where
  "github = OtherProvider (js ''github'')"

definition R1 :: RepoInput where
  "R1 = \<lparr>namespace = Some (js ''org-a''), name = js ''r1'', project = Some (js ''p1'')\<rparr>"

definition R2 :: RepoInput where
  "R2 = \<lparr>namespace = Some (js ''org-b''), name = js ''r2'', project = Some (js ''p2'')\<rparr>"

definition alice :: ProviderAccount where
  "alice = \<lparr>account_id = Some (js ''42''), account_name = Some (js ''Alice A''),
            username = Some (js ''alice'')\<rparr>"

definition page1 :: "nat PagedResult" where
  "page1 = \<lparr>page_values = [1, 2],
            paging = Some \<lparr>paging_cursor = Some (js ''c1''), paging_more = True\<rparr>\<rparr>"

definition page2 :: "nat PagedResult" where
  "page2 = \<lparr>page_values = [3], paging = Some \<lparr>paging_cursor = None, paging_more = False\<rparr>\<rparr>"

definition exampleApi :: "(nat, nat, nat, unit) ProvidersApi" where
  "exampleApi =
     \<lparr>auth_getSession = (\<lambda>p d s. Inr (Some ())),
      api_getProviderDomain = (\<lambda>p. None),
      api_getScopesForProvider = (\<lambda>p. None),
      api_supportedPullRequestFilters = (\<lambda>p. [PRAuthor, PRAssignee, PRReviewRequested, PRMention]),
      api_supportedIssueFilters =
        (\<lambda>p. if p = GitLab then [IssueAuthor, IssueAssignee]
             else [IssueAuthor, IssueAssignee, IssueMention]),
      api_getProviderPullRequestsPagingMode = (\<lambda>p. Some Repo),
      api_getProviderIssuesPagingMode = (\<lambda>p. Some Repo),
      api_getCurrentUser = (\<lambda>p. Inr (Some alice)),
      api_getCurrentUserForInstance = (\<lambda>p organization. Inr (Some alice)),
      api_getPullRequestsForRepo = (\<lambda>p r opts. if r = R1 then (2, Inr page1) else (1, Inr page2)),
      api_getPullRequestsForRepos = (\<lambda>p rs opts. Inr page2),
      api_getIssuesForRepo = (\<lambda>p r opts. if r = R1 then (2, Inr page1) else (1, Inr page2)),
      api_getIssuesForAzureProject = (\<lambda>ns pr opts. (1, Inr page1)),
      api_getIssuesForRepos = (\<lambda>p rs opts. Inr page2),
      api_getReposForAzureProject = (\<lambda>ns pr c. Inr page2)\<rparr>"

definition failingApi :: "(nat, nat, nat, unit) ProvidersApi" where
  "failingApi =
     exampleApi
       \<lparr>api_getPullRequestsForRepo :=
          (\<lambda>p r opts. if r = R1 then (2, Inr page1) else (1, Inl (Rejected (js ''timeout'')))),
        api_getIssuesForRepo :=
          (\<lambda>p r opts. if r = R1 then (2, Inr page1) else (1, Inl (Rejected (js ''timeout'')))),
        api_getIssuesForAzureProject := (\<lambda>ns pr opts. (1, Inl (Rejected (js ''timeout''))))\<rparr>"

definition R3 :: RepoInput where
  "R3 = \<lparr>namespace = Some (js ''org-a''), name = js ''r3'', project = Some (js ''p3'')\<rparr>"

definition pageA :: "nat PagedResult" where
  "pageA = \<lparr>page_values = [4],
            paging = Some \<lparr>paging_cursor = Some (js ''n1''), paging_more = True\<rparr>\<rparr>"

definition pageB :: "nat PagedResult" where
  "pageB = \<lparr>page_values = [5], paging = Some \<lparr>paging_cursor = None, paging_more = True\<rparr>\<rparr>"

definition pageC :: "nat PagedResult" where
  "pageC = \<lparr>page_values = [6],
            paging = Some \<lparr>paging_cursor = Some (js ''x''), paging_more = False\<rparr>\<rparr>"

definition resumedAnswer :: "QueryOptions \<Rightarrow> nat \<times> (exn + nat PagedResult)" where
  "resumedAnswer opts =
     (if queryCursor opts = Some (js ''c1'') then (1, Inr pageA)
      else if queryCursor opts = Some (js ''c2'') then (1, Inr pageB)
      else if queryCursor opts = None then (1, Inr pageC)
      else (1, Inl (Rejected (js ''unknown cursor''))))"

definition resumeApi :: "(nat, nat, nat, unit) ProvidersApi" where
  "resumeApi =
     exampleApi
       \<lparr>api_getPullRequestsForRepo := (\<lambda>p r opts. resumedAnswer opts),
        api_getIssuesForRepo := (\<lambda>p r opts. resumedAnswer opts),
        api_getIssuesForAzureProject := (\<lambda>ns pr opts. resumedAnswer opts)\<rparr>"


section \<open>The JSON codec reads back what it writes\<close>

subsection \<open>String literals\<close>

lemma unat_jschar_less: "unat (c::jschar) < 65536"
  using unsigned_less [of c] by simp

lemma hex_recompose:
  assumes "(n::nat) < 65536"
  shows "n div 4096 mod 16 * 4096 + n div 256 mod 16 * 256 + n div 16 mod 16 * 16 + n mod 16 = n"
proof -
  define a where "a = n div 16"
  define b where "b = a div 16"
  define c where "c = b div 16"
  have a: "n = a * 16 + n mod 16" by (simp add: a_def)
  have b: "a = b * 16 + a mod 16" by (simp add: b_def)
  have c: "b = c * 16 + b mod 16" by (simp add: c_def)
  have "c < 16" using assms by (simp add: a_def b_def c_def div_mult2_eq [symmetric])
  then have c16: "c mod 16 = c" by simp
  have e1: "n div 256 = b" by (simp add: a_def b_def div_mult2_eq [symmetric])
  have e2: "n div 4096 = c" by (simp add: a_def b_def c_def div_mult2_eq [symmetric])
  have "c * 4096 + b mod 16 * 256 + a mod 16 * 16 + n mod 16 = n"
    using a b c by linarith
  then show ?thesis by (simp add: e1 e2 c16 a_def)
qed

lemma unat_hexDigit: "d < 16 \<Longrightarrow> unat (hexDigit d) = (if d < 10 then 48 + d else 87 + d)"
  by (simp add: hexDigit_def unat_of_nat take_bit_eq_mod del: of_nat_add)

lemma hexValue_hexDigit: "d < 16 \<Longrightarrow> hexValue (hexDigit d) = Some d"
  by (simp add: hexValue_def word_le_nat_alt unat_hexDigit)

lemma unhex4_hexDigits:
  "unhex4 (hexDigit (unat c div 4096 mod 16)) (hexDigit (unat c div 256 mod 16))
     (hexDigit (unat c div 16 mod 16)) (hexDigit (unat c mod 16)) = Some c"
  by (simp add: unhex4_def hexValue_hexDigit hex_recompose [OF unat_jschar_less])

lemma parseChars_unicodeEscape:
  "parseChars (unicodeEscape c @ tail) acc = parseChars tail (acc @ [c])"
  by (simp add: unicodeEscape_def Let_def unhex4_hexDigits)

lemma parseChars_plain:
  "c \<noteq> 0x22 \<Longrightarrow> c \<noteq> 0x5C \<Longrightarrow> \<not> c < 0x20 \<Longrightarrow>
   parseChars (c # tail) acc = parseChars tail (acc @ [c])"
  by simp

lemma parseChars_quoteUnit:
  "parseChars (quoteUnit c @ tail) acc = parseChars tail (acc @ [c])"
proof -
  consider "c = 0x08" | "c = 0x09" | "c = 0x0A" | "c = 0x0C" | "c = 0x0D" | "c = 0x22" | "c = 0x5C"
    | "c \<notin> {0x08, 0x09, 0x0A, 0x0C, 0x0D, 0x22, 0x5C}"
        "c < 0x20 \<or> isHighSurrogate c \<or> isLowSurrogate c"
    | "c \<notin> {0x08, 0x09, 0x0A, 0x0C, 0x0D, 0x22, 0x5C}"
        "\<not> (c < 0x20 \<or> isHighSurrogate c \<or> isLowSurrogate c)"
    by blast
  then show ?thesis
  proof cases
    case 8
    then have "quoteUnit c = unicodeEscape c" by (simp add: quoteUnit_def)
    then show ?thesis by (simp add: parseChars_unicodeEscape)
  next
    case 9
    then have "quoteUnit c = [c]" by (simp add: quoteUnit_def)
    with 9 show ?thesis by simp
  qed (simp_all add: quoteUnit_def simpleEscape_def)
qed

lemma surrogate_plain:
  "isHighSurrogate c \<or> isLowSurrogate c \<Longrightarrow> c \<noteq> 0x22 \<and> c \<noteq> 0x5C \<and> \<not> c < 0x20"
  by (auto simp: isHighSurrogate_def isLowSurrogate_def word_le_nat_alt word_less_nat_alt)

lemma parseChars_quoteUnits:
  "parseChars (quoteUnits s @ 0x22 # rest) acc = Some (acc @ s, rest)"
proof (induction s arbitrary: acc rule: quoteUnits.induct)
  case 1
  show ?case by simp
next
  case (2 c)
  show ?case using parseChars_quoteUnit [of c "0x22 # rest" acc] by simp
next
  case (3 c d cs)
  show ?case
  proof (cases "isHighSurrogate c \<and> isLowSurrogate d")
    case True
    then have c: "c \<noteq> 0x22 \<and> c \<noteq> 0x5C \<and> \<not> c < 0x20"
      and d: "d \<noteq> 0x22 \<and> d \<noteq> 0x5C \<and> \<not> d < 0x20"
      using surrogate_plain [of c] surrogate_plain [of d] by blast+
    have "parseChars (c # d # quoteUnits cs @ 0x22 # rest) acc
            = parseChars (d # quoteUnits cs @ 0x22 # rest) (acc @ [c])"
      using c by (intro parseChars_plain) simp_all
    also have "\<dots> = parseChars (quoteUnits cs @ 0x22 # rest) ((acc @ [c]) @ [d])"
      using d by (intro parseChars_plain) simp_all
    also have "\<dots> = Some (((acc @ [c]) @ [d]) @ cs, rest)"
      using True 3 by blast
    finally show ?thesis using True by simp
  next
    case False
    then have "quoteUnits (c # d # cs) @ 0x22 # rest
                 = quoteUnit c @ (quoteUnits (d # cs) @ 0x22 # rest)"
      by auto
    then have "parseChars (quoteUnits (c # d # cs) @ 0x22 # rest) acc
                 = parseChars (quoteUnits (d # cs) @ 0x22 # rest) (acc @ [c])"
      by (simp only: parseChars_quoteUnit)
    also have "\<dots> = Some ((acc @ [c]) @ d # cs, rest)"
      using False 3 by blast
    finally show ?thesis by simp
  qed
qed

subsection \<open>Values\<close>

lemma parseValue_array:
  "parseValue (Suc n) (0x5B # r) =
     (case skipWhitespace r of [] \<Rightarrow> None
      | d # r' \<Rightarrow> if d = 0x5D then Some (JArray [], r') else parseElements n (d # r') [])"
  by (simp add: isWhitespace_def)

lemma parseValue_object:
  "parseValue (Suc n) (0x7B # r) =
     (case skipWhitespace r of [] \<Rightarrow> None
      | d # r' \<Rightarrow> if d = 0x7D then Some (JObject [], r') else parseMembers n (d # r') [])"
  by (simp add: isWhitespace_def)

lemma parseValue_string:
  "parseValue (Suc n) (0x22 # r) =
     (case parseChars r [] of None \<Rightarrow> None | Some (s, r') \<Rightarrow> Some (JString s, r'))"
  by (simp add: isWhitespace_def)

lemma parseValue_literals:
  "parseValue (Suc n) (js ''null'' @ rest) = Some (JNull, rest)"
  "parseValue (Suc n) (js ''true'' @ rest) = Some (JBool True, rest)"
  "parseValue (Suc n) (js ''false'' @ rest) = Some (JBool False, rest)"
  by (simp_all add: js_def isWhitespace_def)

lemma JSON_stringify_head:
  "plain v \<Longrightarrow> \<exists>c cs. JSON_stringify v = c # cs \<and> \<not> isWhitespace c \<and> c \<noteq> 0x5D \<and> c \<noteq> 0x7D"
  by (cases v) (auto simp: js_def isWhitespace_def QuoteJSONString_def)

lemma parseElements_roundtrip:
  assumes "vs \<noteq> []"
    and "\<And>v n rest. v \<in> set vs \<Longrightarrow> fuelFor v \<le> n \<Longrightarrow>
           parseValue n (JSON_stringify v @ rest) = Some (v, rest)"
    and "length vs + sum_list (map fuelFor vs) \<le> n"
  shows "parseElements n (commaSeparated (map JSON_stringify vs) @ 0x5D # rest) acc
           = Some (JArray (acc @ vs), rest)"
  using assms
proof (induction vs arbitrary: n acc rule: list_nonempty_induct)
  case (single v)
  then obtain m where n: "n = Suc m" and m: "fuelFor v \<le> m"
    by (cases n) auto
  have "parseValue m (JSON_stringify v @ 0x5D # rest) = Some (v, 0x5D # rest)"
    using single.prems(1) m by simp
  then show ?case
    by (simp add: n isWhitespace_def)
next
  case (cons v vs)
  then obtain w ws where vs: "vs = w # ws" by (cases vs) auto
  from cons.prems(2) obtain m where n: "n = Suc m" and m: "fuelFor v \<le> m"
    and m': "length vs + sum_list (map fuelFor vs) \<le> m"
    by (cases n) auto
  let ?tail = "commaSeparated (map JSON_stringify vs) @ 0x5D # rest"
  have shape: "commaSeparated (map JSON_stringify (v # vs)) @ 0x5D # rest
                = JSON_stringify v @ 0x2C # ?tail"
    by (simp add: vs)
  have "parseValue m (JSON_stringify v @ 0x2C # ?tail) = Some (v, 0x2C # ?tail)"
    using cons.prems(1) m by simp
  moreover have "parseElements m ?tail (acc @ [v]) = Some (JArray ((acc @ [v]) @ vs), rest)"
    using cons.prems(1) m' by (intro cons.IH) auto
  ultimately show ?case
    unfolding shape n
    by (simp add: isWhitespace_def del: JSON_stringify.simps commaSeparated.simps)
qed

lemma parseMembers_step:
  assumes "parseValue m (JSON_stringify v @ e # tail) = Some (v, e # tail)"
    and "\<not> isWhitespace e"
  shows "parseMembers (Suc m) (memberText (k, v) @ e # tail) acc =
           (if e = 0x2C then parseMembers m tail (acc @ [(k, v)])
            else if e = 0x7D then Some (JObject (acc @ [(k, v)]), tail)
            else None)"
proof -
  have "memberText (k, v) @ e # tail
          = 0x22 # quoteUnits k @ 0x22 # (0x3A # JSON_stringify v @ e # tail)"
    by (simp add: memberText_def QuoteJSONString_def)
  moreover have "parseChars (quoteUnits k @ 0x22 # (0x3A # JSON_stringify v @ e # tail)) []
                   = Some (k, 0x3A # JSON_stringify v @ e # tail)"
    using parseChars_quoteUnits [of k _ "[]"] by simp
  ultimately show ?thesis
    using assms by (simp add: isWhitespace_def del: JSON_stringify.simps)
qed

lemma parseMembers_roundtrip:
  assumes "ms \<noteq> []"
    and "\<And>k v n rest. (k, v) \<in> set ms \<Longrightarrow> fuelFor v \<le> n \<Longrightarrow>
           parseValue n (JSON_stringify v @ rest) = Some (v, rest)"
    and "length ms + sum_list (map (\<lambda>(k, v). fuelFor v) ms) \<le> n"
  shows "parseMembers n (commaSeparated (map memberText ms) @ 0x7D # rest) acc
           = Some (JObject (acc @ ms), rest)"
  using assms
proof (induction ms arbitrary: n acc rule: list_nonempty_induct)
  case (single kv)
  obtain k v where kv: "kv = (k, v)" by (cases kv)
  from single.prems(2) obtain m where n: "n = Suc m" and m: "fuelFor v \<le> m"
    by (cases n) (auto simp: kv)
  have "parseValue m (JSON_stringify v @ 0x7D # rest) = Some (v, 0x7D # rest)"
    using single.prems(1) [of k v] m by (simp add: kv)
  then show ?case
    using parseMembers_step [of m v "0x7D" rest k acc]
    by (simp add: n kv isWhitespace_def del: parseMembers.simps JSON_stringify.simps)
next
  case (cons kv ms)
  obtain k v where kv: "kv = (k, v)" by (cases kv)
  from cons obtain w ws where ms: "ms = w # ws" by (cases ms) auto
  from cons.prems(2) obtain m where n: "n = Suc m" and m: "fuelFor v \<le> m"
    and m': "length ms + sum_list (map (\<lambda>(k, v). fuelFor v) ms) \<le> m"
    by (cases n) (auto simp: kv)
  let ?tail = "commaSeparated (map memberText ms) @ 0x7D # rest"
  have shape: "commaSeparated (map memberText (kv # ms)) @ 0x7D # rest
                = memberText (k, v) @ 0x2C # ?tail"
    by (simp add: ms kv)
  have "parseValue m (JSON_stringify v @ 0x2C # ?tail) = Some (v, 0x2C # ?tail)"
    using cons.prems(1) [of k v] m by (simp add: kv)
  moreover have "parseMembers m ?tail (acc @ [(k, v)]) = Some (JObject ((acc @ [(k, v)]) @ ms), rest)"
    using cons.prems(1) m' by (intro cons.IH) auto
  ultimately show ?case
    using parseMembers_step [of m v "0x2C" ?tail k acc]
    unfolding shape n
    by (simp add: kv isWhitespace_def del: parseMembers.simps JSON_stringify.simps commaSeparated.simps)
qed

lemma commaSeparated_head:
  "xs \<noteq> [] \<Longrightarrow> hd xs = c # cs \<Longrightarrow> \<exists>t. commaSeparated xs = c # t"
  by (cases xs rule: commaSeparated.cases) auto

lemma JSON_stringify_object:
  "JSON_stringify (JObject ms) = 0x7B # commaSeparated (map memberText ms) @ [0x7D]"
proof -
  have "(\<lambda>(k, v). QuoteJSONString k @ 0x3A # JSON_stringify v) = memberText"
    by (auto simp: memberText_def fun_eq_iff)
  then show ?thesis by simp
qed

lemma parseValue_roundtrip:
  "plain v \<Longrightarrow> fuelFor v \<le> n \<Longrightarrow> parseValue n (JSON_stringify v @ rest) = Some (v, rest)"
proof (induction v arbitrary: n rest)
  case JNull
  then show ?case by (cases n) (simp_all add: parseValue_literals del: parseValue.simps)
next
  case (JBool b)
  then show ?case by (cases n; cases b) (simp_all add: parseValue_literals del: parseValue.simps)
next
  case (JNumber l)
  then show ?case by simp
next
  case (JString s)
  then obtain m where n: "n = Suc m" by (cases n) auto
  show ?case
    using parseChars_quoteUnits [of s rest "[]"]
    by (simp add: n parseValue_string QuoteJSONString_def del: parseValue.simps)
next
  case (JArray vs)
  then obtain m where n: "n = Suc m" and m: "length vs + sum_list (map fuelFor vs) \<le> m"
    by (cases n) auto
  show ?case
  proof (cases vs)
    case Nil
    then show ?thesis by (simp add: n parseValue_array isWhitespace_def del: parseValue.simps)
  next
    case (Cons w ws)
    let ?body = "commaSeparated (map JSON_stringify vs) @ 0x5D # rest"
    from JArray.prems Cons have "plain w" by simp
    then obtain c cs where c: "JSON_stringify w = c # cs" "\<not> isWhitespace c" "c \<noteq> 0x5D"
      using JSON_stringify_head by blast
    then obtain t where t: "commaSeparated (map JSON_stringify vs) = c # t"
      using commaSeparated_head [of "map JSON_stringify vs" c cs] Cons by auto
    have "parseElements m ?body [] = Some (JArray ([] @ vs), rest)"
    proof (rule parseElements_roundtrip)
      show "vs \<noteq> []" using Cons by simp
      show "length vs + sum_list (map fuelFor vs) \<le> m" by (rule m)
      fix v k r assume "v \<in> set vs" "fuelFor v \<le> k"
      moreover from this JArray.prems have "plain v" by (simp add: list_all_iff)
      ultimately show "parseValue k (JSON_stringify v @ r) = Some (v, r)"
        using JArray.IH by blast
    qed
    then show ?thesis
      using c by (simp add: n parseValue_array t del: parseValue.simps parseElements.simps)
  qed
next
  case (JObject ms)
  then obtain m where n: "n = Suc m"
    and m: "length ms + sum_list (map (\<lambda>(k, v). fuelFor v) ms) \<le> m"
    by (cases n) auto
  show ?case
  proof (cases ms)
    case Nil
    then show ?thesis by (simp add: n parseValue_object isWhitespace_def del: parseValue.simps)
  next
    case (Cons w ws)
    let ?body = "commaSeparated (map memberText ms) @ 0x7D # rest"
    obtain cs where "memberText w = 0x22 # cs"
      by (simp add: memberText_def QuoteJSONString_def)
    then obtain t where t: "commaSeparated (map memberText ms) = 0x22 # t"
      using commaSeparated_head [of "map memberText ms" "0x22" cs] Cons by auto
    have "parseMembers m ?body [] = Some (JObject ([] @ ms), rest)"
    proof (rule parseMembers_roundtrip)
      show "ms \<noteq> []" using Cons by simp
      show "length ms + sum_list (map (\<lambda>(k, v). fuelFor v) ms) \<le> m" by (rule m)
      fix k v j r assume kv: "(k, v) \<in> set ms" and "fuelFor v \<le> j"
      moreover from kv JObject.prems have "plain v" by (auto simp: list_all_iff)
      moreover have "v \<in> Basic_BNFs.snds (k, v)" by simp
      ultimately show "parseValue j (JSON_stringify v @ r) = Some (v, r)"
        using JObject.IH by blast
    qed
    then show ?thesis
      by (simp add: n JSON_stringify_object parseValue_object t isWhitespace_def
               del: parseValue.simps parseMembers.simps JSON_stringify.simps)
  qed
qed

lemma commaSeparated_length:
  "xs \<noteq> [] \<Longrightarrow> Suc (length (commaSeparated xs)) = sum_list (map length xs) + length xs"
  by (induction xs rule: commaSeparated.induct) auto

lemma fuelFor_le_length: "plain v \<Longrightarrow> fuelFor v \<le> length (JSON_stringify v)"
proof (induction v)
  case (JArray vs)
  show ?case
  proof (cases "vs = []")
    case False
    have "sum_list (map fuelFor vs) \<le> sum_list (map (length \<circ> JSON_stringify) vs)"
      using JArray by (intro sum_list_mono) (auto simp: list_all_iff)
    then show ?thesis
      using commaSeparated_length [of "map JSON_stringify vs"] False by simp
  qed simp
next
  case (JObject ms)
  show ?case
  proof (cases "ms = []")
    case False
    have "sum_list (map (\<lambda>(k, v). fuelFor v) ms) \<le> sum_list (map (length \<circ> memberText) ms)"
    proof (rule sum_list_mono)
      fix kv assume kv: "kv \<in> set ms"
      obtain k v where [simp]: "kv = (k, v)" by (cases kv)
      from kv JObject.prems have "plain v" by (auto simp: list_all_iff)
      moreover have "v \<in> Basic_BNFs.snds kv" by simp
      ultimately have "fuelFor v \<le> length (JSON_stringify v)"
        using JObject.IH kv by blast
      then show "(case kv of (k, v) \<Rightarrow> fuelFor v) \<le> (length \<circ> memberText) kv"
        by (simp add: memberText_def)
    qed
    then show ?thesis
      using commaSeparated_length [of "map memberText ms"] False
      by (simp add: JSON_stringify_object del: JSON_stringify.simps)
  qed simp
qed (simp_all add: js_def QuoteJSONString_def)

lemma JSON_parse_stringify: "plain v \<Longrightarrow> JSON_parse (JSON_stringify v) = Inr v"
  using parseValue_roundtrip [of v "Suc (length (JSON_stringify v))" "[]"] fuelFor_le_length [of v]
  by (simp add: JSON_parse_def del: parseValue.simps)

subsection \<open>The bound on the nested calls\<close>

lemma skipWhitespace_length: "length (skipWhitespace cs) \<le> length cs"
  by (induction cs) auto

lemma skipWhitespace_Cons_length: "skipWhitespace cs = c # r \<Longrightarrow> length r < length cs"
  using skipWhitespace_length [of cs] by simp

lemma parseChars_length: "parseChars cs acc = Some (s, r) \<Longrightarrow> length r < length cs"
proof (induction cs acc rule: parseChars.induct)
  case (1 acc)
  then show ?case by simp
next
  case (2 c cs acc)
  then show ?case
    by (auto split: if_splits list.splits option.splits) fastforce+
qed

lemma stripPrefix_length: "stripPrefix ps cs = Some r \<Longrightarrow> length r \<le> length cs"
  by (induction ps cs rule: stripPrefix.induct) (auto split: if_splits)

lemma lexDigits_length: "lexDigits cs = Some (ds, r) \<Longrightarrow> length r < length cs"
  using length_dropWhile_le [of isDigit "tl cs"]
  by (auto simp: lexDigits_def split: list.splits if_splits)

lemma lexInt_length: "lexInt cs = Some (ds, r) \<Longrightarrow> length r < length cs"
  using length_dropWhile_le [of isDigit "tl cs"]
  by (auto simp: lexInt_def split: list.splits if_splits)

lemma lexFraction_length: "lexFraction cs = Some (ds, r) \<Longrightarrow> length r \<le> length cs"
  by (auto simp: lexFraction_def split: list.splits if_splits option.splits dest!: lexDigits_length)

lemma lexExponent_length: "lexExponent cs = Some (ds, r) \<Longrightarrow> length r \<le> length cs"
  by (auto simp: lexExponent_def split: list.splits if_splits option.splits dest!: lexDigits_length)

lemma lexNumber_length: "lexNumber cs = Some (l, r) \<Longrightarrow> length r < length cs"
  by (auto simp: lexNumber_def split: list.splits if_splits option.splits prod.splits
        dest!: lexInt_length lexFraction_length lexExponent_length)

lemma parseValue_Suc_cases:
  assumes "parseValue (Suc n) cs = Some (v, r)"
  shows "(\<exists>r0 d r'. skipWhitespace cs = 0x7B # r0 \<and> skipWhitespace r0 = d # r' \<and> d \<noteq> 0x7D
            \<and> parseMembers n (d # r') [] = Some (v, r)
            \<and> (\<forall>m. parseValue (Suc m) cs = parseMembers m (d # r') []))
       \<or> (\<exists>r0 d r'. skipWhitespace cs = 0x5B # r0 \<and> skipWhitespace r0 = d # r' \<and> d \<noteq> 0x5D
            \<and> parseElements n (d # r') [] = Some (v, r)
            \<and> (\<forall>m. parseValue (Suc m) cs = parseElements m (d # r') []))
       \<or> (length r < length cs \<and> (\<forall>m. parseValue (Suc m) cs = Some (v, r)))"
proof (cases "skipWhitespace cs")
  case Nil
  with assms show ?thesis by simp
next
  case (Cons c r0)
  note ws = Cons
  have len0: "length r0 < length cs" using ws by (rule skipWhitespace_Cons_length)
  consider (obj) "c = 0x7B" | (arr) "c = 0x5B" | (other) "c \<noteq> 0x7B" "c \<noteq> 0x5B" by blast
  then show ?thesis
  proof cases
    case obj
    show ?thesis
    proof (cases "skipWhitespace r0")
      case Nil
      with assms ws obj show ?thesis by simp
    next
      case (Cons d r')
      have "length r' < length r0" using Cons by (rule skipWhitespace_Cons_length)
      with assms ws obj Cons len0 show ?thesis by (cases "d = 0x7D") auto
    qed
  next
    case arr
    show ?thesis
    proof (cases "skipWhitespace r0")
      case Nil
      with assms ws arr show ?thesis by simp
    next
      case (Cons d r')
      have "length r' < length r0" using Cons by (rule skipWhitespace_Cons_length)
      with assms ws arr Cons len0 show ?thesis by (cases "d = 0x5D") auto
    qed
  next
    case other
    have "length r < length cs"
      using assms ws other len0 skipWhitespace_length [of cs]
      by (auto split: if_splits option.splits
            dest!: parseChars_length stripPrefix_length lexNumber_length)
    moreover have "\<forall>m. parseValue (Suc m) cs = Some (v, r)"
      using assms ws other by simp
    ultimately show ?thesis by blast
  qed
qed

lemma parseElements_Suc_cases:
  assumes "parseElements (Suc n) cs acc = Some (v, r)"
  shows "\<exists>v1 r1 c r'. parseValue n cs = Some (v1, r1) \<and> skipWhitespace r1 = c # r'
           \<and> (c = 0x2C \<and> parseElements n r' (acc @ [v1]) = Some (v, r)
               \<or> c = 0x5D \<and> v = JArray (acc @ [v1]) \<and> r = r')"
  using assms by (auto split: option.splits list.splits if_splits)

lemma parseMembers_Suc_cases:
  assumes "parseMembers (Suc n) cs acc = Some (v, r)"
  shows "\<exists>r0 k r1 r2 v1 r3 e r4.
           skipWhitespace cs = 0x22 # r0 \<and> parseChars r0 [] = Some (k, r1)
           \<and> skipWhitespace r1 = 0x3A # r2 \<and> parseValue n r2 = Some (v1, r3)
           \<and> skipWhitespace r3 = e # r4
           \<and> (e = 0x2C \<and> parseMembers n r4 (acc @ [(k, v1)]) = Some (v, r)
               \<or> e = 0x7D \<and> v = JObject (acc @ [(k, v1)]) \<and> r = r4)"
  using assms by (auto split: option.splits list.splits if_splits)

lemma fuel_enough:
  "(parseValue n cs = Some (v, r) \<longrightarrow>
      length r < length cs
      \<and> (\<forall>m. length cs - length r \<le> m \<longrightarrow> parseValue m cs = Some (v, r)))
   \<and> (parseElements n cs acc = Some (v, r) \<longrightarrow>
      length r < length cs
      \<and> (\<forall>m. length cs - length r \<le> m \<longrightarrow> parseElements m cs acc = Some (v, r)))
   \<and> (parseMembers n cs macc = Some (v, r) \<longrightarrow>
      length r < length cs
      \<and> (\<forall>m. length cs - length r \<le> m \<longrightarrow> parseMembers m cs macc = Some (v, r)))"
proof (induction n arbitrary: cs acc macc v r)
  case 0
  show ?case by simp
next
  case (Suc n)
  note IHv = Suc.IH [THEN conjunct1, rule_format]
  note IHe = Suc.IH [THEN conjunct2, THEN conjunct1, rule_format]
  note IHm = Suc.IH [THEN conjunct2, THEN conjunct2, rule_format]
  have for_value: "length r < length cs
      \<and> (\<forall>m. length cs - length r \<le> m \<longrightarrow> parseValue m cs = Some (v, r))"
    if a: "parseValue (Suc n) cs = Some (v, r)"
  proof -
    from parseValue_Suc_cases [OF a] consider
      (obj) r0 d r' where "skipWhitespace cs = 0x7B # r0" "skipWhitespace r0 = d # r'"
        "parseMembers n (d # r') [] = Some (v, r)"
        "\<forall>m. parseValue (Suc m) cs = parseMembers m (d # r') []"
    | (arr) r0 d r' where "skipWhitespace cs = 0x5B # r0" "skipWhitespace r0 = d # r'"
        "parseElements n (d # r') [] = Some (v, r)"
        "\<forall>m. parseValue (Suc m) cs = parseElements m (d # r') []"
    | (leaf) "length r < length cs" "\<forall>m. parseValue (Suc m) cs = Some (v, r)"
      by blast
    then show ?thesis
    proof cases
      case obj
      have l0: "length r0 < length cs" and l1: "length r' < length r0"
        using obj(1,2) by (auto dest: skipWhitespace_Cons_length)
      from IHm [OF obj(3)] have l2: "length r < length (d # r')"
        and fuel: "\<And>m. length (d # r') - length r \<le> m \<Longrightarrow>
                     parseMembers m (d # r') [] = Some (v, r)"
        by blast+
      have "parseValue m cs = Some (v, r)" if "length cs - length r \<le> m" for m
      proof -
        from that l0 l1 l2 obtain m' where m: "m = Suc m'" "length (d # r') - length r \<le> m'"
          by (cases m) auto
        then show ?thesis using obj(4) fuel by simp
      qed
      with l0 l1 l2 show ?thesis by auto
    next
      case arr
      have l0: "length r0 < length cs" and l1: "length r' < length r0"
        using arr(1,2) by (auto dest: skipWhitespace_Cons_length)
      from IHe [OF arr(3)] have l2: "length r < length (d # r')"
        and fuel: "\<And>m. length (d # r') - length r \<le> m \<Longrightarrow>
                     parseElements m (d # r') [] = Some (v, r)"
        by blast+
      have "parseValue m cs = Some (v, r)" if "length cs - length r \<le> m" for m
      proof -
        from that l0 l1 l2 obtain m' where m: "m = Suc m'" "length (d # r') - length r \<le> m'"
          by (cases m) auto
        then show ?thesis using arr(4) fuel by simp
      qed
      with l0 l1 l2 show ?thesis by auto
    next
      case leaf
      have "parseValue m cs = Some (v, r)" if "length cs - length r \<le> m" for m
        using that leaf by (cases m) auto
      with leaf(1) show ?thesis by blast
    qed
  qed
  have for_elements: "length r < length cs
      \<and> (\<forall>m. length cs - length r \<le> m \<longrightarrow> parseElements m cs acc = Some (v, r))"
    if a: "parseElements (Suc n) cs acc = Some (v, r)"
  proof -
    from parseElements_Suc_cases [OF a] obtain v1 r1 c r' where
      pv: "parseValue n cs = Some (v1, r1)" and ws: "skipWhitespace r1 = c # r'"
      and rest: "c = 0x2C \<and> parseElements n r' (acc @ [v1]) = Some (v, r)
                 \<or> c = 0x5D \<and> v = JArray (acc @ [v1]) \<and> r = r'"
      by blast
    from IHv [OF pv] have l1: "length r1 < length cs"
      and fuel1: "\<And>m. length cs - length r1 \<le> m \<Longrightarrow> parseValue m cs = Some (v1, r1)"
      by blast+
    have l2: "length r' < length r1" using ws by (rule skipWhitespace_Cons_length)
    from rest show ?thesis
    proof
      assume more: "c = 0x2C \<and> parseElements n r' (acc @ [v1]) = Some (v, r)"
      from IHe [of r' "acc @ [v1]" v r] more have l3: "length r < length r'"
        and fuel2: "\<And>m. length r' - length r \<le> m \<Longrightarrow>
                      parseElements m r' (acc @ [v1]) = Some (v, r)"
        by blast+
      have "parseElements m cs acc = Some (v, r)" if "length cs - length r \<le> m" for m
      proof -
        from that l1 l2 l3 obtain m' where m: "m = Suc m'"
          "length cs - length r1 \<le> m'" "length r' - length r \<le> m'"
          by (cases m) auto
        then show ?thesis using fuel1 fuel2 ws more by simp
      qed
      with l1 l2 l3 show ?thesis by auto
    next
      assume last: "c = 0x5D \<and> v = JArray (acc @ [v1]) \<and> r = r'"
      have "parseElements m cs acc = Some (v, r)" if "length cs - length r \<le> m" for m
      proof -
        from that l1 l2 last obtain m' where m: "m = Suc m'" "length cs - length r1 \<le> m'"
          by (cases m) auto
        then show ?thesis using fuel1 ws last by simp
      qed
      with l1 l2 last show ?thesis by auto
    qed
  qed
  have for_members: "length r < length cs
      \<and> (\<forall>m. length cs - length r \<le> m \<longrightarrow> parseMembers m cs macc = Some (v, r))"
    if a: "parseMembers (Suc n) cs macc = Some (v, r)"
  proof -
    from parseMembers_Suc_cases [OF a] obtain r0 k r1 r2 v1 r3 e r4 where
      w0: "skipWhitespace cs = 0x22 # r0" and key: "parseChars r0 [] = Some (k, r1)"
      and w1: "skipWhitespace r1 = 0x3A # r2" and pv: "parseValue n r2 = Some (v1, r3)"
      and w3: "skipWhitespace r3 = e # r4"
      and rest: "e = 0x2C \<and> parseMembers n r4 (macc @ [(k, v1)]) = Some (v, r)
                 \<or> e = 0x7D \<and> v = JObject (macc @ [(k, v1)]) \<and> r = r4"
      by blast
    have l0: "length r0 < length cs" using w0 by (rule skipWhitespace_Cons_length)
    have l1: "length r1 < length r0" using key by (rule parseChars_length)
    have l2: "length r2 < length r1" using w1 by (rule skipWhitespace_Cons_length)
    from IHv [OF pv] have l3: "length r3 < length r2"
      and fuel1: "\<And>m. length r2 - length r3 \<le> m \<Longrightarrow> parseValue m r2 = Some (v1, r3)"
      by blast+
    have l4: "length r4 < length r3" using w3 by (rule skipWhitespace_Cons_length)
    from rest show ?thesis
    proof
      assume more: "e = 0x2C \<and> parseMembers n r4 (macc @ [(k, v1)]) = Some (v, r)"
      from IHm [of r4 "macc @ [(k, v1)]" v r] more have l5: "length r < length r4"
        and fuel2: "\<And>m. length r4 - length r \<le> m \<Longrightarrow>
                      parseMembers m r4 (macc @ [(k, v1)]) = Some (v, r)"
        by blast+
      have "parseMembers m cs macc = Some (v, r)" if "length cs - length r \<le> m" for m
      proof -
        from that l0 l1 l2 l3 l4 l5 obtain m' where m: "m = Suc m'"
          "length r2 - length r3 \<le> m'" "length r4 - length r \<le> m'"
          by (cases m) auto
        then show ?thesis using fuel1 fuel2 w0 key w1 w3 more by simp
      qed
      with l0 l1 l2 l3 l4 l5 show ?thesis by auto
    next
      assume last: "e = 0x7D \<and> v = JObject (macc @ [(k, v1)]) \<and> r = r4"
      have "parseMembers m cs macc = Some (v, r)" if "length cs - length r \<le> m" for m
      proof -
        from that l0 l1 l2 l3 l4 last obtain m' where m: "m = Suc m'"
          "length r2 - length r3 \<le> m'"
          by (cases m) auto
        then show ?thesis using fuel1 w0 key w1 w3 last by simp
      qed
      with l0 l1 l2 l3 l4 last show ?thesis by auto
    qed
  qed
  from for_value for_elements for_members show ?case by blast
qed

text \<open>The bound that \<open>JSON_parse\<close> gives never makes it fail: it accepts a text exactly
  when some bound does.\<close>

lemma JSON_parse_bound:
  "JSON_parse src = Inr v \<longleftrightarrow> (\<exists>n r. parseValue n src = Some (v, r) \<and> skipWhitespace r = [])"
proof
  assume "JSON_parse src = Inr v"
  then show "\<exists>n r. parseValue n src = Some (v, r) \<and> skipWhitespace r = []"
    unfolding JSON_parse_def
    by (cases "parseValue (Suc (length src)) src")
      (auto split: if_splits simp del: parseValue.simps intro: exI [of _ "Suc (length src)"])
next
  assume "\<exists>n r. parseValue n src = Some (v, r) \<and> skipWhitespace r = []"
  then obtain n r where p: "parseValue n src = Some (v, r)" and ws: "skipWhitespace r = []"
    by blast
  from fuel_enough [of n src v r, THEN conjunct1, rule_format, OF p]
  have "length src - length r \<le> Suc (length src) \<longrightarrow>
          parseValue (Suc (length src)) src = Some (v, r)"
    by blast
  then have "parseValue (Suc (length src)) src = Some (v, r)"
    by (simp del: parseValue.simps)
  with ws show "JSON_parse src = Inr v"
    by (simp add: JSON_parse_def del: parseValue.simps)
qed

subsection \<open>Cursors\<close>

lemma those_map_inverse:
  "(\<And>e. ofJson (toJson e) = Some e) \<Longrightarrow> those (map ofJson (map toJson es)) = Some es"
  by (induction es) simp_all

lemma decodeCursors_encodeCursors:
  assumes "\<And>e. ofJson (toJson e) = Some e" and "\<And>e. plain (toJson e)"
  shows "decodeCursors ofJson (Some (encodeCursors toJson es)) = Cursors es"
proof -
  let ?v = "JObject [(js ''cursors'', JArray (map toJson es))]"
  have "plain ?v" using assms(2) by (simp add: list_all_iff)
  then have "JSON_parse (JSON_stringify ?v) = Inr ?v" by (rule JSON_parse_stringify)
  then show ?thesis
    using those_map_inverse [of ofJson toJson es, OF assms(1)]
    by (simp add: decodeCursors_def encodeCursors_def getProperty_def del: JSON_stringify.simps)
qed

lemma RepoInput_of_json_inverse: "RepoInput_of_json (RepoInput_json r) = Some r"
  by (cases r; cases "namespace r"; cases "project r")
    (simp_all add: RepoInput_of_json_def RepoInput_json_def optionalMember_def optionalString_def
       onlyKeys_def getProperty_def js_def)

lemma plain_RepoInput_json: "plain (RepoInput_json r)"
  by (simp add: RepoInput_json_def optionalMember_def split: option.split)

lemma PagedRepoInput_of_json_inverse: "PagedRepoInput_of_json (PagedRepoInput_json e) = Some e"
  by (cases e; cases "repoCursor e")
    (simp_all add: PagedRepoInput_of_json_def PagedRepoInput_json_def optionalMember_def
       optionalString_def onlyKeys_def getProperty_def js_def RepoInput_of_json_inverse)

lemma plain_PagedRepoInput_json: "plain (PagedRepoInput_json e)"
  by (simp add: PagedRepoInput_json_def optionalMember_def plain_RepoInput_json split: option.split)

lemma PagedProjectInput_of_json_inverse:
  "PagedProjectInput_of_json (PagedProjectInput_json e) = Some e"
  by (cases e; cases "projectNamespace e"; cases "projectProject e"; cases "projectCursor e")
    (simp_all add: PagedProjectInput_of_json_def PagedProjectInput_json_def optionalMember_def
       optionalString_def onlyKeys_def getProperty_def js_def)

lemma plain_PagedProjectInput_json: "plain (PagedProjectInput_json e)"
  by (simp add: PagedProjectInput_json_def optionalMember_def split: option.split)

lemma decode_encode_repo:
  "decodeCursors PagedRepoInput_of_json (Some (encodeCursors PagedRepoInput_json es)) = Cursors es"
  by (rule decodeCursors_encodeCursors [OF PagedRepoInput_of_json_inverse plain_PagedRepoInput_json])

lemma decode_encode_project:
  "decodeCursors PagedProjectInput_of_json (Some (encodeCursors PagedProjectInput_json es))
     = Cursors es"
  by (rule decodeCursors_encodeCursors
        [OF PagedProjectInput_of_json_inverse plain_PagedProjectInput_json])

lemma decodeCursors_absent: "decodeCursors ofJson None = Cursors []"
  by (simp add: decodeCursors_def JSON_parse_def js_def isWhitespace_def getProperty_def)

lemma decodeCursors_empty_string: "decodeCursors ofJson (Some []) = DecodeThrows SyntaxError"
  by (simp add: decodeCursors_def JSON_parse_def)


section \<open>The fan-out\<close>

lemma continueCallbacks_rejected:
  "\<exists>x \<in> set xs. isl (snd x) \<Longrightarrow> \<exists>ex. continueCallbacks entry xs st = Inl ex"
  by (induction entry xs st rule: continueCallbacks.induct) auto

lemma continueCallbacks_fulfilled:
  "\<forall>x \<in> set xs. \<not> isl (snd x) \<Longrightarrow>
   continueCallbacks entry xs (data, hasMore, cursors) =
     Inr (data @ concat (map (unitValues \<circ> snd) xs),
          hasMore \<or> (\<exists>x \<in> set xs. reportedMore (snd x)),
          cursors @ map (\<lambda>x. entry (fst x) (returnedCursor (snd x)))
                      (filter (\<lambda>x. reportedMore (snd x)) xs))"
proof (induction xs arbitrary: data hasMore cursors)
  case Nil
  show ?case by simp
next
  case (Cons x xs)
  obtain input answer where x: "x = (input, answer)" by (cases x)
  with Cons.prems obtain results where answer: "answer = Inr results" by (cases answer) auto
  from Cons.prems have rest: "\<forall>x \<in> set xs. \<not> isl (snd x)" by simp
  show ?case
    by (simp add: x answer Cons.IH [OF rest] unitValues_def reportedMore_def returnedCursor_def
          pageMore_def pageCursor_def split: option.splits)
qed

lemma mset_settled:
  "mset (settled call inputs) = mset (map (\<lambda>input. (input, snd (call input))) inputs)"
proof -
  let ?ys = "map (\<lambda>input. (fst (call input), (input, snd (call input)))) inputs"
  have "mset (map snd (sort_key fst ?ys)) = image_mset snd (mset (sort_key fst ?ys))"
    by (simp only: mset_map)
  also have "\<dots> = image_mset snd (mset ?ys)" by (simp only: mset_sort)
  also have "\<dots> = mset (map snd ?ys)" by (simp only: mset_map)
  also have "map snd ?ys = map (\<lambda>input. (input, snd (call input))) inputs"
    by (simp add: comp_def)
  finally show ?thesis by (simp add: settled_def completionOrder_def)
qed

lemma set_settled:
  "set (settled call inputs) = (\<lambda>input. (input, snd (call input))) ` set inputs"
  using mset_settled [of call inputs, THEN arg_cong, of set_mset] by simp

lemma settled_sorted:
  assumes "sorted (map (\<lambda>input. fst (call input)) inputs)"
  shows "settled call inputs = map (\<lambda>input. (input, snd (call input))) inputs"
proof -
  let ?ys = "map (\<lambda>input. (fst (call input), (input, snd (call input)))) inputs"
  have "sorted (map fst ?ys)" using assms by (simp add: comp_def)
  then have "sort_key fst ?ys = ?ys" by (rule sort_key_id_if_sorted)
  then show ?thesis by (simp add: settled_def completionOrder_def comp_def)
qed

lemma fst_fanOut: "fst (fanOut call_event call entry toJson inputs) = map call_event inputs"
  by (simp add: fanOut_def)

lemma fanOut_rejected:
  assumes "\<exists>input \<in> set inputs. isl (snd (call input))"
  shows "\<exists>ex. snd (fanOut call_event call entry toJson inputs) = NoResult (QueryFailed ex)"
proof -
  from assms have "\<exists>x \<in> set (settled call inputs). isl (snd x)"
    by (auto simp: set_settled)
  then obtain ex where "continueCallbacks entry (settled call inputs) ([], False, []) = Inl ex"
    using continueCallbacks_rejected by blast
  then show ?thesis by (simp add: fanOut_def)
qed

lemma fanOut_fulfilled:
  assumes "\<forall>input \<in> set inputs. \<not> isl (snd (call input))"
  shows "snd (fanOut call_event call entry toJson inputs) =
           Result \<lparr>page_values = concat (map (unitValues \<circ> snd) (settled call inputs)),
                   paging = Some
                     \<lparr>paging_cursor = Some (encodeCursors toJson
                        (map (\<lambda>x. entry (fst x) (returnedCursor (snd x)))
                           (filter (\<lambda>x. reportedMore (snd x)) (settled call inputs)))),
                      paging_more = (\<exists>input \<in> set inputs. reportedMore (snd (call input)))\<rparr>\<rparr>"
proof -
  from assms have "\<forall>x \<in> set (settled call inputs). \<not> isl (snd x)"
    by (auto simp: set_settled)
  then show ?thesis
    by (simp add: fanOut_def continueCallbacks_fulfilled set_settled)
qed

lemma mset_more_entries:
  "mset (map (\<lambda>x. entry (fst x) (returnedCursor (snd x)))
           (filter (\<lambda>x. reportedMore (snd x)) (settled call inputs)))
     = mset (map (\<lambda>u. entry u (returnedCursor (snd (call u))))
               (filter (\<lambda>u. reportedMore (snd (call u))) inputs))"
proof -
  let ?f = "\<lambda>x. entry (fst x) (returnedCursor (snd x))"
  let ?P = "\<lambda>x. reportedMore (snd x)"
  let ?pair = "\<lambda>input. (input, snd (call input))"
  have "mset (map ?f (filter ?P (settled call inputs)))
          = image_mset ?f (filter_mset ?P (mset (settled call inputs)))"
    by simp
  also have "\<dots> = image_mset ?f (filter_mset ?P (mset (map ?pair inputs)))"
    by (simp only: mset_settled)
  also have "\<dots> = mset (map ?f (filter ?P (map ?pair inputs)))"
    by simp
  also have "map ?f (filter ?P (map ?pair inputs))
               = map (\<lambda>u. entry u (returnedCursor (snd (call u))))
                   (filter (\<lambda>u. reportedMore (snd (call u))) inputs)"
    by (simp add: filter_map comp_def)
  finally show ?thesis .
qed

lemma fanOut_more_and_cursor:
  assumes ok: "\<forall>input \<in> set inputs. \<not> isl (snd (call input))"
    and inv: "\<And>e. ofJson (toJson e) = Some e" and pl: "\<And>e. plain (toJson e)"
  shows "\<exists>data text entries.
           snd (fanOut call_event call entry toJson inputs) =
             Result \<lparr>page_values = data,
                     paging = Some \<lparr>paging_cursor = Some text,
                       paging_more = (\<exists>input \<in> set inputs. reportedMore (snd (call input)))\<rparr>\<rparr>
           \<and> decodeCursors ofJson (Some text) = Cursors entries
           \<and> mset entries = mset (map (\<lambda>u. entry u (returnedCursor (snd (call u))))
                                    (filter (\<lambda>u. reportedMore (snd (call u))) inputs))"
proof -
  let ?entries = "map (\<lambda>x. entry (fst x) (returnedCursor (snd x)))
                    (filter (\<lambda>x. reportedMore (snd x)) (settled call inputs))"
  have "decodeCursors ofJson (Some (encodeCursors toJson ?entries)) = Cursors ?entries"
    by (rule decodeCursors_encodeCursors [OF inv pl])
  moreover note mset_more_entries [of entry call inputs]
  ultimately show ?thesis
    using fanOut_fulfilled [OF ok, of call_event entry toJson] by blast
qed

lemma fanOut_values:
  assumes ok: "\<forall>input \<in> set inputs. \<not> isl (snd (call input))"
  shows "\<exists>page.
           snd (fanOut call_event call entry toJson inputs) = Result page
           \<and> page_values page = concat (map (unitValues \<circ> snd) (settled call inputs))
           \<and> (sorted (map (\<lambda>input. fst (call input)) inputs) \<longrightarrow>
                page_values page = concat (map (\<lambda>input. unitValues (snd (call input))) inputs))"
  using fanOut_fulfilled [OF ok, of call_event entry toJson]
  by (auto simp: settled_sorted comp_def)

section \<open>The operations on their way to a fan-out\<close>

lemma case_fanOut:
  "(case fanOut call_event call entry toJson inputs of (t2, out) \<Rightarrow> f t2 out)
     = f (map call_event inputs) (snd (fanOut call_event call entry toJson inputs))"
  by (simp add: fanOut_def)

lemma getPullRequestsForRepos_fanOut:
  assumes "reachesPullRequestsFanOut api p input filters options"
    and "decodeCursors PagedRepoInput_of_json cursor = Cursors cs"
  shows "getPullRequestsForRepos api p input filters cursor =
           (fst (ensureSession api p) @ fst (getPullRequestsOptions api p input filters)
              @ map (pullRequestsForRepoEvent p options) (pagedRepoInputs cs input),
            snd (fanOut (pullRequestsForRepoEvent p options) (pullRequestsForRepoCall api p options)
                   repoEntry PagedRepoInput_json (pagedRepoInputs cs input)))"
proof -
  obtain t0 where t0: "ensureSession api p = (t0, Inr True)"
    using assms(1) by (cases "ensureSession api p") (simp add: reachesPullRequestsFanOut_def)
  obtain t1 where t1: "getPullRequestsOptions api p input filters = (t1, Inr options)"
    using assms(1)
    by (cases "getPullRequestsOptions api p input filters") (simp add: reachesPullRequestsFanOut_def)
  show ?thesis
    using assms
    by (simp add: getPullRequestsForRepos_def reachesPullRequestsFanOut_def t0 t1
          case_fanOut)
qed

lemma getIssuesForRepos_azure_fanOut:
  assumes "reachesAzureIssuesFanOut api p input filters organization options"
    and "decodeCursors PagedProjectInput_of_json cursor = Cursors cs"
  shows "getIssuesForRepos api p input filters cursor =
           (fst (ensureSession api p) @ fst (getAzureIssuesOptions api p organization filters)
              @ map (issuesForAzureProjectEvent options)
                  (pagedProjectInputs cs organization (setOf (projectsOf input))),
            snd (fanOut (issuesForAzureProjectEvent options) (issuesForAzureProjectCall api options)
                   projectEntry PagedProjectInput_json
                   (pagedProjectInputs cs organization (setOf (projectsOf input)))))"
proof -
  from assms(1) have p: "p = AzureDevOps" by (simp add: reachesAzureIssuesFanOut_def)
  obtain t0 where t0: "ensureSession api AzureDevOps = (t0, Inr True)"
    using assms(1)
    by (cases "ensureSession api AzureDevOps") (auto simp: reachesAzureIssuesFanOut_def)
  obtain t1 where
    t1: "getAzureIssuesOptions api AzureDevOps organization filters = (t1, Inr options)"
    using assms(1)
    by (cases "getAzureIssuesOptions api AzureDevOps organization filters")
      (auto simp: reachesAzureIssuesFanOut_def)
  have input: "\<not> unsupportedInput AzureDevOps input"
    and orgs: "setOf (namespacesOf input) = [organization]"
    using assms(1) by (auto simp: reachesAzureIssuesFanOut_def)
  show ?thesis
    unfolding p using assms(2)
    by (simp add: getIssuesForRepos_def t0 t1 input orgs case_fanOut)
qed

lemma getIssuesForRepos_fanOut:
  assumes "reachesIssuesFanOut api p input filters options"
    and "decodeCursors PagedRepoInput_of_json cursor = Cursors cs"
  shows "getIssuesForRepos api p input filters cursor =
           (fst (ensureSession api p) @ fst (getIssuesOptions api p filters)
              @ map (issuesForRepoEvent p options) (pagedRepoInputs cs input),
            snd (fanOut (issuesForRepoEvent p options) (issuesForRepoCall api p options)
                   repoEntry PagedRepoInput_json (pagedRepoInputs cs input)))"
proof -
  obtain t0 where t0: "ensureSession api p = (t0, Inr True)"
    using assms(1) by (cases "ensureSession api p") (simp add: reachesIssuesFanOut_def)
  obtain t1 where t1: "getIssuesOptions api p filters = (t1, Inr options)"
    using assms(1)
    by (cases "getIssuesOptions api p filters") (simp add: reachesIssuesFanOut_def)
  show ?thesis
    using assms
    by (simp add: getIssuesForRepos_def reachesIssuesFanOut_def t0 t1
          case_fanOut)
qed

section \<open>The calls of an operation\<close>

lemma ensureSession_event:
  "\<exists>domain scopes. fst (ensureSession api p) = [GetSession p domain scopes]"
  by (simp add: ensureSession_def Let_def)

lemma currentUser_shape:
  "currentUser call answer = (t, Inr userAccount) \<Longrightarrow> t = [call] \<and> answer = Inr (Some userAccount)"
  "currentUser call answer = (t, Inl reason) \<Longrightarrow> t = [call]"
  by (auto simp: currentUser_def split: sum.splits option.splits)

lemma getPullRequestsOptions_None:
  "getPullRequestsOptions api p input None = ([], Inr None)"
  by (simp add: getPullRequestsOptions_def)

lemma getPullRequestsOptions_translated:
  assumes "getPullRequestsOptions api p input (Some fs) = (t1, Inr options)"
  shows "\<exists>idev userAccount v.
           t1 = [idev] \<and> identityAnswer api idev = Some (Inr (Some userAccount))
           \<and> (if p = Bitbucket \<or> p = AzureDevOps then account_id userAccount
               else username userAccount) = Some v
           \<and> options = Some (pullRequestsOptions fs v)"
proof (cases "p = AzureDevOps")
  case True
  with assms show ?thesis
    by (auto simp: getPullRequestsOptions_def identityAnswer_def
          split: if_splits list.splits prod.splits sum.splits option.splits
          dest!: currentUser_shape)
next
  case False
  with assms show ?thesis
    by (auto simp: getPullRequestsOptions_def identityAnswer_def
          split: if_splits prod.splits sum.splits option.splits
          dest!: currentUser_shape)
qed

lemma getPullRequestsOptions_calls:
  "\<forall>ev \<in> set (fst (getPullRequestsOptions api p input filters)). queryOptionsOf ev = None"
  by (auto simp: getPullRequestsOptions_def currentUser_def queryOptionsOf_def
        split: if_splits list.splits prod.splits sum.splits option.splits)

lemma getAzureIssuesOptions_None:
  "getAzureIssuesOptions api p organization None = ([], Inr None)"
  by (simp add: getAzureIssuesOptions_def)

lemma getAzureIssuesOptions_translated:
  assumes "getAzureIssuesOptions api p organization (Some fs) = (t1, Inr options)"
  shows "\<exists>idev userAccount v.
           t1 = [idev] \<and> identityAnswer api idev = Some (Inr (Some userAccount))
           \<and> account_name userAccount = Some v
           \<and> options = Some (issuesOptions fs v)"
  using assms
  by (auto simp: getAzureIssuesOptions_def identityAnswer_def
        split: if_splits prod.splits sum.splits option.splits
        dest!: currentUser_shape)

lemma getAzureIssuesOptions_calls:
  "\<forall>ev \<in> set (fst (getAzureIssuesOptions api p organization filters)). queryOptionsOf ev = None"
  by (auto simp: getAzureIssuesOptions_def currentUser_def queryOptionsOf_def
        split: if_splits prod.splits sum.splits option.splits)

lemma getIssuesOptions_None:
  "getIssuesOptions api p None = ([], Inr None)"
  by (simp add: getIssuesOptions_def)

lemma getIssuesOptions_translated:
  assumes "getIssuesOptions api p (Some fs) = (t1, Inr options)"
  shows "\<exists>idev userAccount v.
           t1 = [idev] \<and> identityAnswer api idev = Some (Inr (Some userAccount))
           \<and> username userAccount = Some v
           \<and> options = Some (issuesOptions fs v)"
  using assms
  by (auto simp: getIssuesOptions_def identityAnswer_def
        split: if_splits prod.splits sum.splits option.splits
        dest!: currentUser_shape)

lemma getIssuesOptions_calls:
  "\<forall>ev \<in> set (fst (getIssuesOptions api p filters)). queryOptionsOf ev = None"
  by (auto simp: getIssuesOptions_def currentUser_def queryOptionsOf_def
        split: if_splits prod.splits sum.splits option.splits)

text \<open>The calls of an operation: the session check; then the identity calls; then the
  paging queries, each with the translated options and some cursor.\<close>

lemma getPullRequestsForRepos_calls:
  "\<exists>t1 answer qs.
     getPullRequestsOptions api p input filters = (t1, answer)
     \<and> (fst (getPullRequestsForRepos api p input filters cursor) = fst (ensureSession api p)
          \<or> fst (getPullRequestsForRepos api p input filters cursor)
               = fst (ensureSession api p) @ t1 @ qs
             \<and> (qs = [] \<or> (\<exists>options. answer = Inr options
                    \<and> (\<forall>q \<in> set qs. \<exists>c. queryOptionsOf q = Some (withCursor options c)))))"
proof -
  obtain t0 s where t0: "ensureSession api p = (t0, s)" by (cases "ensureSession api p")
  obtain t1 answer where t1: "getPullRequestsOptions api p input filters = (t1, answer)"
    by (cases "getPullRequestsOptions api p input filters")
  show ?thesis
    by (auto simp: getPullRequestsForRepos_def t0 t1 case_fanOut queryOptionsOf_def
          pullRequestsForRepoEvent_def
          split: sum.splits bool.splits decoded.splits)
qed

lemma getIssuesForRepos_calls:
  "fst (getIssuesForRepos api p input filters cursor) = fst (ensureSession api p)
   \<or> (\<exists>t1 answer qs.
         (p = AzureDevOps
            \<and> (\<exists>organization. getAzureIssuesOptions api p organization filters = (t1, answer))
          \<or> p \<noteq> AzureDevOps \<and> getIssuesOptions api p filters = (t1, answer))
         \<and> fst (getIssuesForRepos api p input filters cursor) = fst (ensureSession api p) @ t1 @ qs
         \<and> (qs = [] \<or> (\<exists>options. answer = Inr options
                \<and> (\<forall>q \<in> set qs. \<exists>c. queryOptionsOf q = Some (withCursor options c)))))"
proof -
  obtain t0 s where t0: "ensureSession api p = (t0, s)" by (cases "ensureSession api p")
  show ?thesis
  proof (cases "p = AzureDevOps")
    case True
    note t0a = t0 [unfolded True]
    show ?thesis
    proof (cases "setOf (namespacesOf input)")
      case Nil
      then have "fst (getIssuesForRepos api p input filters cursor) = t0"
        by (auto simp: getIssuesForRepos_def t0a True split: sum.splits bool.splits)
      then show ?thesis by (simp add: t0)
    next
      case (Cons organization rest)
      obtain t1 answer where
        t1: "getAzureIssuesOptions api AzureDevOps organization filters = (t1, answer)"
        by (cases "getAzureIssuesOptions api AzureDevOps organization filters")
      show ?thesis
      proof (cases rest)
        case Nil
        have "fst (getIssuesForRepos api p input filters cursor) = t0
              \<or> (\<exists>qs. fst (getIssuesForRepos api p input filters cursor) = t0 @ t1 @ qs
                    \<and> (qs = [] \<or> (\<exists>options. answer = Inr options
                          \<and> (\<forall>q \<in> set qs. \<exists>c. queryOptionsOf q = Some (withCursor options c)))))"
          by (auto simp: getIssuesForRepos_def True Cons Nil t0a t1 case_fanOut queryOptionsOf_def
                issuesForAzureProjectEvent_def
                split: sum.splits bool.splits decoded.splits)
        then show ?thesis using t0 t1 True by auto
      next
        case (Cons o2 rest2)
        with \<open>setOf (namespacesOf input) = organization # rest\<close>
        have "fst (getIssuesForRepos api p input filters cursor) = t0"
          by (auto simp: getIssuesForRepos_def t0a True split: sum.splits bool.splits)
        then show ?thesis by (simp add: t0)
      qed
    qed
  next
    case False
    obtain t1 answer where t1: "getIssuesOptions api p filters = (t1, answer)"
      by (cases "getIssuesOptions api p filters")
    have "fst (getIssuesForRepos api p input filters cursor) = t0
          \<or> (\<exists>qs. fst (getIssuesForRepos api p input filters cursor) = t0 @ t1 @ qs
                \<and> (qs = [] \<or> (\<exists>options. answer = Inr options
                      \<and> (\<forall>q \<in> set qs. \<exists>c. queryOptionsOf q = Some (withCursor options c)))))"
      by (auto simp: getIssuesForRepos_def False t0 t1 case_fanOut queryOptionsOf_def
            issuesForRepoEvent_def
            split: sum.splits bool.splits decoded.splits)
    then show ?thesis using t0 t1 False by auto
  qed
qed

lemma ensureSession_calls:
  "\<forall>ev \<in> set (fst (ensureSession api p)). queryOptionsOf ev = None \<and> \<not> isIdentityCall ev"
  by (simp add: ensureSession_def Let_def queryOptionsOf_def isIdentityCall_def)

lemma query_not_identity: "queryOptionsOf ev = Some opts \<Longrightarrow> \<not> isIdentityCall ev"
  by (cases ev) (simp_all add: queryOptionsOf_def isIdentityCall_def)

lemma withCursor_None:
  "withCursor None c = \<lparr>authorLogin = None, assigneeLogins = None, reviewRequestedLogin = None,
                          mentionLogin = None, queryCursor = c\<rparr>"
  by (simp add: withCursor_def)

lemma withCursor_Some:
  "opts = withCursor (Some options) c \<Longrightarrow> opts = options\<lparr>queryCursor := queryCursor opts\<rparr>"
  by (simp add: withCursor_def)

lemma translated_query_options:
  assumes trace: "trace = t0 @ t1 @ qs"
    and t0: "\<forall>e \<in> set t0. queryOptionsOf e = None"
    and t1: "\<forall>e \<in> set t1. queryOptionsOf e = None"
    and qs: "qs = [] \<or> (\<exists>options. answer = Inr options
               \<and> (\<forall>q \<in> set qs. \<exists>c. queryOptionsOf q = Some (withCursor options c)))"
    and ev: "ev \<in> set trace" "queryOptionsOf ev = Some opts"
  shows "\<exists>options c. answer = Inr options \<and> opts = withCursor options c"
proof -
  from ev trace t0 t1 have "ev \<in> set qs" by auto
  with qs ev(2) show ?thesis by force
qed

section \<open>Early returns and escaping exceptions\<close>

lemma parseValue_empty: "parseValue n [] = None"
  by (cases n) simp_all

lemma fanOut_not_raised: "snd (fanOut call_event call entry toJson inputs) \<noteq> Raised ex"
  by (simp add: fanOut_def split: sum.splits prod.splits)

lemma fanOut_no_organization_failure:
  "snd (fanOut call_event call entry toJson inputs) \<noteq> NoResult NoOrganizations"
  "snd (fanOut call_event call entry toJson inputs) \<noteq> NoResult MultipleOrganizations"
  by (simp_all add: fanOut_def split: sum.splits prod.splits)

lemma getPullRequestsForRepos_raised:
  assumes "snd (getPullRequestsForRepos api p input filters cursor) = Raised ex"
  shows "snd (ensureSession api p) = Inl ex
         \<or> decodeCursors PagedRepoInput_of_json cursor = DecodeThrows ex"
proof -
  obtain t0 s where t0: "ensureSession api p = (t0, s)" by (cases "ensureSession api p")
  obtain t1 answer where t1: "getPullRequestsOptions api p input filters = (t1, answer)"
    by (cases "getPullRequestsOptions api p input filters")
  from assms show ?thesis
    by (auto simp: getPullRequestsForRepos_def t0 t1 case_fanOut fanOut_not_raised
          split: sum.splits bool.splits decoded.splits if_splits)
qed

lemma getIssuesForRepos_raised:
  assumes "snd (getIssuesForRepos api p input filters cursor) = Raised ex"
  shows "snd (ensureSession api p) = Inl ex
         \<or> decodeCursors PagedProjectInput_of_json cursor = DecodeThrows ex
         \<or> decodeCursors PagedRepoInput_of_json cursor = DecodeThrows ex"
proof -
  obtain t0 s where t0: "ensureSession api p = (t0, s)" by (cases "ensureSession api p")
  obtain t1 answer where t1: "getIssuesOptions api p filters = (t1, answer)"
    by (cases "getIssuesOptions api p filters")
  show ?thesis
  proof (cases "p = AzureDevOps")
    case True
    note t0a = t0 [unfolded True]
    from assms show ?thesis
      unfolding True
      by (auto simp: getIssuesForRepos_def t0a case_fanOut fanOut_not_raised
            split: sum.splits bool.splits decoded.splits if_splits list.splits prod.splits)
  next
    case False
    with assms show ?thesis
      by (auto simp: getIssuesForRepos_def t0 t1 case_fanOut fanOut_not_raised
            split: sum.splits bool.splits decoded.splits if_splits)
  qed
qed

lemma getReposForAzureProject_raised:
  assumes "snd (getReposForAzureProject api ns pr cursor) = Raised ex"
  shows "snd (ensureSession api AzureDevOps) = Inl ex"
proof -
  obtain t0 s where t0: "ensureSession api AzureDevOps = (t0, s)"
    by (cases "ensureSession api AzureDevOps")
  from assms show ?thesis
    by (auto simp: getReposForAzureProject_def t0 split: sum.splits bool.splits)
qed

lemma decodeCursors_throws:
  assumes "decodeCursors ofJson cursor = DecodeThrows ex"
  shows "\<exists>src. cursor = Some src \<and> (JSON_parse src = Inl ex \<or> JSON_parse src = Inr JNull)"
proof (cases cursor)
  case None
  with assms show ?thesis by (simp add: decodeCursors_absent)
next
  case (Some src)
  with assms show ?thesis
    by (auto simp: decodeCursors_def split: sum.splits json.splits option.splits)
qed

lemma unsupported_filters_rejected:
  assumes "snd (ensureSession api p) = Inr True" and "\<not> unsupportedInput p input"
  shows "\<not> providerSupportsPullRequestFilters api p prFilters \<Longrightarrow>
           getPullRequestsForRepos api p input (Some prFilters) cursor
             = (fst (ensureSession api p), NoResult UnsupportedFilters)"
    and "p = AzureDevOps \<Longrightarrow> setOf (namespacesOf input) = [organization] \<Longrightarrow>
           \<not> providerSupportsIssueFilters api p filters \<Longrightarrow>
           getIssuesForRepos api p input (Some filters) cursor
             = (fst (ensureSession api p), NoResult UnsupportedFilters)"
proof -
  obtain t0 where t0: "ensureSession api p = (t0, Inr True)"
    using assms(1) by (cases "ensureSession api p") auto
  show "getPullRequestsForRepos api p input (Some prFilters) cursor
          = (fst (ensureSession api p), NoResult UnsupportedFilters)"
    if "\<not> providerSupportsPullRequestFilters api p prFilters"
    using that assms(2) by (simp add: getPullRequestsForRepos_def getPullRequestsOptions_def t0)
  show "getIssuesForRepos api p input (Some filters) cursor
          = (fst (ensureSession api p), NoResult UnsupportedFilters)"
    if "p = AzureDevOps" "setOf (namespacesOf input) = [organization]"
      "\<not> providerSupportsIssueFilters api p filters"
    using that assms(2) t0
    by (simp add: getIssuesForRepos_def getAzureIssuesOptions_def)
qed

section \<open>Sets of organizations\<close>

lemma set_foldl_setAdd: "set (foldl setAdd acc xs) = set acc \<union> set xs"
  by (induction xs arbitrary: acc) (auto simp: setAdd_def)

lemma distinct_foldl_setAdd: "distinct acc \<Longrightarrow> distinct (foldl setAdd acc xs)"
  by (induction xs arbitrary: acc) (auto simp: setAdd_def)

lemma length_setOf: "length (setOf xs) = card (set xs)"
proof -
  have "distinct (setOf xs)" "set (setOf xs) = set xs"
    by (simp_all add: setOf_def distinct_foldl_setAdd set_foldl_setAdd)
  then show ?thesis by (metis distinct_card)
qed

lemma setOf_none: "card (set xs) = 0 \<Longrightarrow> setOf xs = []"
  using length_setOf [of xs] by simp

lemma setOf_many: "1 < card (set xs) \<Longrightarrow> \<exists>a b rest. setOf xs = a # b # rest"
  using length_setOf [of xs] by (cases "setOf xs" rule: remdups_adj.cases) auto

section \<open>The examples, evaluated\<close>

lemma example_reaches_pullRequests:
  "reachesPullRequestsFanOut exampleApi github (RepoInputs rs) None None"
  by (simp add: reachesPullRequestsFanOut_def ensureSession_def exampleApi_def
        unsupportedInput_def isRepoIdsInput_def getPullRequestsOptions_def github_def)

lemma example_reaches_issues:
  "reachesIssuesFanOut exampleApi github (RepoInputs rs) None None"
  by (simp add: reachesIssuesFanOut_def ensureSession_def exampleApi_def
        unsupportedInput_def isRepoIdsInput_def getIssuesOptions_def github_def)

lemma example_reaches_azure:
  "reachesAzureIssuesFanOut exampleApi AzureDevOps (RepoInputs [R1]) None (Some (js ''org-a'')) None"
  by (simp add: reachesAzureIssuesFanOut_def ensureSession_def exampleApi_def
        unsupportedInput_def isRepoIdsInput_def getAzureIssuesOptions_def reposOf_def
        namespacesOf_def setOf_def setAdd_def R1_def)

lemma example_inputs:
  "pagedRepoInputs [] (RepoInputs [R1, R2])
     = [\<lparr>repo = R1, repoCursor = None\<rparr>, \<lparr>repo = R2, repoCursor = None\<rparr>]"
  by (simp add: pagedRepoInputs_def reposOf_def)

lemma example_project_inputs:
  "pagedProjectInputs [] (Some (js ''org-a'')) (setOf (projectsOf (RepoInputs [R1])))
     = [\<lparr>projectNamespace = Some (js ''org-a''), projectProject = Some (js ''p1''),
         projectCursor = None\<rparr>]"
  by (simp add: pagedProjectInputs_def projectsOf_def setOf_def setAdd_def R1_def)

lemma R1_neq_R2: "R2 \<noteq> R1"
  by (simp add: R1_def R2_def js_def)

lemma example_calls:
  "pullRequestsForRepoCall exampleApi q None \<lparr>repo = R1, repoCursor = None\<rparr> = (2, Inr page1)"
  "pullRequestsForRepoCall exampleApi q None \<lparr>repo = R2, repoCursor = None\<rparr> = (1, Inr page2)"
  "issuesForRepoCall exampleApi q None \<lparr>repo = R1, repoCursor = None\<rparr> = (2, Inr page1)"
  "issuesForRepoCall exampleApi q None \<lparr>repo = R2, repoCursor = None\<rparr> = (1, Inr page2)"
  "issuesForAzureProjectCall exampleApi None u = (1, Inr page1)"
  by (simp_all add: pullRequestsForRepoCall_def issuesForRepoCall_def
        issuesForAzureProjectCall_def exampleApi_def R1_neq_R2)

lemma example_pages:
  "pageMore page1" "\<not> pageMore page2" "pageCursor page1 = Some (js ''c1'')"
  "page_values page1 = [1, 2]" "page_values page2 = [3]"
  by (simp_all add: page1_def page2_def pageMore_def pageCursor_def)

lemma failing_reaches:
  "reachesPullRequestsFanOut failingApi github (RepoInputs rs) None None"
  "reachesIssuesFanOut failingApi github (RepoInputs rs) None None"
  "reachesAzureIssuesFanOut failingApi AzureDevOps (RepoInputs [R1]) None (Some (js ''org-a'')) None"
  by (simp_all add: reachesPullRequestsFanOut_def reachesIssuesFanOut_def
        reachesAzureIssuesFanOut_def ensureSession_def failingApi_def exampleApi_def
        unsupportedInput_def isRepoIdsInput_def getPullRequestsOptions_def getIssuesOptions_def
        getAzureIssuesOptions_def github_def reposOf_def namespacesOf_def setOf_def setAdd_def
        R1_def)

lemma failing_calls:
  "pullRequestsForRepoCall failingApi q None \<lparr>repo = R2, repoCursor = None\<rparr>
     = (1, Inl (Rejected (js ''timeout'')))"
  "issuesForRepoCall failingApi q None \<lparr>repo = R2, repoCursor = None\<rparr>
     = (1, Inl (Rejected (js ''timeout'')))"
  "issuesForAzureProjectCall failingApi None u = (1, Inl (Rejected (js ''timeout'')))"
  by (simp_all add: pullRequestsForRepoCall_def issuesForRepoCall_def
        issuesForAzureProjectCall_def failingApi_def exampleApi_def R1_neq_R2)

lemma example_session:
  "ensureSession exampleApi q = ([GetSession q [] []], Inr True)"
  "ensureSession failingApi q = ([GetSession q [] []], Inr True)"
  by (simp_all add: ensureSession_def exampleApi_def failingApi_def)

lemma two_organizations: "card (set (namespacesOf (RepoInputs [R1, R2]))) = 2"
  by (simp add: namespacesOf_def R1_def R2_def js_def)

lemma example_pullRequests_two_orgs:
  "getPullRequestsForRepos exampleApi q (RepoInputs [R1, R2]) None None
     = ([GetSession q [] [],
         GetPullRequestsForRepo q R1 (withCursor None None),
         GetPullRequestsForRepo q R2 (withCursor None None)],
        Result \<lparr>page_values = [3, 1, 2],
          paging = Some
            \<lparr>paging_cursor = Some (encodeCursors PagedRepoInput_json
                                      [\<lparr>repo = R1, repoCursor = Some (js ''c1'')\<rparr>]),
             paging_more = True\<rparr>\<rparr>)"
proof -
  have "\<not> unsupportedInput q (RepoInputs [R1, R2])"
    by (simp add: unsupportedInput_def isRepoIdsInput_def reposOf_def R1_def R2_def)
  moreover have "api_getProviderPullRequestsPagingMode exampleApi q = Some Repo"
    by (simp add: exampleApi_def)
  ultimately show ?thesis
    by (simp add: getPullRequestsForRepos_def example_session getPullRequestsOptions_None
          isRepoIdsInput_def decodeCursors_absent example_inputs fanOut_def settled_def
          completionOrder_def example_calls example_pages pullRequestsForRepoEvent_def
          repoEntry_def)
qed

lemma example_azure_issues_author:
  "getIssuesForRepos exampleApi AzureDevOps (RepoInputs [R1]) (Some [IssueAuthor]) None
     = ([GetSession AzureDevOps [] [],
         GetCurrentUserForInstance AzureDevOps (Some (js ''org-a'')),
         GetIssuesForAzureProject (Some (js ''org-a'')) (Some (js ''p1''))
           \<lparr>authorLogin = Some (js ''Alice A''), assigneeLogins = None,
             reviewRequestedLogin = None, mentionLogin = None, queryCursor = None\<rparr>],
        Result \<lparr>page_values = [1, 2],
          paging = Some
            \<lparr>paging_cursor = Some (encodeCursors PagedProjectInput_json
               [\<lparr>projectNamespace = Some (js ''org-a''), projectProject = Some (js ''p1''),
                 projectCursor = Some (js ''c1'')\<rparr>]),
             paging_more = True\<rparr>\<rparr>)"
proof -
  have orgs: "setOf (namespacesOf (RepoInputs [R1])) = [Some (js ''org-a'')]"
    and projects: "setOf (projectsOf (RepoInputs [R1])) = [Some (js ''p1'')]"
    and input: "\<not> unsupportedInput AzureDevOps (RepoInputs [R1])"
    by (simp_all add: setOf_def setAdd_def namespacesOf_def projectsOf_def unsupportedInput_def
          isRepoIdsInput_def reposOf_def R1_def)
  have options:
    "getAzureIssuesOptions exampleApi AzureDevOps (Some (js ''org-a'')) (Some [IssueAuthor])
       = ([GetCurrentUserForInstance AzureDevOps (Some (js ''org-a''))],
          Inr (Some (issuesOptions [IssueAuthor] (js ''Alice A''))))"
    by (simp add: getAzureIssuesOptions_def providerSupportsIssueFilters_def currentUser_def
          exampleApi_def alice_def)
  show ?thesis
    by (simp add: getIssuesForRepos_def example_session input orgs projects options
          decodeCursors_absent pagedProjectInputs_def fanOut_def settled_def completionOrder_def
          issuesForAzureProjectCall_def issuesForAzureProjectEvent_def projectEntry_def
          withCursor_def issuesOptions_def,
        simp add: exampleApi_def example_pages projectEntry_def)
qed

lemma example_pullRequests_author:
  "fst (getPullRequestsForRepos exampleApi Bitbucket (RepoInputs [R2]) (Some [PRAuthor]) None)
     = [GetSession Bitbucket [] [], GetCurrentUser Bitbucket,
        GetPullRequestsForRepo Bitbucket R2
          \<lparr>authorLogin = Some (js ''42''), assigneeLogins = None,
            reviewRequestedLogin = None, mentionLogin = None, queryCursor = None\<rparr>]"
proof -
  have options:
    "getPullRequestsOptions exampleApi Bitbucket (RepoInputs [R2]) (Some [PRAuthor])
       = ([GetCurrentUser Bitbucket], Inr (Some (pullRequestsOptions [PRAuthor] (js ''42''))))"
    by (simp add: getPullRequestsOptions_def providerSupportsPullRequestFilters_def
          currentUser_def exampleApi_def alice_def)
  show ?thesis
    by (simp add: getPullRequestsForRepos_def example_session unsupportedInput_def
          isRepoIdsInput_def options decodeCursors_absent pagedRepoInputs_def reposOf_def
          fanOut_def pullRequestsForRepoEvent_def withCursor_def pullRequestsOptions_def,
        simp add: exampleApi_def)
qed

lemma resume_session: "ensureSession resumeApi q = ([GetSession q [] []], Inr True)"
  by (simp add: ensureSession_def resumeApi_def exampleApi_def)

lemma resume_pullRequests_options:
  "getPullRequestsOptions resumeApi github input None = ([], Inr None)"
  "getPullRequestsOptions resumeApi github input (Some [PRAuthor])
     = ([GetCurrentUser github],
        Inr (Some \<lparr>authorLogin = Some (js ''alice''), assigneeLogins = None,
                   reviewRequestedLogin = None, mentionLogin = None, queryCursor = None\<rparr>))"
  by (simp_all add: getPullRequestsOptions_def providerSupportsPullRequestFilters_def
        currentUser_def resumeApi_def exampleApi_def alice_def github_def pullRequestsOptions_def)

lemma resume_azure_options:
  "getAzureIssuesOptions resumeApi AzureDevOps (Some (js ''org-a'')) None = ([], Inr None)"
  "getAzureIssuesOptions resumeApi AzureDevOps (Some (js ''org-a'')) (Some [IssueAuthor])
     = ([GetCurrentUserForInstance AzureDevOps (Some (js ''org-a''))],
        Inr (Some \<lparr>authorLogin = Some (js ''Alice A''), assigneeLogins = None,
                   reviewRequestedLogin = None, mentionLogin = None, queryCursor = None\<rparr>))"
  by (simp_all add: getAzureIssuesOptions_def providerSupportsIssueFilters_def
        currentUser_def resumeApi_def exampleApi_def alice_def issuesOptions_def)

lemma resume_issues_options:
  "getIssuesOptions resumeApi github None = ([], Inr None)"
  by (simp add: getIssuesOptions_def)

lemma resume_reaches:
  "reachesPullRequestsFanOut resumeApi github (RepoInputs rs) None None"
  "reachesPullRequestsFanOut resumeApi github (RepoInputs rs) (Some [PRAuthor])
     (Some \<lparr>authorLogin = Some (js ''alice''), assigneeLogins = None,
            reviewRequestedLogin = None, mentionLogin = None, queryCursor = None\<rparr>)"
  "reachesIssuesFanOut resumeApi github (RepoInputs rs) None None"
  by (simp_all add: reachesPullRequestsFanOut_def reachesIssuesFanOut_def resume_session
        resume_pullRequests_options resume_issues_options unsupportedInput_def isRepoIdsInput_def,
      simp_all add: resumeApi_def exampleApi_def github_def)

lemma resume_reaches_azure:
  "reachesAzureIssuesFanOut resumeApi AzureDevOps (RepoInputs [R1]) None (Some (js ''org-a'')) None"
  "reachesAzureIssuesFanOut resumeApi AzureDevOps (RepoInputs [R1]) (Some [IssueAuthor])
     (Some (js ''org-a''))
     (Some \<lparr>authorLogin = Some (js ''Alice A''), assigneeLogins = None,
            reviewRequestedLogin = None, mentionLogin = None, queryCursor = None\<rparr>)"
  by (simp_all add: reachesAzureIssuesFanOut_def resume_session resume_azure_options,
      simp_all add: unsupportedInput_def isRepoIdsInput_def reposOf_def namespacesOf_def
        setOf_def setAdd_def R1_def)

lemma resume_answers:
  "api_getPullRequestsForRepo resumeApi = (\<lambda>p r. resumedAnswer)"
  "api_getIssuesForRepo resumeApi = (\<lambda>p r. resumedAnswer)"
  "api_getIssuesForAzureProject resumeApi = (\<lambda>ns pr. resumedAnswer)"
  by (simp_all add: resumeApi_def)

lemma resumedAnswer_cursor:
  "queryCursor opts = Some (js ''c1'') \<Longrightarrow> resumedAnswer opts = (1, Inr pageA)"
  "queryCursor opts = Some (js ''c2'') \<Longrightarrow> resumedAnswer opts = (1, Inr pageB)"
  "queryCursor opts = None \<Longrightarrow> resumedAnswer opts = (1, Inr pageC)"
  by (simp_all add: resumedAnswer_def js_def)

lemma resume_calls:
  "pullRequestsForRepoCall resumeApi q options u = resumedAnswer (withCursor options (repoCursor u))"
  "issuesForRepoCall resumeApi q options u = resumedAnswer (withCursor options (repoCursor u))"
  "issuesForAzureProjectCall resumeApi options v
     = resumedAnswer (withCursor options (projectCursor v))"
  by (simp_all add: pullRequestsForRepoCall_def issuesForRepoCall_def
        issuesForAzureProjectCall_def resumeApi_def)

lemma resume_pages:
  "reportedMore (Inr pageA)" "reportedMore (Inr pageB)" "\<not> reportedMore (Inr pageC)"
  "returnedCursor (Inr pageA) = Some (js ''n1'')" "returnedCursor (Inr pageB) = None"
  by (simp_all add: reportedMore_def returnedCursor_def pageA_def pageB_def pageC_def)


section \<open>The claims\<close>

text \<open>
  Claim C1.  When \<^verbatim>\<open>getPullRequestsForRepos\<close> or \<^verbatim>\<open>getIssuesForRepos\<close> reaches a
  fan-out and the caller's cursor decodes to a non-empty list of unit-cursor entries, the
  calls it makes are the session and identity calls followed by one query for each entry
  of the cursor, in their order: the query names the unit of the entry, carries the
  identity filters of the operation, and its cursor is the cursor stored in the entry.
  The repositories of the input are not queried, and the page returned is merged from the
  answers of the collaborator to exactly these queries.
\<close>

theorem resume_queries_stored_units:
  "(let query = (\<lambda>c. \<lparr>authorLogin = Option.bind options authorLogin,
                       assigneeLogins = Option.bind options assigneeLogins,
                       reviewRequestedLogin = Option.bind options reviewRequestedLogin,
                       mentionLogin = Option.bind options mentionLogin,
                       queryCursor = c\<rparr>)
    in
     (reachesPullRequestsFanOut api p input prFilters options
        \<and> decodeCursors PagedRepoInput_of_json cursor = Cursors repoCursors \<and> repoCursors \<noteq> []
      \<longrightarrow> getPullRequestsForRepos api p input prFilters cursor
            = (fst (ensureSession api p) @ fst (getPullRequestsOptions api p input prFilters)
                 @ map (\<lambda>e. GetPullRequestsForRepo p (repo e) (query (repoCursor e))) repoCursors,
               snd (fanOut (\<lambda>e. GetPullRequestsForRepo p (repo e) (query (repoCursor e)))
                      (\<lambda>e. api_getPullRequestsForRepo api p (repo e) (query (repoCursor e)))
                      repoEntry PagedRepoInput_json repoCursors)))
     \<and> (reachesAzureIssuesFanOut api p input filters organization options
        \<and> decodeCursors PagedProjectInput_of_json cursor = Cursors projectCursors
        \<and> projectCursors \<noteq> []
      \<longrightarrow> getIssuesForRepos api p input filters cursor
            = (fst (ensureSession api p) @ fst (getAzureIssuesOptions api p organization filters)
                 @ map (\<lambda>e. GetIssuesForAzureProject (projectNamespace e) (projectProject e)
                              (query (projectCursor e))) projectCursors,
               snd (fanOut (\<lambda>e. GetIssuesForAzureProject (projectNamespace e) (projectProject e)
                                  (query (projectCursor e)))
                      (\<lambda>e. api_getIssuesForAzureProject api (projectNamespace e)
                              (projectProject e) (query (projectCursor e)))
                      projectEntry PagedProjectInput_json projectCursors)))
     \<and> (reachesIssuesFanOut api p input filters options
        \<and> decodeCursors PagedRepoInput_of_json cursor = Cursors repoCursors \<and> repoCursors \<noteq> []
      \<longrightarrow> getIssuesForRepos api p input filters cursor
            = (fst (ensureSession api p) @ fst (getIssuesOptions api p filters)
                 @ map (\<lambda>e. GetIssuesForRepo p (repo e) (query (repoCursor e))) repoCursors,
               snd (fanOut (\<lambda>e. GetIssuesForRepo p (repo e) (query (repoCursor e)))
                      (\<lambda>e. api_getIssuesForRepo api p (repo e) (query (repoCursor e)))
                      repoEntry PagedRepoInput_json repoCursors))))"
proof -
  have query:
    "\<lparr>authorLogin = Option.bind options authorLogin,
      assigneeLogins = Option.bind options assigneeLogins,
      reviewRequestedLogin = Option.bind options reviewRequestedLogin,
      mentionLogin = Option.bind options mentionLogin,
      queryCursor = c\<rparr> = withCursor options c" for c
    by (cases options) (simp_all add: withCursor_def)
  have callbacks:
    "(\<lambda>e. GetPullRequestsForRepo p (repo e) (withCursor options (repoCursor e)))
       = pullRequestsForRepoEvent p options"
    "(\<lambda>e. api_getPullRequestsForRepo api p (repo e) (withCursor options (repoCursor e)))
       = pullRequestsForRepoCall api p options"
    "(\<lambda>e. GetIssuesForRepo p (repo e) (withCursor options (repoCursor e)))
       = issuesForRepoEvent p options"
    "(\<lambda>e. api_getIssuesForRepo api p (repo e) (withCursor options (repoCursor e)))
       = issuesForRepoCall api p options"
    "(\<lambda>e. GetIssuesForAzureProject (projectNamespace e) (projectProject e)
             (withCursor options (projectCursor e)))
       = issuesForAzureProjectEvent options"
    "(\<lambda>e. api_getIssuesForAzureProject api (projectNamespace e) (projectProject e)
             (withCursor options (projectCursor e)))
       = issuesForAzureProjectCall api options"
    by (rule ext, simp add: pullRequestsForRepoEvent_def pullRequestsForRepoCall_def
          issuesForRepoEvent_def issuesForRepoCall_def issuesForAzureProjectEvent_def
          issuesForAzureProjectCall_def)+
  show ?thesis
    unfolding Let_def query callbacks
    by (auto simp: getPullRequestsForRepos_fanOut getIssuesForRepos_azure_fanOut
          getIssuesForRepos_fanOut pagedRepoInputs_def pagedProjectInputs_def)
qed

text \<open>The theorem at work: the input names \<open>R2\<close>, the cursor names \<open>R1\<close> and \<open>R3\<close> (or
  the project \<^verbatim>\<open>p9\<close>), and the units of the cursor are the ones queried, each with its
  stored cursor; \<open>resumeApi\<close> would reject a query that came with another cursor.\<close>

theorem resume_queries_stored_units_witness:
  "getPullRequestsForRepos resumeApi github (RepoInputs [R2]) (Some [PRAuthor])
       (Some (encodeCursors PagedRepoInput_json
          [\<lparr>repo = R1, repoCursor = Some (js ''c1'')\<rparr>, \<lparr>repo = R3, repoCursor = Some (js ''c2'')\<rparr>]))
     = ([GetSession github [] [], GetCurrentUser github,
         GetPullRequestsForRepo github R1
           \<lparr>authorLogin = Some (js ''alice''), assigneeLogins = None,
             reviewRequestedLogin = None, mentionLogin = None, queryCursor = Some (js ''c1'')\<rparr>,
         GetPullRequestsForRepo github R3
           \<lparr>authorLogin = Some (js ''alice''), assigneeLogins = None,
             reviewRequestedLogin = None, mentionLogin = None, queryCursor = Some (js ''c2'')\<rparr>],
        Result \<lparr>page_values = [4, 5],
          paging = Some
            \<lparr>paging_cursor = Some (encodeCursors PagedRepoInput_json
               [\<lparr>repo = R1, repoCursor = Some (js ''n1'')\<rparr>, \<lparr>repo = R3, repoCursor = None\<rparr>]),
             paging_more = True\<rparr>\<rparr>)
   \<and> getIssuesForRepos resumeApi AzureDevOps (RepoInputs [R1]) (Some [IssueAuthor])
       (Some (encodeCursors PagedProjectInput_json
          [\<lparr>projectNamespace = Some (js ''org-a''), projectProject = Some (js ''p9''),
            projectCursor = Some (js ''c1'')\<rparr>]))
     = ([GetSession AzureDevOps [] [],
         GetCurrentUserForInstance AzureDevOps (Some (js ''org-a'')),
         GetIssuesForAzureProject (Some (js ''org-a'')) (Some (js ''p9''))
           \<lparr>authorLogin = Some (js ''Alice A''), assigneeLogins = None,
             reviewRequestedLogin = None, mentionLogin = None, queryCursor = Some (js ''c1'')\<rparr>],
        Result \<lparr>page_values = [4],
          paging = Some
            \<lparr>paging_cursor = Some (encodeCursors PagedProjectInput_json
               [\<lparr>projectNamespace = Some (js ''org-a''), projectProject = Some (js ''p9''),
                 projectCursor = Some (js ''n1'')\<rparr>]),
             paging_more = True\<rparr>\<rparr>)
   \<and> getIssuesForRepos resumeApi github (RepoInputs [R2]) None
       (Some (encodeCursors PagedRepoInput_json [\<lparr>repo = R1, repoCursor = Some (js ''c2'')\<rparr>]))
     = ([GetSession github [] [],
         GetIssuesForRepo github R1
           \<lparr>authorLogin = None, assigneeLogins = None,
             reviewRequestedLogin = None, mentionLogin = None, queryCursor = Some (js ''c2'')\<rparr>],
        Result \<lparr>page_values = [5],
          paging = Some
            \<lparr>paging_cursor = Some (encodeCursors PagedRepoInput_json
               [\<lparr>repo = R1, repoCursor = None\<rparr>]),
             paging_more = True\<rparr>\<rparr>)"
proof (intro conjI)
  let ?e1 = "\<lparr>repo = R1, repoCursor = Some (js ''c1'')\<rparr>"
  let ?e3 = "\<lparr>repo = R3, repoCursor = Some (js ''c2'')\<rparr>"
  let ?e = "\<lparr>repo = R1, repoCursor = Some (js ''c2'')\<rparr>"
  let ?pe = "\<lparr>projectNamespace = Some (js ''org-a''), projectProject = Some (js ''p9''),
              projectCursor = Some (js ''c1'')\<rparr>"
  note evaluated = Let_def resume_session resume_pullRequests_options resume_azure_options
    resume_issues_options resume_answers resumedAnswer_cursor fanOut_def settled_def
    completionOrder_def pageA_def pageB_def pageMore_def pageCursor_def repoEntry_def
    projectEntry_def
  show "getPullRequestsForRepos resumeApi github (RepoInputs [R2]) (Some [PRAuthor])
       (Some (encodeCursors PagedRepoInput_json [?e1, ?e3]))
     = ([GetSession github [] [], GetCurrentUser github,
         GetPullRequestsForRepo github R1
           \<lparr>authorLogin = Some (js ''alice''), assigneeLogins = None,
             reviewRequestedLogin = None, mentionLogin = None, queryCursor = Some (js ''c1'')\<rparr>,
         GetPullRequestsForRepo github R3
           \<lparr>authorLogin = Some (js ''alice''), assigneeLogins = None,
             reviewRequestedLogin = None, mentionLogin = None, queryCursor = Some (js ''c2'')\<rparr>],
        Result \<lparr>page_values = [4, 5],
          paging = Some
            \<lparr>paging_cursor = Some (encodeCursors PagedRepoInput_json
               [\<lparr>repo = R1, repoCursor = Some (js ''n1'')\<rparr>, \<lparr>repo = R3, repoCursor = None\<rparr>]),
             paging_more = True\<rparr>\<rparr>)"
    using resume_queries_stored_units
      [where api = resumeApi and p = github and input = "RepoInputs [R2]"
         and prFilters = "Some [PRAuthor]"
         and options = "Some \<lparr>authorLogin = Some (js ''alice''), assigneeLogins = None,
            reviewRequestedLogin = None, mentionLogin = None, queryCursor = None\<rparr>"
         and repoCursors = "[?e1, ?e3]"
         and cursor = "Some (encodeCursors PagedRepoInput_json [?e1, ?e3])"]
      resume_reaches(2) [of "[R2]"] decode_encode_repo [of "[?e1, ?e3]"]
    by (simp add: evaluated)
  show "getIssuesForRepos resumeApi AzureDevOps (RepoInputs [R1]) (Some [IssueAuthor])
       (Some (encodeCursors PagedProjectInput_json [?pe]))
     = ([GetSession AzureDevOps [] [],
         GetCurrentUserForInstance AzureDevOps (Some (js ''org-a'')),
         GetIssuesForAzureProject (Some (js ''org-a'')) (Some (js ''p9''))
           \<lparr>authorLogin = Some (js ''Alice A''), assigneeLogins = None,
             reviewRequestedLogin = None, mentionLogin = None, queryCursor = Some (js ''c1'')\<rparr>],
        Result \<lparr>page_values = [4],
          paging = Some
            \<lparr>paging_cursor = Some (encodeCursors PagedProjectInput_json
               [\<lparr>projectNamespace = Some (js ''org-a''), projectProject = Some (js ''p9''),
                 projectCursor = Some (js ''n1'')\<rparr>]),
             paging_more = True\<rparr>\<rparr>)"
    using resume_queries_stored_units
      [where api = resumeApi and p = AzureDevOps and input = "RepoInputs [R1]"
         and filters = "Some [IssueAuthor]" and organization = "Some (js ''org-a'')"
         and options = "Some \<lparr>authorLogin = Some (js ''Alice A''), assigneeLogins = None,
            reviewRequestedLogin = None, mentionLogin = None, queryCursor = None\<rparr>"
         and projectCursors = "[?pe]"
         and cursor = "Some (encodeCursors PagedProjectInput_json [?pe])"]
      resume_reaches_azure(2) decode_encode_project [of "[?pe]"]
    by (simp add: evaluated)
  show "getIssuesForRepos resumeApi github (RepoInputs [R2]) None
       (Some (encodeCursors PagedRepoInput_json [?e]))
     = ([GetSession github [] [],
         GetIssuesForRepo github R1
           \<lparr>authorLogin = None, assigneeLogins = None,
             reviewRequestedLogin = None, mentionLogin = None, queryCursor = Some (js ''c2'')\<rparr>],
        Result \<lparr>page_values = [5],
          paging = Some
            \<lparr>paging_cursor = Some (encodeCursors PagedRepoInput_json
               [\<lparr>repo = R1, repoCursor = None\<rparr>]),
             paging_more = True\<rparr>\<rparr>)"
    using resume_queries_stored_units
      [where api = resumeApi and p = github and input = "RepoInputs [R2]"
         and filters = None and options = None and repoCursors = "[?e]"
         and cursor = "Some (encodeCursors PagedRepoInput_json [?e])"]
      resume_reaches(3) [of "[R2]"] decode_encode_repo [of "[?e]"]
    by (simp add: evaluated)
qed

text \<open>
  Claim C2.  When every call of a fan-out succeeds, the merged result reports more exactly
  when the page of some unit reported more; the returned cursor is a text, present also
  when no unit reported more, that decodes to one entry for each unit whose page reported
  more, naming that unit with the cursor that its page returned, and to the empty list
  when no unit reported more.
\<close>

theorem merged_more_and_cursor:
  "(reachesPullRequestsFanOut api p input prFilters options
      \<and> decodeCursors PagedRepoInput_of_json cursor = Cursors repoCursors
      \<and> (\<forall>u \<in> set (pagedRepoInputs repoCursors input).
            \<not> isl (snd (pullRequestsForRepoCall api p options u)))
    \<longrightarrow> (\<exists>data text entries.
          snd (getPullRequestsForRepos api p input prFilters cursor) =
            Result \<lparr>page_values = data,
              paging = Some \<lparr>paging_cursor = Some text,
                paging_more = (\<exists>u \<in> set (pagedRepoInputs repoCursors input).
                                 reportedMore (snd (pullRequestsForRepoCall api p options u)))\<rparr>\<rparr>
          \<and> decodeCursors PagedRepoInput_of_json (Some text) = Cursors entries
          \<and> mset entries =
              mset (map (\<lambda>u. \<lparr>repo = repo u,
                               repoCursor =
                                 returnedCursor (snd (pullRequestsForRepoCall api p options u))\<rparr>)
                      (filter (\<lambda>u. reportedMore (snd (pullRequestsForRepoCall api p options u)))
                         (pagedRepoInputs repoCursors input)))
          \<and> ((\<forall>u \<in> set (pagedRepoInputs repoCursors input).
                  \<not> reportedMore (snd (pullRequestsForRepoCall api p options u)))
               \<longrightarrow> entries = [])))
   \<and> (reachesAzureIssuesFanOut api p input filters organization options
      \<and> decodeCursors PagedProjectInput_of_json cursor = Cursors projectCursors
      \<and> (\<forall>u \<in> set (pagedProjectInputs projectCursors organization (setOf (projectsOf input))).
            \<not> isl (snd (issuesForAzureProjectCall api options u)))
    \<longrightarrow> (\<exists>data text entries.
          snd (getIssuesForRepos api p input filters cursor) =
            Result \<lparr>page_values = data,
              paging = Some \<lparr>paging_cursor = Some text,
                paging_more =
                  (\<exists>u \<in> set (pagedProjectInputs projectCursors organization
                                (setOf (projectsOf input))).
                     reportedMore (snd (issuesForAzureProjectCall api options u)))\<rparr>\<rparr>
          \<and> decodeCursors PagedProjectInput_of_json (Some text) = Cursors entries
          \<and> mset entries =
              mset (map (\<lambda>u. \<lparr>projectNamespace = projectNamespace u,
                               projectProject = projectProject u,
                               projectCursor =
                                 returnedCursor (snd (issuesForAzureProjectCall api options u))\<rparr>)
                      (filter (\<lambda>u. reportedMore (snd (issuesForAzureProjectCall api options u)))
                         (pagedProjectInputs projectCursors organization
                            (setOf (projectsOf input)))))
          \<and> ((\<forall>u \<in> set (pagedProjectInputs projectCursors organization
                            (setOf (projectsOf input))).
                  \<not> reportedMore (snd (issuesForAzureProjectCall api options u)))
               \<longrightarrow> entries = [])))
   \<and> (reachesIssuesFanOut api p input filters options
      \<and> decodeCursors PagedRepoInput_of_json cursor = Cursors repoCursors
      \<and> (\<forall>u \<in> set (pagedRepoInputs repoCursors input).
            \<not> isl (snd (issuesForRepoCall api p options u)))
    \<longrightarrow> (\<exists>data text entries.
          snd (getIssuesForRepos api p input filters cursor) =
            Result \<lparr>page_values = data,
              paging = Some \<lparr>paging_cursor = Some text,
                paging_more = (\<exists>u \<in> set (pagedRepoInputs repoCursors input).
                                 reportedMore (snd (issuesForRepoCall api p options u)))\<rparr>\<rparr>
          \<and> decodeCursors PagedRepoInput_of_json (Some text) = Cursors entries
          \<and> mset entries =
              mset (map (\<lambda>u. \<lparr>repo = repo u,
                               repoCursor = returnedCursor (snd (issuesForRepoCall api p options u))\<rparr>)
                      (filter (\<lambda>u. reportedMore (snd (issuesForRepoCall api p options u)))
                         (pagedRepoInputs repoCursors input)))
          \<and> ((\<forall>u \<in> set (pagedRepoInputs repoCursors input).
                  \<not> reportedMore (snd (issuesForRepoCall api p options u)))
               \<longrightarrow> entries = [])))"
  (is "(?A1 \<longrightarrow> ?C1) \<and> (?A2 \<longrightarrow> ?C2) \<and> (?A3 \<longrightarrow> ?C3)")
proof (intro conjI impI)
  have none: "(\<forall>u \<in> set us. \<not> P u) \<longrightarrow> es = []" if "mset es = mset (map f (filter P us))"
    for es :: "'e list" and f :: "'u \<Rightarrow> 'e" and P us
  proof
    assume "\<forall>u \<in> set us. \<not> P u"
    then have "filter P us = []" by (simp add: filter_empty_conv)
    with that show "es = []" by simp
  qed
  {
    assume ?A1
    then have r: "reachesPullRequestsFanOut api p input prFilters options"
      and d: "decodeCursors PagedRepoInput_of_json cursor = Cursors repoCursors"
      and ok: "\<forall>u \<in> set (pagedRepoInputs repoCursors input).
                 \<not> isl (snd (pullRequestsForRepoCall api p options u))"
      by blast+
    show ?C1
      unfolding getPullRequestsForRepos_fanOut [OF r d] snd_conv
      using fanOut_more_and_cursor
        [OF ok PagedRepoInput_of_json_inverse plain_PagedRepoInput_json,
         of "pullRequestsForRepoEvent p options" repoEntry]
      unfolding repoEntry_def
      by (elim exE conjE) (intro exI conjI, assumption+, erule none)
  }
  {
    assume ?A2
    then have r: "reachesAzureIssuesFanOut api p input filters organization options"
      and d: "decodeCursors PagedProjectInput_of_json cursor = Cursors projectCursors"
      and ok: "\<forall>u \<in> set (pagedProjectInputs projectCursors organization
                            (setOf (projectsOf input))).
                 \<not> isl (snd (issuesForAzureProjectCall api options u))"
      by blast+
    show ?C2
      unfolding getIssuesForRepos_azure_fanOut [OF r d] snd_conv
      using fanOut_more_and_cursor
        [OF ok PagedProjectInput_of_json_inverse plain_PagedProjectInput_json,
         of "issuesForAzureProjectEvent options" projectEntry]
      unfolding projectEntry_def
      by (elim exE conjE) (intro exI conjI, assumption+, erule none)
  }
  {
    assume ?A3
    then have r: "reachesIssuesFanOut api p input filters options"
      and d: "decodeCursors PagedRepoInput_of_json cursor = Cursors repoCursors"
      and ok: "\<forall>u \<in> set (pagedRepoInputs repoCursors input).
                 \<not> isl (snd (issuesForRepoCall api p options u))"
      by blast+
    show ?C3
      unfolding getIssuesForRepos_fanOut [OF r d] snd_conv
      using fanOut_more_and_cursor
        [OF ok PagedRepoInput_of_json_inverse plain_PagedRepoInput_json,
         of "issuesForRepoEvent p options" repoEntry]
      unfolding repoEntry_def
      by (elim exE conjE) (intro exI conjI, assumption+, erule none)
  }
qed

text \<open>The theorem at work, on resumed units: \<open>R1\<close> was stored with \<^verbatim>\<open>c1\<close> and returns
  \<^verbatim>\<open>n1\<close>; \<open>R2\<close> reports more without a cursor; \<open>R3\<close> names a cursor on its last
  page.\<close>

theorem merged_more_and_cursor_witness:
  "(\<exists>data text entries.
      snd (getPullRequestsForRepos resumeApi github (RepoInputs [R1, R2, R3]) None
             (Some (encodeCursors PagedRepoInput_json
                [\<lparr>repo = R1, repoCursor = Some (js ''c1'')\<rparr>,
                 \<lparr>repo = R2, repoCursor = Some (js ''c2'')\<rparr>,
                 \<lparr>repo = R3, repoCursor = None\<rparr>]))) =
        Result \<lparr>page_values = data,
                paging = Some \<lparr>paging_cursor = Some text, paging_more = True\<rparr>\<rparr>
      \<and> decodeCursors PagedRepoInput_of_json (Some text) = Cursors entries
      \<and> mset entries = {#\<lparr>repo = R1, repoCursor = Some (js ''n1'')\<rparr>,
                          \<lparr>repo = R2, repoCursor = None\<rparr>#})
   \<and> (\<exists>data text entries.
      snd (getIssuesForRepos resumeApi AzureDevOps (RepoInputs [R1]) None
             (Some (encodeCursors PagedProjectInput_json
                [\<lparr>projectNamespace = Some (js ''org-a''), projectProject = Some (js ''p1''),
                  projectCursor = Some (js ''c1'')\<rparr>,
                 \<lparr>projectNamespace = Some (js ''org-a''), projectProject = Some (js ''p2''),
                  projectCursor = Some (js ''c2'')\<rparr>,
                 \<lparr>projectNamespace = Some (js ''org-a''), projectProject = Some (js ''p3''),
                  projectCursor = None\<rparr>]))) =
        Result \<lparr>page_values = data,
                paging = Some \<lparr>paging_cursor = Some text, paging_more = True\<rparr>\<rparr>
      \<and> decodeCursors PagedProjectInput_of_json (Some text) = Cursors entries
      \<and> mset entries = {#\<lparr>projectNamespace = Some (js ''org-a''),
                           projectProject = Some (js ''p1''),
                           projectCursor = Some (js ''n1'')\<rparr>,
                          \<lparr>projectNamespace = Some (js ''org-a''),
                           projectProject = Some (js ''p2''),
                           projectCursor = None\<rparr>#})
   \<and> (\<exists>data text entries.
      snd (getIssuesForRepos resumeApi github (RepoInputs [R3]) None None) =
        Result \<lparr>page_values = data,
                paging = Some \<lparr>paging_cursor = Some text, paging_more = False\<rparr>\<rparr>
      \<and> decodeCursors PagedRepoInput_of_json (Some text) = Cursors entries
      \<and> entries = [])"
proof (intro conjI)
  let ?e1 = "\<lparr>repo = R1, repoCursor = Some (js ''c1'')\<rparr>"
  let ?e2 = "\<lparr>repo = R2, repoCursor = Some (js ''c2'')\<rparr>"
  let ?e3 = "\<lparr>repo = R3, repoCursor = None\<rparr>"
  let ?p1 = "\<lparr>projectNamespace = Some (js ''org-a''), projectProject = Some (js ''p1''),
              projectCursor = Some (js ''c1'')\<rparr>"
  let ?p2 = "\<lparr>projectNamespace = Some (js ''org-a''), projectProject = Some (js ''p2''),
              projectCursor = Some (js ''c2'')\<rparr>"
  let ?p3 = "\<lparr>projectNamespace = Some (js ''org-a''), projectProject = Some (js ''p3''),
              projectCursor = None\<rparr>"
  note evaluated = pagedRepoInputs_def pagedProjectInputs_def reposOf_def resume_calls
    withCursor_def resumedAnswer_cursor resume_pages
  show "\<exists>data text entries.
      snd (getPullRequestsForRepos resumeApi github (RepoInputs [R1, R2, R3]) None
             (Some (encodeCursors PagedRepoInput_json [?e1, ?e2, ?e3]))) =
        Result \<lparr>page_values = data,
                paging = Some \<lparr>paging_cursor = Some text, paging_more = True\<rparr>\<rparr>
      \<and> decodeCursors PagedRepoInput_of_json (Some text) = Cursors entries
      \<and> mset entries = {#\<lparr>repo = R1, repoCursor = Some (js ''n1'')\<rparr>,
                          \<lparr>repo = R2, repoCursor = None\<rparr>#}"
    using merged_more_and_cursor
      [where api = resumeApi and p = github and input = "RepoInputs [R1, R2, R3]"
         and prFilters = None and options = None and repoCursors = "[?e1, ?e2, ?e3]"
         and cursor = "Some (encodeCursors PagedRepoInput_json [?e1, ?e2, ?e3])"]
      resume_reaches(1) [of "[R1, R2, R3]"] decode_encode_repo [of "[?e1, ?e2, ?e3]"]
    by (simp add: evaluated)
  show "\<exists>data text entries.
      snd (getIssuesForRepos resumeApi AzureDevOps (RepoInputs [R1]) None
             (Some (encodeCursors PagedProjectInput_json [?p1, ?p2, ?p3]))) =
        Result \<lparr>page_values = data,
                paging = Some \<lparr>paging_cursor = Some text, paging_more = True\<rparr>\<rparr>
      \<and> decodeCursors PagedProjectInput_of_json (Some text) = Cursors entries
      \<and> mset entries = {#\<lparr>projectNamespace = Some (js ''org-a''),
                           projectProject = Some (js ''p1''),
                           projectCursor = Some (js ''n1'')\<rparr>,
                          \<lparr>projectNamespace = Some (js ''org-a''),
                           projectProject = Some (js ''p2''),
                           projectCursor = None\<rparr>#}"
    using merged_more_and_cursor
      [where api = resumeApi and p = AzureDevOps and input = "RepoInputs [R1]"
         and filters = None and options = None and organization = "Some (js ''org-a'')"
         and projectCursors = "[?p1, ?p2, ?p3]"
         and cursor = "Some (encodeCursors PagedProjectInput_json [?p1, ?p2, ?p3])"]
      resume_reaches_azure(1) decode_encode_project [of "[?p1, ?p2, ?p3]"]
    by (simp add: evaluated)
  show "\<exists>data text entries.
      snd (getIssuesForRepos resumeApi github (RepoInputs [R3]) None None) =
        Result \<lparr>page_values = data,
                paging = Some \<lparr>paging_cursor = Some text, paging_more = False\<rparr>\<rparr>
      \<and> decodeCursors PagedRepoInput_of_json (Some text) = Cursors entries
      \<and> entries = []"
    using merged_more_and_cursor
      [where api = resumeApi and p = github and input = "RepoInputs [R3]"
         and filters = None and options = None and repoCursors = "[]" and cursor = None]
      resume_reaches(3) [of "[R3]"]
    by (simp add: evaluated decodeCursors_absent)
qed

text \<open>
  Claim C3, as stated, fails: the values are appended when a call settles, so they come
  in the order of completion.  \<open>R1\<close> is asked first and answers last, and its values
  follow those of \<open>R2\<close>.
\<close>

theorem merged_values_unit_order_counterexample:
  "pullRequestsForRepoCall exampleApi github None \<lparr>repo = R1, repoCursor = None\<rparr> = (2, Inr page1)
   \<and> pullRequestsForRepoCall exampleApi github None \<lparr>repo = R2, repoCursor = None\<rparr>
       = (1, Inr page2)
   \<and> page_values page1 = [1, 2] \<and> page_values page2 = [3]
   \<and> snd (getPullRequestsForRepos exampleApi github (RepoInputs [R1, R2]) None None)
       = Result \<lparr>page_values = [3, 1, 2],
           paging = Some
             \<lparr>paging_cursor = Some (encodeCursors PagedRepoInput_json
                                       [\<lparr>repo = R1, repoCursor = Some (js ''c1'')\<rparr>]),
              paging_more = True\<rparr>\<rparr>"
proof -
  have "snd (getPullRequestsForRepos exampleApi github (RepoInputs [R1, R2]) None None)
          = snd (fanOut (pullRequestsForRepoEvent github None)
                   (pullRequestsForRepoCall exampleApi github None) repoEntry PagedRepoInput_json
                   [\<lparr>repo = R1, repoCursor = None\<rparr>, \<lparr>repo = R2, repoCursor = None\<rparr>])"
    using getPullRequestsForRepos_fanOut [OF example_reaches_pullRequests decodeCursors_absent]
    by (simp add: example_inputs)
  then show ?thesis
    by (simp add: fanOut_def settled_def completionOrder_def example_calls example_pages
          repoEntry_def)
qed

text \<open>
  Claim C3, amended.  When every call of a fan-out succeeds, the merged values are the
  values of the units concatenated in the order in which their calls settle, the order
  inside a unit kept; they are in the order of the units when the calls settle in that
  order.
\<close>

theorem merged_values_completion_order:
  "(reachesPullRequestsFanOut api p input prFilters options
      \<and> decodeCursors PagedRepoInput_of_json cursor = Cursors repoCursors
      \<and> (\<forall>u \<in> set (pagedRepoInputs repoCursors input).
            \<not> isl (snd (pullRequestsForRepoCall api p options u)))
    \<longrightarrow> (\<exists>page.
          snd (getPullRequestsForRepos api p input prFilters cursor) = Result page
          \<and> page_values page
              = concat (map (unitValues \<circ> snd)
                  (settled (pullRequestsForRepoCall api p options)
                     (pagedRepoInputs repoCursors input)))
          \<and> (sorted (map (\<lambda>u. fst (pullRequestsForRepoCall api p options u))
                       (pagedRepoInputs repoCursors input))
               \<longrightarrow> page_values page
                     = concat (map (\<lambda>u. unitValues (snd (pullRequestsForRepoCall api p options u)))
                         (pagedRepoInputs repoCursors input)))))
   \<and> (reachesAzureIssuesFanOut api p input filters organization options
      \<and> decodeCursors PagedProjectInput_of_json cursor = Cursors projectCursors
      \<and> (\<forall>u \<in> set (pagedProjectInputs projectCursors organization (setOf (projectsOf input))).
            \<not> isl (snd (issuesForAzureProjectCall api options u)))
    \<longrightarrow> (\<exists>page.
          snd (getIssuesForRepos api p input filters cursor) = Result page
          \<and> page_values page
              = concat (map (unitValues \<circ> snd)
                  (settled (issuesForAzureProjectCall api options)
                     (pagedProjectInputs projectCursors organization (setOf (projectsOf input)))))
          \<and> (sorted (map (\<lambda>u. fst (issuesForAzureProjectCall api options u))
                       (pagedProjectInputs projectCursors organization
                          (setOf (projectsOf input))))
               \<longrightarrow> page_values page
                     = concat (map (\<lambda>u. unitValues (snd (issuesForAzureProjectCall api options u)))
                         (pagedProjectInputs projectCursors organization
                            (setOf (projectsOf input)))))))
   \<and> (reachesIssuesFanOut api p input filters options
      \<and> decodeCursors PagedRepoInput_of_json cursor = Cursors repoCursors
      \<and> (\<forall>u \<in> set (pagedRepoInputs repoCursors input).
            \<not> isl (snd (issuesForRepoCall api p options u)))
    \<longrightarrow> (\<exists>page.
          snd (getIssuesForRepos api p input filters cursor) = Result page
          \<and> page_values page
              = concat (map (unitValues \<circ> snd)
                  (settled (issuesForRepoCall api p options) (pagedRepoInputs repoCursors input)))
          \<and> (sorted (map (\<lambda>u. fst (issuesForRepoCall api p options u))
                       (pagedRepoInputs repoCursors input))
               \<longrightarrow> page_values page
                     = concat (map (\<lambda>u. unitValues (snd (issuesForRepoCall api p options u)))
                         (pagedRepoInputs repoCursors input)))))"
  (is "(?A1 \<longrightarrow> ?C1) \<and> (?A2 \<longrightarrow> ?C2) \<and> (?A3 \<longrightarrow> ?C3)")
proof (intro conjI impI)
  assume ?A1
  then have r: "reachesPullRequestsFanOut api p input prFilters options"
    and d: "decodeCursors PagedRepoInput_of_json cursor = Cursors repoCursors"
    and ok: "\<forall>u \<in> set (pagedRepoInputs repoCursors input).
               \<not> isl (snd (pullRequestsForRepoCall api p options u))"
    by blast+
  show ?C1
    unfolding getPullRequestsForRepos_fanOut [OF r d] snd_conv
    by (rule fanOut_values [OF ok])
next
  assume ?A2
  then have r: "reachesAzureIssuesFanOut api p input filters organization options"
    and d: "decodeCursors PagedProjectInput_of_json cursor = Cursors projectCursors"
    and ok: "\<forall>u \<in> set (pagedProjectInputs projectCursors organization
                          (setOf (projectsOf input))).
               \<not> isl (snd (issuesForAzureProjectCall api options u))"
    by blast+
  show ?C2
    unfolding getIssuesForRepos_azure_fanOut [OF r d] snd_conv
    by (rule fanOut_values [OF ok])
next
  assume ?A3
  then have r: "reachesIssuesFanOut api p input filters options"
    and d: "decodeCursors PagedRepoInput_of_json cursor = Cursors repoCursors"
    and ok: "\<forall>u \<in> set (pagedRepoInputs repoCursors input).
               \<not> isl (snd (issuesForRepoCall api p options u))"
    by blast+
  show ?C3
    unfolding getIssuesForRepos_fanOut [OF r d] snd_conv
    by (rule fanOut_values [OF ok])
qed

theorem merged_values_completion_order_witness:
  "(\<exists>page. snd (getPullRequestsForRepos exampleApi github (RepoInputs [R1, R2]) None None)
              = Result page
            \<and> page_values page = [3, 1, 2])
   \<and> (\<exists>page. snd (getIssuesForRepos exampleApi AzureDevOps (RepoInputs [R1]) None None)
                = Result page
              \<and> page_values page = [1, 2])
   \<and> (\<exists>page. snd (getIssuesForRepos exampleApi github (RepoInputs [R2, R1]) None None)
                = Result page
              \<and> page_values page = [3, 1, 2])"
proof (intro conjI)
  show "\<exists>page. snd (getPullRequestsForRepos exampleApi github (RepoInputs [R1, R2]) None None)
                  = Result page
                \<and> page_values page = [3, 1, 2]"
    using merged_values_completion_order
      [where api = exampleApi and p = github and input = "RepoInputs [R1, R2]"
         and prFilters = None and options = None and cursor = None and repoCursors = "[]"]
    by (simp add: example_reaches_pullRequests decodeCursors_absent example_inputs example_calls
          example_pages unitValues_def settled_def completionOrder_def)
  show "\<exists>page. snd (getIssuesForRepos exampleApi AzureDevOps (RepoInputs [R1]) None None)
                  = Result page
                \<and> page_values page = [1, 2]"
    using merged_values_completion_order
      [where api = exampleApi and p = AzureDevOps and input = "RepoInputs [R1]"
         and filters = None and options = None and cursor = None and projectCursors = "[]"
         and organization = "Some (js ''org-a'')"]
    by (simp add: example_reaches_azure decodeCursors_absent example_project_inputs example_calls
          example_pages unitValues_def settled_def completionOrder_def)
  have inputs: "pagedRepoInputs [] (RepoInputs [R2, R1])
                  = [\<lparr>repo = R2, repoCursor = None\<rparr>, \<lparr>repo = R1, repoCursor = None\<rparr>]"
    by (simp add: pagedRepoInputs_def reposOf_def)
  show "\<exists>page. snd (getIssuesForRepos exampleApi github (RepoInputs [R2, R1]) None None)
                  = Result page
                \<and> page_values page = [3, 1, 2]"
    using merged_values_completion_order
      [where api = exampleApi and p = github and input = "RepoInputs [R2, R1]"
         and filters = None and options = None and cursor = None and repoCursors = "[]"]
    by (simp add: example_reaches_issues decodeCursors_absent inputs example_calls
          example_pages unitValues_def settled_def completionOrder_def)
qed

text \<open>
  Claim C4.  When one of the calls of a fan-out fails, the operation returns no result:
  nothing of what the other calls returned reaches the caller.
\<close>

theorem failed_unit_fails_operation:
  "(reachesPullRequestsFanOut api p input prFilters options
      \<and> decodeCursors PagedRepoInput_of_json cursor = Cursors repoCursors
      \<and> (\<exists>u \<in> set (pagedRepoInputs repoCursors input).
            isl (snd (pullRequestsForRepoCall api p options u)))
    \<longrightarrow> (\<exists>ex. snd (getPullRequestsForRepos api p input prFilters cursor)
                 = NoResult (QueryFailed ex)))
   \<and> (reachesAzureIssuesFanOut api p input filters organization options
      \<and> decodeCursors PagedProjectInput_of_json cursor = Cursors projectCursors
      \<and> (\<exists>u \<in> set (pagedProjectInputs projectCursors organization (setOf (projectsOf input))).
            isl (snd (issuesForAzureProjectCall api options u)))
    \<longrightarrow> (\<exists>ex. snd (getIssuesForRepos api p input filters cursor) = NoResult (QueryFailed ex)))
   \<and> (reachesIssuesFanOut api p input filters options
      \<and> decodeCursors PagedRepoInput_of_json cursor = Cursors repoCursors
      \<and> (\<exists>u \<in> set (pagedRepoInputs repoCursors input).
            isl (snd (issuesForRepoCall api p options u)))
    \<longrightarrow> (\<exists>ex. snd (getIssuesForRepos api p input filters cursor) = NoResult (QueryFailed ex)))"
  (is "(?A1 \<longrightarrow> ?C1) \<and> (?A2 \<longrightarrow> ?C2) \<and> (?A3 \<longrightarrow> ?C3)")
proof (intro conjI impI)
  assume ?A1
  then have r: "reachesPullRequestsFanOut api p input prFilters options"
    and d: "decodeCursors PagedRepoInput_of_json cursor = Cursors repoCursors"
    and bad: "\<exists>u \<in> set (pagedRepoInputs repoCursors input).
               isl (snd (pullRequestsForRepoCall api p options u))"
    by blast+
  show ?C1
    unfolding getPullRequestsForRepos_fanOut [OF r d] snd_conv
    by (rule fanOut_rejected [OF bad])
next
  assume ?A2
  then have r: "reachesAzureIssuesFanOut api p input filters organization options"
    and d: "decodeCursors PagedProjectInput_of_json cursor = Cursors projectCursors"
    and bad: "\<exists>u \<in> set (pagedProjectInputs projectCursors organization
                          (setOf (projectsOf input))).
               isl (snd (issuesForAzureProjectCall api options u))"
    by blast+
  show ?C2
    unfolding getIssuesForRepos_azure_fanOut [OF r d] snd_conv
    by (rule fanOut_rejected [OF bad])
next
  assume ?A3
  then have r: "reachesIssuesFanOut api p input filters options"
    and d: "decodeCursors PagedRepoInput_of_json cursor = Cursors repoCursors"
    and bad: "\<exists>u \<in> set (pagedRepoInputs repoCursors input).
               isl (snd (issuesForRepoCall api p options u))"
    by blast+
  show ?C3
    unfolding getIssuesForRepos_fanOut [OF r d] snd_conv
    by (rule fanOut_rejected [OF bad])
qed

theorem failed_unit_fails_operation_witness:
  "(\<exists>ex. snd (getPullRequestsForRepos failingApi github (RepoInputs [R1, R2]) None None)
            = NoResult (QueryFailed ex))
   \<and> (\<exists>ex. snd (getIssuesForRepos failingApi AzureDevOps (RepoInputs [R1]) None None)
              = NoResult (QueryFailed ex))
   \<and> (\<exists>ex. snd (getIssuesForRepos failingApi github (RepoInputs [R1, R2]) None None)
              = NoResult (QueryFailed ex))"
proof (intro conjI)
  show "\<exists>ex. snd (getPullRequestsForRepos failingApi github (RepoInputs [R1, R2]) None None)
               = NoResult (QueryFailed ex)"
    using failed_unit_fails_operation
      [where api = failingApi and p = github and input = "RepoInputs [R1, R2]"
         and prFilters = None and options = None and cursor = None and repoCursors = "[]"]
    by (simp add: failing_reaches decodeCursors_absent example_inputs failing_calls)
  show "\<exists>ex. snd (getIssuesForRepos failingApi AzureDevOps (RepoInputs [R1]) None None)
               = NoResult (QueryFailed ex)"
    using failed_unit_fails_operation
      [where api = failingApi and p = AzureDevOps and input = "RepoInputs [R1]"
         and filters = None and options = None and cursor = None and projectCursors = "[]"
         and organization = "Some (js ''org-a'')"]
    by (simp add: failing_reaches decodeCursors_absent example_project_inputs failing_calls)
  show "\<exists>ex. snd (getIssuesForRepos failingApi github (RepoInputs [R1, R2]) None None)
               = NoResult (QueryFailed ex)"
    using failed_unit_fails_operation
      [where api = failingApi and p = github and input = "RepoInputs [R1, R2]"
         and filters = None and options = None and cursor = None and repoCursors = "[]"]
    by (simp add: failing_reaches decodeCursors_absent example_inputs failing_calls)
qed

text \<open>
  Claim C5 holds for pull requests and for the issues of Azure DevOps, which test
  \<^verbatim>\<open>providerSupportsPullRequestFilters\<close> (line 60) and
  \<^verbatim>\<open>providerSupportsIssueFilters\<close> (line 222) before the identity is resolved.  The
  issues of every other provider (lines 303-328) are not tested: with a mention filter that
  GitLab does not support, \<^verbatim>\<open>getIssuesForRepos\<close> asks for the current user and queries
  the repository with the filter.
\<close>

theorem issues_unsupported_filter_not_rejected:
  "\<not> providerSupportsIssueFilters exampleApi GitLab [IssueMention]
   \<and> getIssuesForRepos exampleApi GitLab (RepoInputs [R2]) (Some [IssueMention]) None
       = ([GetSession GitLab [] [], GetCurrentUser GitLab,
           GetIssuesForRepo GitLab R2
             \<lparr>authorLogin = None, assigneeLogins = None, reviewRequestedLogin = None,
               mentionLogin = Some (js ''alice''), queryCursor = None\<rparr>],
          Result \<lparr>page_values = [3],
            paging = Some \<lparr>paging_cursor = Some (encodeCursors PagedRepoInput_json []),
                           paging_more = False\<rparr>\<rparr>)"
proof -
  have "\<not> providerSupportsIssueFilters exampleApi GitLab [IssueMention]"
    by (simp add: providerSupportsIssueFilters_def exampleApi_def)
  moreover have options:
    "getIssuesOptions exampleApi GitLab (Some [IssueMention])
       = ([GetCurrentUser GitLab], Inr (Some (issuesOptions [IssueMention] (js ''alice''))))"
    by (simp add: getIssuesOptions_def currentUser_def exampleApi_def alice_def)
  moreover have
    "getIssuesForRepos exampleApi GitLab (RepoInputs [R2]) (Some [IssueMention]) None
       = ([GetSession GitLab [] [], GetCurrentUser GitLab,
           GetIssuesForRepo GitLab R2
             (withCursor (Some (issuesOptions [IssueMention] (js ''alice''))) None)],
          Result \<lparr>page_values = [3],
            paging = Some \<lparr>paging_cursor = Some (encodeCursors PagedRepoInput_json []),
                           paging_more = False\<rparr>\<rparr>)"
    by (simp add: getIssuesForRepos_def example_session unsupportedInput_def options
          isRepoIdsInput_def decodeCursors_absent pagedRepoInputs_def reposOf_def fanOut_def
          settled_def completionOrder_def issuesForRepoCall_def issuesForRepoEvent_def
          R1_neq_R2 example_pages, simp add: exampleApi_def R1_neq_R2 example_pages)
  ultimately show ?thesis
    by (simp add: withCursor_def issuesOptions_def)
qed

text \<open>
  Claim C6, as stated, fails for issue queries: for Azure DevOps the filter value is the
  display name of the identity, not its id.
\<close>

theorem identity_field_counterexample:
  "api_getCurrentUserForInstance exampleApi AzureDevOps (Some (js ''org-a'')) = Inr (Some alice)
   \<and> account_id alice = Some (js ''42'') \<and> account_name alice = Some (js ''Alice A'')
   \<and> fst (getIssuesForRepos exampleApi AzureDevOps (RepoInputs [R1]) (Some [IssueAuthor]) None)
       = [GetSession AzureDevOps [] [],
          GetCurrentUserForInstance AzureDevOps (Some (js ''org-a'')),
          GetIssuesForAzureProject (Some (js ''org-a'')) (Some (js ''p1''))
            \<lparr>authorLogin = Some (js ''Alice A''), assigneeLogins = None,
              reviewRequestedLogin = None, mentionLogin = None, queryCursor = None\<rparr>]"
  by (simp add: example_azure_issues_author) (simp add: exampleApi_def alice_def)

text \<open>
  Claim C6, amended.  The options of every paging query of an operation with filters are
  those translated from the identity that the operation resolved: for pull requests with
  the id of the identity for Bitbucket and Azure DevOps and with its username for every
  other provider; for issues with its display name for Azure DevOps and with its username
  for the providers other than Azure DevOps and Bitbucket.
\<close>

theorem identity_field_per_provider:
  "(\<forall>ev \<in> set (fst (getPullRequestsForRepos api p input (Some prFilters) cursor)).
      \<forall>opts. queryOptionsOf ev = Some opts \<longrightarrow>
        (\<exists>idev \<in> set (fst (getPullRequestsForRepos api p input (Some prFilters) cursor)).
           \<exists>userAccount v.
             identityAnswer api idev = Some (Inr (Some userAccount))
             \<and> (if p = Bitbucket \<or> p = AzureDevOps then account_id userAccount
                 else username userAccount) = Some v
             \<and> opts = (pullRequestsOptions prFilters v)\<lparr>queryCursor := queryCursor opts\<rparr>))
   \<and> (p \<noteq> Bitbucket \<longrightarrow>
       (\<forall>ev \<in> set (fst (getIssuesForRepos api p input (Some filters) cursor)).
          \<forall>opts. queryOptionsOf ev = Some opts \<longrightarrow>
            (\<exists>idev \<in> set (fst (getIssuesForRepos api p input (Some filters) cursor)).
               \<exists>userAccount v.
                 identityAnswer api idev = Some (Inr (Some userAccount))
                 \<and> (if p = AzureDevOps then account_name userAccount
                     else username userAccount) = Some v
                 \<and> opts = (issuesOptions filters v)\<lparr>queryCursor := queryCursor opts\<rparr>)))"
proof (intro conjI impI ballI allI)
  fix ev opts
  let ?trace = "fst (getPullRequestsForRepos api p input (Some prFilters) cursor)"
  assume ev: "ev \<in> set ?trace" "queryOptionsOf ev = Some opts"
  obtain t1 answer qs where
    t1: "getPullRequestsOptions api p input (Some prFilters) = (t1, answer)"
    and shape: "?trace = fst (ensureSession api p)
                \<or> ?trace = fst (ensureSession api p) @ t1 @ qs
                  \<and> (qs = [] \<or> (\<exists>options. answer = Inr options
                         \<and> (\<forall>q \<in> set qs. \<exists>c. queryOptionsOf q = Some (withCursor options c))))"
    using getPullRequestsForRepos_calls [of api p input "Some prFilters" cursor] by blast
  have not_session: "?trace \<noteq> fst (ensureSession api p)"
    using ev ensureSession_calls [of api p] by auto
  with shape have trace: "?trace = fst (ensureSession api p) @ t1 @ qs"
    and qs: "qs = [] \<or> (\<exists>options. answer = Inr options
               \<and> (\<forall>q \<in> set qs. \<exists>c. queryOptionsOf q = Some (withCursor options c)))"
    by blast+
  have "\<forall>e \<in> set t1. queryOptionsOf e = None"
    using getPullRequestsOptions_calls [of api p input "Some prFilters"] t1 by simp
  then obtain options c where answer: "answer = Inr options" and opts: "opts = withCursor options c"
    using translated_query_options [OF trace _ _ qs ev] ensureSession_calls [of api p] by blast
  from getPullRequestsOptions_translated [OF t1 [unfolded answer]]
  obtain idev userAccount v where
    "t1 = [idev]" "identityAnswer api idev = Some (Inr (Some userAccount))"
    "(if p = Bitbucket \<or> p = AzureDevOps then account_id userAccount
      else username userAccount) = Some v"
    "options = Some (pullRequestsOptions prFilters v)"
    by blast
  then show "\<exists>idev \<in> set ?trace. \<exists>userAccount v.
               identityAnswer api idev = Some (Inr (Some userAccount))
               \<and> (if p = Bitbucket \<or> p = AzureDevOps then account_id userAccount
                   else username userAccount) = Some v
               \<and> opts = (pullRequestsOptions prFilters v)\<lparr>queryCursor := queryCursor opts\<rparr>"
    using opts trace withCursor_Some [of opts "pullRequestsOptions prFilters v" c] by auto
next
  fix ev opts
  let ?trace = "fst (getIssuesForRepos api p input (Some filters) cursor)"
  assume p: "p \<noteq> Bitbucket"
    and ev: "ev \<in> set ?trace" "queryOptionsOf ev = Some opts"
  have not_session: "?trace \<noteq> fst (ensureSession api p)"
    using ev ensureSession_calls [of api p] by auto
  then obtain t1 answer qs where
    t1: "p = AzureDevOps
           \<and> (\<exists>organization. getAzureIssuesOptions api p organization (Some filters) = (t1, answer))
         \<or> p \<noteq> AzureDevOps \<and> getIssuesOptions api p (Some filters) = (t1, answer)"
    and trace: "?trace = fst (ensureSession api p) @ t1 @ qs"
    and qs: "qs = [] \<or> (\<exists>options. answer = Inr options
               \<and> (\<forall>q \<in> set qs. \<exists>c. queryOptionsOf q = Some (withCursor options c)))"
    using getIssuesForRepos_calls [of api p input "Some filters" cursor] by blast
  have "\<forall>e \<in> set t1. queryOptionsOf e = None"
    using getAzureIssuesOptions_calls [of api p _ "Some filters"]
      getIssuesOptions_calls [of api p "Some filters"] t1
    by (metis fst_conv)
  then obtain options c where answer: "answer = Inr options" and opts: "opts = withCursor options c"
    using translated_query_options [OF trace _ _ qs ev] ensureSession_calls [of api p] by blast
  have "\<exists>idev userAccount v.
          t1 = [idev] \<and> identityAnswer api idev = Some (Inr (Some userAccount))
          \<and> (if p = AzureDevOps then account_name userAccount else username userAccount) = Some v
          \<and> options = Some (issuesOptions filters v)"
  proof (cases "p = AzureDevOps")
    case True
    with t1 answer obtain organization where
      "getAzureIssuesOptions api p organization (Some filters) = (t1, Inr options)"
      by blast
    from getAzureIssuesOptions_translated [OF this] True show ?thesis by simp
  next
    case False
    with t1 answer have "getIssuesOptions api p (Some filters) = (t1, Inr options)"
      by blast
    from getIssuesOptions_translated [OF this] False show ?thesis by simp
  qed
  then obtain idev userAccount v where
    "t1 = [idev]" "identityAnswer api idev = Some (Inr (Some userAccount))"
    "(if p = AzureDevOps then account_name userAccount else username userAccount) = Some v"
    "options = Some (issuesOptions filters v)"
    by blast
  then show "\<exists>idev \<in> set ?trace. \<exists>userAccount v.
               identityAnswer api idev = Some (Inr (Some userAccount))
               \<and> (if p = AzureDevOps then account_name userAccount
                   else username userAccount) = Some v
               \<and> opts = (issuesOptions filters v)\<lparr>queryCursor := queryCursor opts\<rparr>"
    using opts trace withCursor_Some [of opts "issuesOptions filters v" c] by auto
qed

theorem identity_field_per_provider_witness:
  "(\<exists>userAccount v.
      identityAnswer exampleApi (GetCurrentUser Bitbucket) = Some (Inr (Some userAccount))
      \<and> account_id userAccount = Some v
      \<and> \<lparr>authorLogin = Some (js ''42''), assigneeLogins = None, reviewRequestedLogin = None,
           mentionLogin = None, queryCursor = None\<rparr>
          = pullRequestsOptions [PRAuthor] v)
   \<and> (\<exists>userAccount v.
      identityAnswer exampleApi (GetCurrentUserForInstance AzureDevOps (Some (js ''org-a'')))
        = Some (Inr (Some userAccount))
      \<and> account_name userAccount = Some v
      \<and> \<lparr>authorLogin = Some (js ''Alice A''), assigneeLogins = None, reviewRequestedLogin = None,
           mentionLogin = None, queryCursor = None\<rparr>
          = issuesOptions [IssueAuthor] v)"
proof
  let ?q = "GetPullRequestsForRepo Bitbucket R2
              \<lparr>authorLogin = Some (js ''42''), assigneeLogins = None,
                reviewRequestedLogin = None, mentionLogin = None, queryCursor = None\<rparr>"
  have "?q \<in> set (fst (getPullRequestsForRepos exampleApi Bitbucket (RepoInputs [R2])
                         (Some [PRAuthor]) None))"
    by (simp add: example_pullRequests_author)
  moreover have "queryOptionsOf ?q
                   = Some \<lparr>authorLogin = Some (js ''42''), assigneeLogins = None,
                       reviewRequestedLogin = None, mentionLogin = None, queryCursor = None\<rparr>"
    by (simp add: queryOptionsOf_def)
  ultimately show "\<exists>userAccount v.
      identityAnswer exampleApi (GetCurrentUser Bitbucket) = Some (Inr (Some userAccount))
      \<and> account_id userAccount = Some v
      \<and> \<lparr>authorLogin = Some (js ''42''), assigneeLogins = None, reviewRequestedLogin = None,
           mentionLogin = None, queryCursor = None\<rparr>
          = pullRequestsOptions [PRAuthor] v"
    using identity_field_per_provider
      [where api = exampleApi and p = Bitbucket and input = "RepoInputs [R2]"
         and prFilters = "[PRAuthor]" and cursor = None,
       THEN conjunct1, rule_format, of ?q]
    by (auto simp: example_pullRequests_author identityAnswer_def queryOptionsOf_def
          pullRequestsOptions_def)
next
  let ?q = "GetIssuesForAzureProject (Some (js ''org-a'')) (Some (js ''p1''))
              \<lparr>authorLogin = Some (js ''Alice A''), assigneeLogins = None,
                reviewRequestedLogin = None, mentionLogin = None, queryCursor = None\<rparr>"
  have "?q \<in> set (fst (getIssuesForRepos exampleApi AzureDevOps (RepoInputs [R1])
                         (Some [IssueAuthor]) None))"
    by (simp add: example_azure_issues_author)
  moreover have "queryOptionsOf ?q
                   = Some \<lparr>authorLogin = Some (js ''Alice A''), assigneeLogins = None,
                       reviewRequestedLogin = None, mentionLogin = None, queryCursor = None\<rparr>"
    by (simp add: queryOptionsOf_def)
  ultimately show "\<exists>userAccount v.
      identityAnswer exampleApi (GetCurrentUserForInstance AzureDevOps (Some (js ''org-a'')))
        = Some (Inr (Some userAccount))
      \<and> account_name userAccount = Some v
      \<and> \<lparr>authorLogin = Some (js ''Alice A''), assigneeLogins = None, reviewRequestedLogin = None,
           mentionLogin = None, queryCursor = None\<rparr>
          = issuesOptions [IssueAuthor] v"
    using identity_field_per_provider
      [where api = exampleApi and p = AzureDevOps and input = "RepoInputs [R1]"
         and filters = "[IssueAuthor]" and cursor = None,
       THEN conjunct2, rule_format, of ?q]
    by (auto simp: example_azure_issues_author identityAnswer_def queryOptionsOf_def
          issuesOptions_def)
qed

text \<open>
  Claim C7, as stated, fails: without filters \<^verbatim>\<open>getPullRequestsForRepos\<close> does not
  look at the organizations, and queries the repositories of two of them.  With units
  that lack a project, without a session, or with an unsupported filter the operation
  stops earlier, for another reason.
\<close>

theorem azure_organization_check_counterexample:
  "card (set (namespacesOf (RepoInputs [R1, R2]))) = 2
   \<and> getPullRequestsForRepos exampleApi AzureDevOps (RepoInputs [R1, R2]) None None
       = ([GetSession AzureDevOps [] [],
           GetPullRequestsForRepo AzureDevOps R1 (withCursor None None),
           GetPullRequestsForRepo AzureDevOps R2 (withCursor None None)],
          Result \<lparr>page_values = [3, 1, 2],
            paging = Some
              \<lparr>paging_cursor = Some (encodeCursors PagedRepoInput_json
                                        [\<lparr>repo = R1, repoCursor = Some (js ''c1'')\<rparr>]),
               paging_more = True\<rparr>\<rparr>)
   \<and> getIssuesForRepos exampleApi AzureDevOps (RepoInputs [R1, R2\<lparr>project := None\<rparr>]) None None
       = ([GetSession AzureDevOps [] []], NoResult UnsupportedInput)
   \<and> getIssuesForRepos (exampleApi\<lparr>auth_getSession := \<lambda>p d s. Inr None\<rparr>) AzureDevOps
         (RepoInputs [R1, R2]) None None
       = ([GetSession AzureDevOps [] []], NoResult SessionUnavailable)
   \<and> getPullRequestsForRepos (exampleApi\<lparr>api_supportedPullRequestFilters := \<lambda>p. []\<rparr>)
         AzureDevOps (RepoInputs [R1, R2]) (Some [PRAuthor]) None
       = ([GetSession AzureDevOps [] []], NoResult UnsupportedFilters)"
proof (intro conjI)
  show "getIssuesForRepos exampleApi AzureDevOps (RepoInputs [R1, R2\<lparr>project := None\<rparr>]) None None
          = ([GetSession AzureDevOps [] []], NoResult UnsupportedInput)"
    by (simp add: getIssuesForRepos_def example_session unsupportedInput_def isRepoIdsInput_def
          reposOf_def R1_def R2_def)
  show "getIssuesForRepos (exampleApi\<lparr>auth_getSession := \<lambda>p d s. Inr None\<rparr>) AzureDevOps
          (RepoInputs [R1, R2]) None None
          = ([GetSession AzureDevOps [] []], NoResult SessionUnavailable)"
    by (simp add: getIssuesForRepos_def ensureSession_def exampleApi_def)
  show "getPullRequestsForRepos (exampleApi\<lparr>api_supportedPullRequestFilters := \<lambda>p. []\<rparr>)
          AzureDevOps (RepoInputs [R1, R2]) (Some [PRAuthor]) None
          = ([GetSession AzureDevOps [] []], NoResult UnsupportedFilters)"
    by (simp add: getPullRequestsForRepos_def ensureSession_def exampleApi_def
          unsupportedInput_def isRepoIdsInput_def reposOf_def R1_def R2_def
          getPullRequestsOptions_def providerSupportsPullRequestFilters_def)
qed (simp_all add: two_organizations example_pullRequests_two_orgs)

text \<open>
  Claim C7, amended.  For Azure DevOps, with a session and an input of descriptors that all
  have a namespace and a project: \<^verbatim>\<open>getIssuesForRepos\<close>, with or without filters, and
  \<^verbatim>\<open>getPullRequestsForRepos\<close> with filters that the provider supports return no
  result, for want of an organization when the units have no namespace at all and
  because of several organizations when they have more than one; the session check is
  then the only call made.  Without filters \<^verbatim>\<open>getPullRequestsForRepos\<close> never ends
  for either of these two reasons, whatever the session, the input and the cursor.
\<close>

theorem azure_organization_check:
  "(snd (ensureSession api AzureDevOps) = Inr True \<and> \<not> unsupportedInput AzureDevOps input
    \<longrightarrow> (card (set (namespacesOf input)) = 0
          \<longrightarrow> getIssuesForRepos api AzureDevOps input filters cursor
                = (fst (ensureSession api AzureDevOps), NoResult NoOrganizations))
        \<and> (1 < card (set (namespacesOf input))
          \<longrightarrow> getIssuesForRepos api AzureDevOps input filters cursor
                = (fst (ensureSession api AzureDevOps), NoResult MultipleOrganizations))
        \<and> (providerSupportsPullRequestFilters api AzureDevOps prFilters
          \<longrightarrow> (card (set (namespacesOf input)) = 0
                \<longrightarrow> getPullRequestsForRepos api AzureDevOps input (Some prFilters) cursor
                      = (fst (ensureSession api AzureDevOps), NoResult NoOrganizations))
              \<and> (1 < card (set (namespacesOf input))
                \<longrightarrow> getPullRequestsForRepos api AzureDevOps input (Some prFilters) cursor
                      = (fst (ensureSession api AzureDevOps), NoResult MultipleOrganizations))))
   \<and> (\<exists>domain scopes. fst (ensureSession api AzureDevOps) = [GetSession AzureDevOps domain scopes])
   \<and> snd (getPullRequestsForRepos api AzureDevOps input None cursor) \<noteq> NoResult NoOrganizations
   \<and> snd (getPullRequestsForRepos api AzureDevOps input None cursor)
       \<noteq> NoResult MultipleOrganizations"
  (is "?checked \<and> ?session \<and> ?none \<and> ?many")
proof -
  have ?checked
  proof (intro conjI impI)
    assume a: "snd (ensureSession api AzureDevOps) = Inr True \<and> \<not> unsupportedInput AzureDevOps input"
    then obtain t0 where t0: "ensureSession api AzureDevOps = (t0, Inr True)"
      by (cases "ensureSession api AzureDevOps") auto
    {
      assume "card (set (namespacesOf input)) = 0"
      then have none: "setOf (namespacesOf input) = []" by (rule setOf_none)
      show "getIssuesForRepos api AzureDevOps input filters cursor
              = (fst (ensureSession api AzureDevOps), NoResult NoOrganizations)"
        using a by (simp add: getIssuesForRepos_def t0 none)
      assume "providerSupportsPullRequestFilters api AzureDevOps prFilters"
      then show "getPullRequestsForRepos api AzureDevOps input (Some prFilters) cursor
              = (fst (ensureSession api AzureDevOps), NoResult NoOrganizations)"
        using a by (simp add: getPullRequestsForRepos_def getPullRequestsOptions_def t0 none)
    }
    {
      assume "1 < card (set (namespacesOf input))"
      then obtain o1 o2 rest where many: "setOf (namespacesOf input) = o1 # o2 # rest"
        using setOf_many by blast
      show "getIssuesForRepos api AzureDevOps input filters cursor
              = (fst (ensureSession api AzureDevOps), NoResult MultipleOrganizations)"
        using a by (simp add: getIssuesForRepos_def t0 many)
      assume "providerSupportsPullRequestFilters api AzureDevOps prFilters"
      then show "getPullRequestsForRepos api AzureDevOps input (Some prFilters) cursor
              = (fst (ensureSession api AzureDevOps), NoResult MultipleOrganizations)"
        using a by (simp add: getPullRequestsForRepos_def getPullRequestsOptions_def t0 many)
    }
  qed
  moreover have ?session by (rule ensureSession_event)
  moreover have "?none \<and> ?many"
    by (auto simp: getPullRequestsForRepos_def getPullRequestsOptions_def case_fanOut
          fanOut_no_organization_failure
          split: prod.splits sum.splits bool.splits decoded.splits if_splits)
  ultimately show ?thesis by blast
qed

theorem azure_organization_check_witness:
  "getIssuesForRepos exampleApi AzureDevOps (RepoInputs []) (Some [IssueAuthor]) None
     = ([GetSession AzureDevOps [] []], NoResult NoOrganizations)
   \<and> getIssuesForRepos exampleApi AzureDevOps (RepoInputs [R1, R2]) None None
     = ([GetSession AzureDevOps [] []], NoResult MultipleOrganizations)
   \<and> getPullRequestsForRepos exampleApi AzureDevOps (RepoInputs []) (Some [PRAuthor]) None
     = ([GetSession AzureDevOps [] []], NoResult NoOrganizations)
   \<and> getPullRequestsForRepos exampleApi AzureDevOps (RepoInputs [R1, R2]) (Some [PRAuthor]) None
     = ([GetSession AzureDevOps [] []], NoResult MultipleOrganizations)
   \<and> snd (getPullRequestsForRepos exampleApi AzureDevOps (RepoInputs []) None None)
       \<noteq> NoResult NoOrganizations
   \<and> snd (getPullRequestsForRepos exampleApi AzureDevOps (RepoInputs [R1, R2]) None None)
       \<noteq> NoResult MultipleOrganizations"
proof -
  have supported: "providerSupportsPullRequestFilters exampleApi AzureDevOps [PRAuthor]"
    by (simp add: providerSupportsPullRequestFilters_def exampleApi_def)
  have input: "\<not> unsupportedInput AzureDevOps (RepoInputs [])"
    "\<not> unsupportedInput AzureDevOps (RepoInputs [R1, R2])"
    by (simp_all add: unsupportedInput_def isRepoIdsInput_def reposOf_def R1_def R2_def)
  have none: "card (set (namespacesOf (RepoInputs []))) = 0"
    by (simp add: namespacesOf_def)
  show ?thesis
    using azure_organization_check
        [where api = exampleApi and input = "RepoInputs []" and filters = "Some [IssueAuthor]"
           and prFilters = "[PRAuthor]" and cursor = None]
      azure_organization_check
        [where api = exampleApi and input = "RepoInputs [R1, R2]" and filters = None
           and prFilters = "[PRAuthor]" and cursor = None]
    by (simp add: example_session supported input none two_organizations)
qed

text \<open>
  Claim C8 fails on the empty string: \<^verbatim>\<open>options?.cursor ?? '{}'\<close> replaces an absent
  cursor only, \<^verbatim>\<open>JSON.parse('')\<close> throws, and lines 134, 254 and 334 are outside the
  \<^verbatim>\<open>try\<close> blocks, so the SyntaxError leaves the operation.
\<close>

theorem empty_cursor_raises:
  "getPullRequestsForRepos exampleApi github (RepoInputs [R1]) None (Some [])
     = ([GetSession github [] []], Raised SyntaxError)
   \<and> getIssuesForRepos exampleApi AzureDevOps (RepoInputs [R1]) None (Some [])
     = ([GetSession AzureDevOps [] []], Raised SyntaxError)
   \<and> getIssuesForRepos exampleApi github (RepoInputs [R1]) None (Some [])
     = ([GetSession github [] []], Raised SyntaxError)"
proof -
  have "api_getProviderPullRequestsPagingMode exampleApi github = Some Repo"
    "api_getProviderIssuesPagingMode exampleApi github = Some Repo"
    by (simp_all add: exampleApi_def)
  moreover have "setOf (namespacesOf (RepoInputs [R1])) = [Some (js ''org-a'')]"
    "\<not> unsupportedInput AzureDevOps (RepoInputs [R1])"
    by (simp_all add: setOf_def setAdd_def namespacesOf_def unsupportedInput_def
          isRepoIdsInput_def reposOf_def R1_def)
  moreover have "github \<noteq> AzureDevOps" "github \<noteq> GitLab"
    by (simp_all add: github_def)
  ultimately show ?thesis
    by (simp add: getPullRequestsForRepos_def getIssuesForRepos_def example_session
          unsupportedInput_def isRepoIdsInput_def getPullRequestsOptions_None
          getIssuesOptions_None getAzureIssuesOptions_None decodeCursors_empty_string)
qed

text \<open>
  Claim C9.  Decoding the text that encoding a composite cursor produces gives the same
  list of unit-cursor entries back, for entries of repositories and for entries of
  projects, and for every list of them, the empty one included.
\<close>

theorem composite_cursor_roundtrip:
  "decodeCursors PagedRepoInput_of_json (Some (encodeCursors PagedRepoInput_json repoCursors))
     = Cursors repoCursors
   \<and> decodeCursors PagedProjectInput_of_json
         (Some (encodeCursors PagedProjectInput_json projectCursors))
     = Cursors projectCursors"
  by (simp add: decode_encode_repo decode_encode_project)

text \<open>
  Claim C10.  Without filters, \<^verbatim>\<open>getPullRequestsForRepos\<close> and
  \<^verbatim>\<open>getIssuesForRepos\<close> make the session check and then paging queries only, each
  with no identity filter in its options; no call asks for the current user.
\<close>

theorem no_filters_no_identity:
  "(\<exists>qs. fst (getPullRequestsForRepos api p input None cursor) = fst (ensureSession api p) @ qs
          \<and> (\<forall>q \<in> set qs. \<exists>c. queryOptionsOf q =
                Some \<lparr>authorLogin = None, assigneeLogins = None, reviewRequestedLogin = None,
                      mentionLogin = None, queryCursor = c\<rparr>))
   \<and> (\<exists>qs. fst (getIssuesForRepos api p input None cursor) = fst (ensureSession api p) @ qs
          \<and> (\<forall>q \<in> set qs. \<exists>c. queryOptionsOf q =
                Some \<lparr>authorLogin = None, assigneeLogins = None, reviewRequestedLogin = None,
                      mentionLogin = None, queryCursor = c\<rparr>))
   \<and> (\<forall>ev \<in> set (fst (getPullRequestsForRepos api p input None cursor)). \<not> isIdentityCall ev)
   \<and> (\<forall>ev \<in> set (fst (getIssuesForRepos api p input None cursor)). \<not> isIdentityCall ev)"
proof -
  let ?none = "\<lambda>c. \<lparr>authorLogin = None, assigneeLogins = None, reviewRequestedLogin = None,
                      mentionLogin = None, queryCursor = c\<rparr>"
  have pr: "\<exists>qs. fst (getPullRequestsForRepos api p input None cursor) = fst (ensureSession api p) @ qs
              \<and> (\<forall>q \<in> set qs. \<exists>c. queryOptionsOf q = Some (?none c))"
    using getPullRequestsForRepos_calls [of api p input None cursor]
    by (auto simp: getPullRequestsOptions_None withCursor_None)
  have "\<exists>qs. fst (getIssuesForRepos api p input None cursor) = fst (ensureSession api p) @ qs
              \<and> (\<forall>q \<in> set qs. \<exists>c. queryOptionsOf q = Some (?none c))"
    using getIssuesForRepos_calls [of api p input None cursor]
    by (auto simp: getIssuesOptions_None getAzureIssuesOptions_None withCursor_None)
  with pr show ?thesis
    using ensureSession_calls [of api p] query_not_identity
    by (auto simp: Ball_def) blast+
qed

theorem no_filters_no_identity_witness:
  "(\<exists>c. queryOptionsOf (GetPullRequestsForRepo github R2 (withCursor None None))
          = Some \<lparr>authorLogin = None, assigneeLogins = None, reviewRequestedLogin = None,
                  mentionLogin = None, queryCursor = c\<rparr>)
   \<and> \<not> isIdentityCall (GetPullRequestsForRepo github R2 (withCursor None None))
   \<and> GetPullRequestsForRepo github R2 (withCursor None None)
       \<in> set (fst (getPullRequestsForRepos exampleApi github (RepoInputs [R1, R2]) None None))"
proof -
  let ?q = "GetPullRequestsForRepo github R2 (withCursor None None)"
  let ?trace = "fst (getPullRequestsForRepos exampleApi github (RepoInputs [R1, R2]) None None)"
  have trace: "?trace = [GetSession github [] [],
                 GetPullRequestsForRepo github R1 (withCursor None None), ?q]"
    by (simp add: example_pullRequests_two_orgs)
  note claim = no_filters_no_identity
    [where api = exampleApi and p = github and input = "RepoInputs [R1, R2]" and cursor = None]
  from claim obtain qs where
    "?trace = fst (ensureSession exampleApi github) @ qs"
    and qs: "\<forall>q \<in> set qs. \<exists>c. queryOptionsOf q =
               Some \<lparr>authorLogin = None, assigneeLogins = None, reviewRequestedLogin = None,
                     mentionLogin = None, queryCursor = c\<rparr>"
    by blast
  then have "?q \<in> set qs" by (auto simp: trace example_session)
  with qs have "\<exists>c. queryOptionsOf ?q =
               Some \<lparr>authorLogin = None, assigneeLogins = None, reviewRequestedLogin = None,
                     mentionLogin = None, queryCursor = c\<rparr>"
    by blast
  moreover have "?q \<in> set ?trace" by (simp add: trace)
  moreover from this claim have "\<not> isIdentityCall ?q" by blast
  ultimately show ?thesis by blast
qed

end
